(* ===== verification/Prelude.thy ===== *)
theory Prelude
  imports Main "HOL-Library.Word"
begin

text \<open>
  Shared vocabulary of the development: the types every component uses (UUIDs, points in
  time, Go errors), the error-carrying sequencing that stands for Go's
  \<open>if err != nil { return nil, err }\<close>, counting lemmas on lists, and the two generic
  locales: a system of operations with an invariant, and a relation that its operations stay
  in.
\<close>

named_theorems row_simps \<open>rewrite rules for table rows and row updates\<close>
named_theorems keeps_inv \<open>preservation lemmas of the component invariants\<close>

section \<open>Identifiers, time and errors\<close>

text \<open>
  A UUID is sixteen bytes; \<open>uuid.Nil\<close> is the all-zero value. Times and durations are
  integers in nanoseconds, Go's resolution.
\<close>

type_synonym uuid = "128 word"
type_synonym time = int
type_synonym duration = int

definition uuid_Nil :: uuid where
  "uuid_Nil = 0"

definition Second :: duration where
  "Second = 1000000000"

definition Minute :: duration where
  "Minute = 60 * Second"

definition Hour :: duration where
  "Hour = 60 * Minute"

lemmas duration_defs = Second_def Minute_def Hour_def

text \<open>\<open>time.Time.Unix()\<close>: whole seconds, rounded towards minus infinity.\<close>

definition Unix :: "time \<Rightarrow> int" where
  "Unix t = t div Second"

text \<open>
  Go errors. Sentinel errors are constructors named after the package that declares them;
  \<open>fmt.Errorf("msg: %w", err)\<close> is \<open>Wrap\<close> and \<open>fmt.Errorf("%w: msg", err)\<close> is \<open>Suffixed\<close>; an error of the driver \<open>lib/pq\<close> carries its
  SQLSTATE; any other error of a library is \<open>Foreign\<close>.
\<close>

datatype err =
    RepoErrBookingNotFound
  | RepoErrNoAvailableSeats
  | RepoErrBookingNotReserved
  | RepoErrBookingNotPurchased
  | RepoErrBookingExpired
  | RepoErrEventNotFound
  | RepoErrSeatNotFound
  | RepoErrSeatNotAvailable
  | RepoErrSeatAlreadyBooked
  | RepoErrUserNotFound
  | RepoErrUserExists
  | RepoErrVenueNotFound
  | SvcErrBookingNotFound
  | SvcErrNoAvailableSeats
  | SvcErrSeatBeingBooked
  | SvcErrSeatNotAvailable
  | SvcErrUnauthorized
  | SvcErrNotReserved
  | SvcErrBookingExpired
  | SvcErrOnlyReservedCancel
  | SvcErrNoSeatsRequested
  | SvcErrTooManySeats
  | SvcErrEventNotFound
  | SvcErrVenueNotFound
  | SvcErrUserExists
  | SvcErrInvalidCreds
  | SvcErrAlreadyAdmin
  | SvcErrAlreadyRegular
  | PayErrPaymentFailed
  | PayErrPaymentDeclined
  | PayErrRefundFailed
  | PayErrPaymentIntentMissing
  | QueueErrJobNotFound
  | QueueErrKafkaUnavailable
  | SqlErrNoRows
  | PqError string string
  | Foreign string
  | Wrap string err
  | Suffixed err string

text \<open>\<open>errors.Is\<close>: the error itself or one it wraps.\<close>

fun errors_Is :: "err \<Rightarrow> err \<Rightarrow> bool" where
  "errors_Is (Wrap m e) t \<longleftrightarrow> Wrap m e = t \<or> errors_Is e t"
| "errors_Is (Suffixed e m) t \<longleftrightarrow> Suffixed e m = t \<or> errors_Is e t"
| "errors_Is e t \<longleftrightarrow> e = t"

lemma errors_Is_refl [simp]: "errors_Is e e"
  by (cases e) auto

section \<open>Sequencing with errors\<close>

text \<open>A result is an error (\<open>Inl\<close>) or a value (\<open>Inr\<close>); \<open>ebind\<close> stops at the first error.\<close>

type_synonym 'a res = "err + 'a"

definition ebind :: "'a res \<Rightarrow> ('a \<Rightarrow> 'b res) \<Rightarrow> 'b res" where
  "ebind r k = (case r of Inl e \<Rightarrow> Inl e | Inr x \<Rightarrow> k x)"

lemma ebind_simps [simp]: "ebind (Inl e) k = Inl e" "ebind (Inr x) k = k x"
  by (simp_all add: ebind_def)

lemma ebind_Inr_iff: "ebind r k = Inr y \<longleftrightarrow> (\<exists>x. r = Inr x \<and> k x = Inr y)"
  by (cases r) auto

text \<open>\<open>guarded b e\<close> is the early return \<open>if !b { return nil, e }\<close>.\<close>

definition guarded :: "bool \<Rightarrow> err \<Rightarrow> unit res" where
  "guarded b e = (if b then Inr () else Inl e)"

lemma guarded_Inr_iff [simp]: "guarded b e = Inr u \<longleftrightarrow> b"
  by (simp add: guarded_def)

lemma guarded_simps [simp]: "guarded True e = Inr ()" "guarded False e = Inl e"
  by (simp_all add: guarded_def)

definition is_ok :: "'a res \<Rightarrow> bool" where
  "is_ok r = (case r of Inl _ \<Rightarrow> False | Inr _ \<Rightarrow> True)"

lemma is_ok_simps [simp]: "is_ok (Inr x)" "\<not> is_ok (Inl e)"
  by (simp_all add: is_ok_def)

section \<open>Counting\<close>

definition cnt :: "('a \<Rightarrow> bool) \<Rightarrow> 'a list \<Rightarrow> int" where
  "cnt P xs = int (length (filter P xs))"

lemma cnt_simps [simp]:
  "cnt P [] = 0"
  "cnt P (x # xs) = (if P x then 1 else 0) + cnt P xs"
  "cnt P (xs @ ys) = cnt P xs + cnt P ys"
  by (simp_all add: cnt_def)

lemma cnt_nonneg [simp]: "0 \<le> cnt P xs"
  by (simp add: cnt_def)

lemma cnt_cong: "(\<And>x. x \<in> set xs \<Longrightarrow> P x = Q x) \<Longrightarrow> cnt P xs = cnt Q xs"
  unfolding cnt_def by (metis filter_cong)

lemma cnt_map: "cnt P (map f xs) = cnt (P \<circ> f) xs"
  by (simp add: cnt_def filter_map comp_def)

section \<open>Systems with an invariant\<close>

text \<open>
  Several components have the same shape: a state, operations on it, and an invariant each
  operation keeps. The client's lemma is that whole runs keep it too.
\<close>

fun run :: "('op \<Rightarrow> 's \<Rightarrow> 's) \<Rightarrow> 'op list \<Rightarrow> 's \<Rightarrow> 's" where
  "run ex [] s = s"
| "run ex (op # ops) s = run ex ops (ex op s)"

lemma run_append: "run ex (xs @ ys) s = run ex ys (run ex xs s)"
  by (induction xs arbitrary: s) auto

locale invariant_system =
  fixes exec :: "'op \<Rightarrow> 's \<Rightarrow> 's"
    and inv :: "'s \<Rightarrow> bool"
  assumes step_inv: "inv s \<Longrightarrow> inv (exec op s)"
begin

lemma run_inv: "inv s \<Longrightarrow> inv (run exec ops s)"
  by (induction ops arbitrary: s) (auto intro: step_inv)

end

text \<open>
  A reflexive and transitive relation every operation of such a system stays in relates the
  ends of every run: the form in which status transitions are specified.
\<close>

locale bounded_system = invariant_system exec inv
  for exec :: "'op \<Rightarrow> 's \<Rightarrow> 's" and inv :: "'s \<Rightarrow> bool" +
  fixes rel :: "'s \<Rightarrow> 's \<Rightarrow> bool"
  assumes rel_refl: "rel s s"
    and rel_trans: "rel s t \<Longrightarrow> rel t u \<Longrightarrow> rel s u"
    and step_rel: "inv s \<Longrightarrow> rel s (exec op s)"
begin

lemma run_rel: "inv s \<Longrightarrow> rel s (run exec ops s)"
proof (induction ops arbitrary: s)
  case Nil
  show ?case by (simp add: rel_refl)
next
  case (Cons op ops)
  from Cons.prems have "inv (exec op s)" by (rule step_inv)
  then have "rel (exec op s) (run exec ops (exec op s))" by (rule Cons.IH)
  with step_rel [OF Cons.prems, of op] show ?case by (auto intro: rel_trans)
qed

end

text \<open>The same for a step relation.\<close>

locale transition_system =
  fixes trans :: "'s \<Rightarrow> 's \<Rightarrow> bool"
    and inv :: "'s \<Rightarrow> bool"
  assumes trans_inv: "trans s t \<Longrightarrow> inv s \<Longrightarrow> inv t"
begin

lemma steps_inv: "trans\<^sup>*\<^sup>* s t \<Longrightarrow> inv s \<Longrightarrow> inv t"
  by (induction rule: rtranclp_induct) (auto intro: trans_inv)

end

text \<open>A transition system whose invariant holds initially: all reachable states have it.\<close>

locale rooted_system = transition_system trans inv
  for trans :: "'s \<Rightarrow> 's \<Rightarrow> bool" and inv :: "'s \<Rightarrow> bool" +
  fixes init :: 's
  assumes init_inv: "inv init"
begin

lemma from_root: "trans\<^sup>*\<^sup>* init s \<Longrightarrow> inv s"
  using steps_inv init_inv by blast

end

end
