(* ===== verification/Sql_Table.thy ===== *)
theory Sql_Table
  imports Prelude
begin

text \<open>
  The meaning of the SQL statements the repositories send. A table is the list of its rows
  in insertion order; \<open>WHERE\<close> is a predicate on rows. The locale \<open>db_table\<close> is the
  interface between a table and the database state that contains it: how a table is read
  and replaced, and what follows for a table with a primary key.
\<close>

section \<open>Statements\<close>

definition sql_select :: "('r \<Rightarrow> bool) \<Rightarrow> 'r list \<Rightarrow> 'r list" where
  "sql_select p t = filter p t"

definition sql_update :: "('r \<Rightarrow> bool) \<Rightarrow> ('r \<Rightarrow> 'r) \<Rightarrow> 'r list \<Rightarrow> 'r list" where
  "sql_update p f t = map (\<lambda>r. if p r then f r else r) t"

definition sql_insert :: "'r \<Rightarrow> 'r list \<Rightarrow> 'r list" where
  "sql_insert r t = t @ [r]"

definition rows_affected :: "('r \<Rightarrow> bool) \<Rightarrow> 'r list \<Rightarrow> nat" where
  "rows_affected p t = length (filter p t)"

text \<open>\<open>QueryRow(...).Scan(...)\<close>: the first row, or \<open>sql.ErrNoRows\<close>.\<close>

definition query_row :: "'r list \<Rightarrow> 'r res" where
  "query_row rs = (case rs of [] \<Rightarrow> Inl SqlErrNoRows | r # _ \<Rightarrow> Inr r)"

lemma query_row_Inr: "query_row (sql_select p t) = Inr r \<Longrightarrow> r \<in> set t \<and> p r"
  by (auto simp: query_row_def sql_select_def filter_eq_Cons_iff split: list.splits)

lemma query_row_Inl: "query_row rs = Inl e \<longleftrightarrow> rs = [] \<and> e = SqlErrNoRows"
  by (auto simp: query_row_def split: list.splits)

lemma query_row_unique:
  assumes "r \<in> set t" "p r" "\<And>r'. r' \<in> set t \<Longrightarrow> p r' \<Longrightarrow> r' = r"
  shows "query_row (sql_select p t) = Inr r"
proof -
  have "filter p t \<noteq> []" using assms(1,2) by (auto simp: filter_empty_conv)
  then obtain x xs where x: "filter p t = x # xs" by (cases "filter p t") auto
  then have "x \<in> set t \<and> p x" by (auto simp: filter_eq_Cons_iff)
  with assms(3) x show ?thesis by (simp add: query_row_def sql_select_def)
qed

lemma rows_affected_0: "rows_affected p t = 0 \<longleftrightarrow> (\<forall>r\<in>set t. \<not> p r)"
  by (auto simp: rows_affected_def filter_empty_conv)

lemma set_sql_update: "set (sql_update p f t) = (\<lambda>r. if p r then f r else r) ` set t"
  by (simp add: sql_update_def)

lemma length_sql_update [simp]: "length (sql_update p f t) = length t"
  by (simp add: sql_update_def)

lemma sql_update_none: "(\<And>r. r \<in> set t \<Longrightarrow> \<not> p r) \<Longrightarrow> sql_update p f t = t"
  by (simp add: sql_update_def map_idI)

lemma map_sql_update: "(\<And>r. p r \<Longrightarrow> g (f r) = g r) \<Longrightarrow> map g (sql_update p f t) = map g t"
  by (auto simp: sql_update_def)

lemma key_sql_update:
  "(\<And>r. g (f r) = g r) \<Longrightarrow> g ` set (sql_update p f t) = g ` set t"
  using map_sql_update [of p g f t] by (metis list.set_map)

section \<open>Tables with a primary key\<close>

lemma key_inj: "distinct (map key t) \<Longrightarrow> r \<in> set t \<Longrightarrow> r' \<in> set t \<Longrightarrow> key r = key r' \<Longrightarrow> r = r'"
  by (auto simp: distinct_map dest: inj_onD)

lemma sql_update_key_and:
  assumes "distinct (map key t)" "r \<in> set t" "key r = k" "q r"
  shows "sql_update (\<lambda>x. key x = k \<and> q x) f t = sql_update (\<lambda>x. key x = k) f t"
  unfolding sql_update_def
proof (rule map_cong)
  fix x assume "x \<in> set t"
  then have "key x = k \<Longrightarrow> x = r" using key_inj [OF assms(1) _ assms(2)] assms(3) by simp
  then show "(if key x = k \<and> q x then f x else x) = (if key x = k then f x else x)"
    using assms(4) by auto
qed simp

lemma cnt_sql_update_key:
  assumes "distinct (map key t)" "r \<in> set t" "key r = k"
  shows "cnt P (sql_update (\<lambda>x. key x = k) f t) =
         cnt P t - (if P r then 1 else 0) + (if P (f r) then 1 else 0)"
  using assms
proof (induction t)
  case Nil
  then show ?case by simp
next
  case (Cons x t)
  show ?case
  proof (cases "x = r")
    case True
    with Cons.prems have "\<And>y. y \<in> set t \<Longrightarrow> key y \<noteq> k" by (metis distinct.simps(2) image_eqI list.simps(9) set_map)
    then have "sql_update (\<lambda>x. key x = k) f t = t" by (rule sql_update_none)
    with True Cons.prems show ?thesis by (simp add: sql_update_def)
  next
    case False
    with Cons.prems have "r \<in> set t" "distinct (map key t)" by auto
    moreover from calculation Cons.prems have "key x \<noteq> k" by auto
    ultimately show ?thesis using Cons.IH Cons.prems(3) by (simp add: sql_update_def)
  qed
qed

text \<open>
  The interface of a table inside the database state. \<open>put\<close> replaces the rows; the laws are
  those of a record field. \<open>fetch\<close> and \<open>modify\<close> are what the repositories do by primary key.
\<close>

locale db_table =
  fixes key :: "'r \<Rightarrow> 'k"
    and rows :: "'s \<Rightarrow> 'r list"
    and put :: "('r list \<Rightarrow> 'r list) \<Rightarrow> 's \<Rightarrow> 's"
  assumes rows_put: "rows (put f s) = f (rows s)"
    and put_put: "put f (put g s) = put (f \<circ> g) s"
    and put_id: "put (\<lambda>t. t) s = s"
begin

lemma put_same: "f (rows s) = rows s \<Longrightarrow> rows (put f s) = rows s"
  by (simp add: rows_put)

lemma fetch_unique:
  assumes "distinct (map key (rows s))" "r \<in> set (rows s)"
  shows "query_row (sql_select (\<lambda>x. key x = key r) (rows s)) = Inr r"
  using assms by (auto intro: query_row_unique dest: key_inj)

lemma fetch_modify_same:
  assumes "distinct (map key (rows s))" "r \<in> set (rows s)" "\<And>x. key (f x) = key x"
  shows "query_row (sql_select (\<lambda>x. key x = key r)
           (rows (put (sql_update (\<lambda>x. key x = key r) f) s))) = Inr (f r)"
proof -
  have d: "distinct (map key (sql_update (\<lambda>x. key x = key r) f (rows s)))"
    using assms(1,3) by (simp add: map_sql_update)
  have "f r \<in> set (sql_update (\<lambda>x. key x = key r) f (rows s))"
    using assms(2) by (force simp: set_sql_update)
  from fetch_unique [of "put (sql_update (\<lambda>x. key x = key r) f) s" "f r"] d this
  show ?thesis by (simp add: rows_put assms(3))
qed

lemma fetch_modify_other:
  assumes "k' \<noteq> k" "\<And>x. key (f x) = key x"
  shows "query_row (sql_select (\<lambda>x. key x = k')
           (rows (put (sql_update (\<lambda>x. key x = k) f) s))) =
         query_row (sql_select (\<lambda>x. key x = k') (rows s))"
proof -
  have "filter (\<lambda>x. key x = k') (map (\<lambda>r. if key r = k then f r else r) t) =
        filter (\<lambda>x. key x = k') t" for t
    using assms by (induction t) auto
  then show ?thesis by (simp add: rows_put sql_select_def sql_update_def)
qed

lemma fetch_insert:
  assumes "\<And>x. x \<in> set (rows s) \<Longrightarrow> key x \<noteq> key r"
  shows "query_row (sql_select (\<lambda>x. key x = key r) (rows (put (sql_insert r) s))) = Inr r"
proof -
  have "filter (\<lambda>x. key x = key r) (rows s) = []" using assms by (simp add: filter_empty_conv)
  then show ?thesis by (simp add: rows_put sql_insert_def sql_select_def query_row_def)
qed

lemma modify_twice:
  assumes "\<And>x. key (g x) = key x"
  shows "put (sql_update (\<lambda>x. key x = k) f) (put (sql_update (\<lambda>x. key x = k) g) s) =
         put (sql_update (\<lambda>x. key x = k) (f \<circ> g)) s"
proof -
  have "sql_update (\<lambda>x. key x = k) f \<circ> sql_update (\<lambda>x. key x = k) g =
        sql_update (\<lambda>x. key x = k) (f \<circ> g)"
    using assms by (auto simp: sql_update_def fun_eq_iff)
  then show ?thesis by (simp add: put_put)
qed

end

end
