(* ===== verification/Models.thy ===== *)
theory Models
  imports Sql_Table
begin

text \<open>
  The data of internal/models and the tables of internal/database/migrations.sql. Each Go
  struct is a record with the struct's fields, prefixed by a letter because the structs
  share field names; a nullable column or a pointer field is an \<open>option\<close>. Amounts of money
  are integers in cents, as the columns are \<open>DECIMAL(10,2)\<close>. The database state holds the
  rows of the five tables, and inserts check the schema's constraints.
\<close>

section \<open>internal/models\<close>

datatype BookingStatus =
    BookingStatusReserved
  | BookingStatusPurchased
  | BookingStatusCancelled
  | BookingStatusExpired

record Booking =
  bID :: uuid
  bUserID :: uuid
  bEventID :: uuid
  bSeatID :: uuid
  bStatus :: BookingStatus
  bTotalAmount :: int
  bReservedAt :: time
  bPurchasedAt :: "time option"
  bPaymentIntentID :: "string option"
  bExpiresAt :: time
  bCreatedAt :: time
  bUpdatedAt :: time

datatype SeatStatus =
    SeatStatusAvailable
  | SeatStatusReserved
  | SeatStatusSold

record Seat =
  sID :: uuid
  sEventID :: uuid
  sSeatNumber :: string
  sRowNumber :: "string option"
  sSection :: "string option"
  sStatus :: SeatStatus
  sReservedAt :: "time option"
  sReservedUntil :: "time option"
  sCreatedAt :: time

record Event =
  eID :: uuid
  eVenueID :: uuid
  eTitle :: string
  eDescription :: string
  eEventDate :: time
  eTicketPrice :: int
  eTotalSeats :: int
  eAvailableSeats :: int
  eCreatedBy :: uuid
  eCreatedAt :: time
  eUpdatedAt :: time

datatype UserRole = RoleUser | RoleAdmin

record User =
  uID :: uuid
  uEmail :: string
  uPasswordHash :: string
  uFullName :: string
  uRole :: UserRole
  uCreatedAt :: time
  uUpdatedAt :: time

text \<open>A venue's seat layout is an arbitrary JSON object, kept as its encoding.\<close>

record Venue =
  vID :: uuid
  vName :: string
  vAddress :: string
  vCapacity :: int
  vSeatLayout :: string
  vCreatedAt :: time
  vUpdatedAt :: time

text \<open>The columns a booking listing joins in.\<close>

record BookingWithDetails =
  dBooking :: Booking
  dEventTitle :: string
  dEventDate :: time
  dSeatNumber :: string
  dVenueName :: string

section \<open>The database\<close>

record db =
  users :: "User list"
  venues :: "Venue list"
  events :: "Event list"
  seats :: "Seat list"
  bookings :: "Booking list"

definition empty_db :: db where
  "empty_db = \<lparr>users = [], venues = [], events = [], seats = [], bookings = []\<rparr>"

interpretation users_tab: db_table uID users users_update
  by unfold_locales auto

interpretation venues_tab: db_table vID venues venues_update
  by unfold_locales auto

interpretation events_tab: db_table eID events events_update
  by unfold_locales auto

interpretation seats_tab: db_table sID seats seats_update
  by unfold_locales auto

interpretation bookings_tab: db_table bID bookings bookings_update
  by unfold_locales auto

text \<open>
  Constraint violations PostgreSQL reports, with its SQLSTATE codes. An \<open>INTEGER\<close> column
  holds 32-bit signed values.
\<close>

definition unique_violation :: "string \<Rightarrow> err" where
  "unique_violation c =
     PqError ''23505'' (''duplicate key value violates unique constraint '' @ c)"

definition foreign_key_violation :: "string \<Rightarrow> err" where
  "foreign_key_violation c =
     PqError ''23503'' (''insert or update violates foreign key constraint '' @ c)"

definition out_of_range :: err where
  "out_of_range = PqError ''22003'' ''integer out of range''"

definition int4 :: "int \<Rightarrow> bool" where
  "int4 n \<longleftrightarrow> - (2 ^ 31) \<le> n \<and> n < 2 ^ 31"

definition insert_user :: "User \<Rightarrow> db \<Rightarrow> db res" where
  "insert_user u d =
     (if uID u \<in> uID ` set (users d) then Inl (unique_violation ''users_pkey'')
      else if uEmail u \<in> uEmail ` set (users d) then Inl (unique_violation ''users_email_key'')
      else Inr (users_update (sql_insert u) d))"

definition insert_venue :: "Venue \<Rightarrow> db \<Rightarrow> db res" where
  "insert_venue v d =
     (if vID v \<in> vID ` set (venues d) then Inl (unique_violation ''venues_pkey'')
      else if \<not> int4 (vCapacity v) then Inl out_of_range
      else Inr (venues_update (sql_insert v) d))"

definition insert_event :: "Event \<Rightarrow> db \<Rightarrow> db res" where
  "insert_event e d =
     (if eID e \<in> eID ` set (events d) then Inl (unique_violation ''events_pkey'')
      else if eVenueID e \<notin> vID ` set (venues d)
        then Inl (foreign_key_violation ''events_venue_id_fkey'')
      else if eCreatedBy e \<notin> uID ` set (users d)
        then Inl (foreign_key_violation ''events_created_by_fkey'')
      else if \<not> int4 (eTotalSeats e) \<or> \<not> int4 (eAvailableSeats e) then Inl out_of_range
      else Inr (events_update (sql_insert e) d))"

definition insert_seat :: "Seat \<Rightarrow> db \<Rightarrow> db res" where
  "insert_seat s d =
     (if sID s \<in> sID ` set (seats d) then Inl (unique_violation ''seats_pkey'')
      else if (sEventID s, sSeatNumber s) \<in> (\<lambda>r. (sEventID r, sSeatNumber r)) ` set (seats d)
        then Inl (unique_violation ''seats_event_seat_unique'')
      else if sEventID s \<notin> eID ` set (events d)
        then Inl (foreign_key_violation ''seats_event_id_fkey'')
      else Inr (seats_update (sql_insert s) d))"

definition insert_booking :: "Booking \<Rightarrow> db \<Rightarrow> db res" where
  "insert_booking b d =
     (if bID b \<in> bID ` set (bookings d) then Inl (unique_violation ''bookings_pkey'')
      else if bUserID b \<notin> uID ` set (users d)
        then Inl (foreign_key_violation ''bookings_user_id_fkey'')
      else if bEventID b \<notin> eID ` set (events d)
        then Inl (foreign_key_violation ''bookings_event_id_fkey'')
      else if bSeatID b \<notin> sID ` set (seats d)
        then Inl (foreign_key_violation ''bookings_seat_id_fkey'')
      else Inr (bookings_update (sql_insert b) d))"

lemma insert_Inr_iff:
  "insert_user u d = Inr d' \<longleftrightarrow> uID u \<notin> uID ` set (users d) \<and> uEmail u \<notin> uEmail ` set (users d) \<and>
     d' = users_update (sql_insert u) d"
  "insert_venue v d = Inr d' \<longleftrightarrow> vID v \<notin> vID ` set (venues d) \<and> int4 (vCapacity v) \<and>
     d' = venues_update (sql_insert v) d"
  "insert_event e d = Inr d' \<longleftrightarrow> eID e \<notin> eID ` set (events d) \<and>
     eVenueID e \<in> vID ` set (venues d) \<and> eCreatedBy e \<in> uID ` set (users d) \<and>
     int4 (eTotalSeats e) \<and> int4 (eAvailableSeats e) \<and> d' = events_update (sql_insert e) d"
  "insert_seat s d = Inr d' \<longleftrightarrow> sID s \<notin> sID ` set (seats d) \<and>
     (sEventID s, sSeatNumber s) \<notin> (\<lambda>r. (sEventID r, sSeatNumber r)) ` set (seats d) \<and>
     sEventID s \<in> eID ` set (events d) \<and> d' = seats_update (sql_insert s) d"
  "insert_booking b d = Inr d' \<longleftrightarrow> bID b \<notin> bID ` set (bookings d) \<and>
     bUserID b \<in> uID ` set (users d) \<and> bEventID b \<in> eID ` set (events d) \<and>
     bSeatID b \<in> sID ` set (seats d) \<and> d' = bookings_update (sql_insert b) d"
  unfolding insert_user_def insert_venue_def insert_event_def insert_seat_def insert_booking_def
  by (auto simp del: image_iff)

section \<open>Transactions\<close>

text \<open>
  What the code cannot control about one call of a repository function: the values of its
  successive calls of \<open>time.Now()\<close>, the transaction's \<open>CURRENT_TIMESTAMP\<close>, the fresh UUIDs
  it draws, which of its driver calls fail and with which error (a busy row lock is such an
  error), and whether a commit whose acknowledgement failed took effect on the server.
\<close>

datatype step = Begin | Stmt nat | RowsAffected nat | Commit

record tenv =
  clock :: "nat \<Rightarrow> time"
  tx_time :: time
  new_uuid :: "nat \<Rightarrow> uuid"
  fault :: "step \<Rightarrow> err option"
  commit_lost :: bool

definition stmt :: "tenv \<Rightarrow> step \<Rightarrow> unit res" where
  "stmt env k = (case fault env k of None \<Rightarrow> Inr () | Some e \<Rightarrow> Inl e)"

lemma stmt_Inr_iff [simp]: "stmt env k = Inr u \<longleftrightarrow> fault env k = None"
  by (simp add: stmt_def split: option.splits)

lemma stmt_None [simp]: "fault env k = None \<Longrightarrow> stmt env k = Inr ()"
  by simp

text \<open>
  \<open>run_tx\<close> is \<open>database.DB.Begin()\<close> with \<open>defer tx.Rollback()\<close> around a body that ends in
  \<open>tx.Commit()\<close>: the body works on a private copy, an error throws the copy away. Row locks
  are held to the end of the transaction, so transactions take effect one at a time.
  \<open>auto_commit\<close> is a single statement outside a transaction.
\<close>

definition commit :: "tenv \<Rightarrow> step \<Rightarrow> db \<Rightarrow> 'a \<times> db \<Rightarrow> 'a res \<times> db" where
  "commit env k d r = (case fault env k of
       None \<Rightarrow> (Inr (fst r), snd r)
     | Some e \<Rightarrow> (Inl e, if commit_lost env then snd r else d))"

definition run_tx :: "tenv \<Rightarrow> (db \<Rightarrow> ('a \<times> db) res) \<Rightarrow> db \<Rightarrow> 'a res \<times> db" where
  "run_tx env body d = (case fault env Begin of
       Some e \<Rightarrow> (Inl e, d)
     | None \<Rightarrow> (case body d of Inl e \<Rightarrow> (Inl e, d) | Inr r \<Rightarrow> commit env Commit d r))"

definition auto_commit :: "tenv \<Rightarrow> step \<Rightarrow> (db \<Rightarrow> ('a \<times> db) res) \<Rightarrow> db \<Rightarrow> 'a res \<times> db" where
  "auto_commit env k body d =
     (case body d of
        Inl e \<Rightarrow> (Inl (case fault env k of None \<Rightarrow> e | Some e' \<Rightarrow> e'), d)
      | Inr r \<Rightarrow> commit env k d r)"

text \<open>The transaction rule: what holds before, and after every successful body, holds after.\<close>

lemma run_tx_inv:
  assumes "P d" "\<And>x d'. body d = Inr (x, d') \<Longrightarrow> P d'"
  shows "P (snd (run_tx env body d))"
  using assms by (auto simp: run_tx_def commit_def split: option.splits sum.splits)

lemma auto_commit_inv:
  assumes "P d" "\<And>x d'. body d = Inr (x, d') \<Longrightarrow> P d'"
  shows "P (snd (auto_commit env k body d))"
  using assms by (auto simp: auto_commit_def commit_def split: option.splits sum.splits)

lemma run_tx_Inr:
  "run_tx env body d = (Inr x, d') \<Longrightarrow>
   fault env Begin = None \<and> fault env Commit = None \<and> body d = Inr (x, d')"
  by (auto simp: run_tx_def commit_def split: option.splits sum.splits)

lemma run_tx_Inl:
  "run_tx env body d = (Inl e, d') \<Longrightarrow> \<not> commit_lost env \<Longrightarrow> d' = d"
  by (auto simp: run_tx_def commit_def split: option.splits sum.splits)

lemma run_tx_ok:
  "fault env Begin = None \<Longrightarrow> fault env Commit = None \<Longrightarrow>
   run_tx env body d = (case body d of Inl e \<Rightarrow> (Inl e, d) | Inr (x, d') \<Rightarrow> (Inr x, d'))"
  by (auto simp: run_tx_def commit_def split: sum.splits)

lemma auto_commit_Inr:
  "auto_commit env k body d = (Inr x, d') \<Longrightarrow> fault env k = None \<and> body d = Inr (x, d')"
  by (auto simp: auto_commit_def commit_def split: option.splits sum.splits)

lemma auto_commit_Inl:
  "auto_commit env k body d = (Inl e, d') \<Longrightarrow> \<not> commit_lost env \<Longrightarrow> d' = d"
  by (auto simp: auto_commit_def commit_def split: option.splits sum.splits)

text \<open>
  An environment in which nothing fails: the clock and the transaction time stand at \<open>t\<close>
  and the fresh UUIDs count up from \<open>u\<close>. Witnesses run in it.
\<close>

definition quiet_env :: "time \<Rightarrow> uuid \<Rightarrow> tenv" where
  "quiet_env t u = \<lparr>clock = (\<lambda>_. t), tx_time = t, new_uuid = (\<lambda>k. u + of_nat k),
     fault = (\<lambda>_. None), commit_lost = False\<rparr>"

lemma quiet_env_simps [simp]:
  "clock (quiet_env t u) k = t" "tx_time (quiet_env t u) = t"
  "new_uuid (quiet_env t u) k = u + of_nat k" "fault (quiet_env t u) s = None"
  "commit_lost (quiet_env t u) = False"
  by (simp_all add: quiet_env_def)

end
