(* ===== verification/Booking_Repo.thy ===== *)
theory Booking_Repo
  imports Models
begin

text \<open>
  internal/repository/booking_repository.go with pg_errors.go: every function of the booking
  repository as an operation on the database state. Driver calls are numbered in the order
  the function makes them (\<open>Stmt 1\<close>, \<open>Stmt 2\<close>, ...), and so are its calls of
  \<open>time.Now()\<close>, which are the only unnumbered effects.
\<close>

section \<open>Errors and scanning\<close>

definition pgSQLStateLockNotAvailable :: string where
  "pgSQLStateLockNotAvailable = ''55P03''"

fun isLockNotAvailable :: "err \<Rightarrow> bool" where
  "isLockNotAvailable (PqError code msg) \<longleftrightarrow> code = pgSQLStateLockNotAvailable"
| "isLockNotAvailable (Wrap msg e) \<longleftrightarrow> isLockNotAvailable e"
| "isLockNotAvailable (Suffixed e msg) \<longleftrightarrow> isLockNotAvailable e"
| "isLockNotAvailable _ \<longleftrightarrow> False"

text \<open>\<open>if err == sql.ErrNoRows { return nil, e }; return nil, err\<close>\<close>

definition no_rows_as :: "err \<Rightarrow> 'a res \<Rightarrow> 'a res" where
  "no_rows_as e r = (case r of
       Inl e' \<Rightarrow> Inl (if e' = SqlErrNoRows then e else e')
     | Inr x \<Rightarrow> Inr x)"

lemma no_rows_as_Inr [simp]: "no_rows_as e r = Inr x \<longleftrightarrow> r = Inr x"
  by (cases r) (auto simp: no_rows_as_def)

definition applyBookingNullables ::
  "Booking \<Rightarrow> time option \<Rightarrow> string option \<Rightarrow> Booking" where
  "applyBookingNullables booking purchasedAt paymentIntentID =
     (let b1 = (case purchasedAt of None \<Rightarrow> booking
                | Some t \<Rightarrow> booking\<lparr>bPurchasedAt := Some t\<rparr>)
      in case paymentIntentID of None \<Rightarrow> b1
         | Some i \<Rightarrow> if i \<noteq> '''' then b1\<lparr>bPaymentIntentID := Some i\<rparr> else b1)"

definition scan_booking :: "Booking \<Rightarrow> Booking" where
  "scan_booking row = applyBookingNullables
     (row\<lparr>bPurchasedAt := None, bPaymentIntentID := None\<rparr>)
     (bPurchasedAt row) (bPaymentIntentID row)"

text \<open>A NULL row number or section is scanned into the empty string.\<close>

definition scan_seat :: "Seat \<Rightarrow> Seat" where
  "scan_seat row = row\<lparr>
     sRowNumber := Some (case sRowNumber row of None \<Rightarrow> '''' | Some s \<Rightarrow> s),
     sSection := Some (case sSection row of None \<Rightarrow> '''' | Some s \<Rightarrow> s)\<rparr>"

lemma scan_booking_simps [simp]:
  "bID (scan_booking b) = bID b" "bUserID (scan_booking b) = bUserID b"
  "bEventID (scan_booking b) = bEventID b" "bSeatID (scan_booking b) = bSeatID b"
  "bStatus (scan_booking b) = bStatus b" "bTotalAmount (scan_booking b) = bTotalAmount b"
  "bExpiresAt (scan_booking b) = bExpiresAt b" "bUpdatedAt (scan_booking b) = bUpdatedAt b"
  "bPurchasedAt (scan_booking b) = bPurchasedAt b"
  "bReservedAt (scan_booking b) = bReservedAt b" "bCreatedAt (scan_booking b) = bCreatedAt b"
  by (simp_all add: scan_booking_def applyBookingNullables_def Let_def split: option.splits)

lemma bPaymentIntentID_scan [simp]:
  "bPaymentIntentID (scan_booking b) =
     (case bPaymentIntentID b of None \<Rightarrow> None | Some s \<Rightarrow> if s = '''' then None else Some s)"
  by (simp add: scan_booking_def applyBookingNullables_def Let_def split: option.splits)

lemma scan_seat_simps [simp]:
  "sID (scan_seat s) = sID s" "sEventID (scan_seat s) = sEventID s"
  "sSeatNumber (scan_seat s) = sSeatNumber s" "sStatus (scan_seat s) = sStatus s"
  "sReservedUntil (scan_seat s) = sReservedUntil s"
  "sReservedAt (scan_seat s) = sReservedAt s"
  by (simp_all add: scan_seat_def)

section \<open>Reads and row locks\<close>

definition booking_FindByID :: "tenv \<Rightarrow> step \<Rightarrow> db \<Rightarrow> uuid \<Rightarrow> Booking res" where
  "booking_FindByID env k d bid =
     ebind (no_rows_as RepoErrBookingNotFound
       (ebind (stmt env k) (\<lambda>_. query_row (sql_select (\<lambda>b. bID b = bid) (bookings d)))))
       (\<lambda>row. Inr (scan_booking row))"

definition findBookingForUpdateTx :: "tenv \<Rightarrow> step \<Rightarrow> db \<Rightarrow> uuid \<Rightarrow> Booking res" where
  "findBookingForUpdateTx env k d bid =
     ebind (no_rows_as RepoErrBookingNotFound
       (ebind (stmt env k) (\<lambda>_. query_row (sql_select (\<lambda>b. bID b = bid) (bookings d)))))
       (\<lambda>row. Inr (scan_booking row))"

definition eventExistsTx :: "tenv \<Rightarrow> step \<Rightarrow> db \<Rightarrow> uuid \<Rightarrow> bool res" where
  "eventExistsTx env k d eventID =
     ebind (stmt env k) (\<lambda>_. Inr (list_ex (\<lambda>e. eID e = eventID) (events d)))"

text \<open>
  \<open>SELECT ... FOR UPDATE NOWAIT\<close> on a seat: no row is \<open>ErrSeatNotFound\<close>, a row locked by
  another transaction is \<open>ErrSeatAlreadyBooked\<close>.
\<close>

definition lock_seat :: "tenv \<Rightarrow> step \<Rightarrow> db \<Rightarrow> (Seat \<Rightarrow> bool) \<Rightarrow> Seat res" where
  "lock_seat env k d p =
     (case ebind (stmt env k) (\<lambda>_. query_row (sql_select p (seats d))) of
        Inl e \<Rightarrow> if e = SqlErrNoRows then Inl RepoErrSeatNotFound
                 else if isLockNotAvailable e then Inl RepoErrSeatAlreadyBooked
                 else Inl e
      | Inr row \<Rightarrow> Inr (scan_seat row))"

definition lockSeatByIDForUpdateTx :: "tenv \<Rightarrow> step \<Rightarrow> db \<Rightarrow> uuid \<Rightarrow> Seat res" where
  "lockSeatByIDForUpdateTx env k d seatID = lock_seat env k d (\<lambda>s. sID s = seatID)"

section \<open>Reserving\<close>

definition reserveSeatTx ::
  "tenv \<Rightarrow> db \<Rightarrow> uuid \<Rightarrow> string \<Rightarrow> time \<Rightarrow> (Seat \<times> db) res" where
  "reserveSeatTx env d eventID seatNumber reservedUntil =
     ebind (lock_seat env (Stmt 3) d (\<lambda>s. sEventID s = eventID \<and> sSeatNumber s = seatNumber))
     (\<lambda>seat.
     ebind (guarded (sStatus seat = SeatStatusAvailable) RepoErrSeatNotAvailable) (\<lambda>_.
     ebind (guarded (\<not> (case sReservedUntil seat of None \<Rightarrow> False | Some u \<Rightarrow> clock env 0 < u))
       RepoErrSeatNotAvailable) (\<lambda>_.
     ebind (stmt env (Stmt 4)) (\<lambda>_.
     Inr (seat\<lparr>sStatus := SeatStatusReserved, sReservedAt := Some (clock env 1),
               sReservedUntil := Some reservedUntil\<rparr>,
          seats_update (sql_update (\<lambda>s. sID s = sID seat)
            (\<lambda>s. s\<lparr>sStatus := SeatStatusReserved, sReservedAt := Some (tx_time env),
                    sReservedUntil := Some reservedUntil\<rparr>)) d)))))"

definition createReservationTx ::
  "tenv \<Rightarrow> uuid \<Rightarrow> uuid \<Rightarrow> string \<Rightarrow> time \<Rightarrow> db \<Rightarrow> (Booking \<times> db) res" where
  "createReservationTx env userID eventID seatNumber expiresAt d =
     (let p = (\<lambda>e. eID e = eventID \<and> 0 < eAvailableSeats e);
         d1 = events_update (sql_update p (\<lambda>e. e\<lparr>eAvailableSeats := eAvailableSeats e - 1,
                eUpdatedAt := tx_time env\<rparr>)) d
     in
     ebind (case ebind (stmt env (Stmt 1)) (\<lambda>_. query_row (sql_select p (events d))) of
         Inl e \<Rightarrow> if e = SqlErrNoRows
           then ebind (eventExistsTx env (Stmt 2) d eventID) (\<lambda>exists.
                  if \<not> exists then Inl RepoErrEventNotFound else Inl RepoErrNoAvailableSeats)
           else Inl e
       | Inr e \<Rightarrow> Inr (eTicketPrice e)) (\<lambda>ticketPrice.
     ebind (reserveSeatTx env d1 eventID seatNumber expiresAt) (\<lambda>(seat, d2).
     let now = clock env 2;
         booking = \<lparr>bID = new_uuid env 0, bUserID = userID, bEventID = eventID,
           bSeatID = sID seat, bStatus = BookingStatusReserved, bTotalAmount = ticketPrice,
           bReservedAt = now, bPurchasedAt = None, bPaymentIntentID = None,
           bExpiresAt = expiresAt, bCreatedAt = now, bUpdatedAt = now\<rparr>
     in
     ebind (stmt env (Stmt 5)) (\<lambda>_.
     ebind (insert_booking booking d2) (\<lambda>d3.
     Inr (booking, d3))))))"

definition CreateReservation ::
  "tenv \<Rightarrow> db \<Rightarrow> uuid \<Rightarrow> uuid \<Rightarrow> string \<Rightarrow> time \<Rightarrow> Booking res \<times> db" where
  "CreateReservation env d userID eventID seatNumber expiresAt =
     run_tx env (createReservationTx env userID eventID seatNumber expiresAt) d"

section \<open>Changing a booking\<close>

text \<open>The statement that gives a seat back to its event, shared by release and revert.\<close>

definition increment_available :: "tenv \<Rightarrow> step \<Rightarrow> uuid \<Rightarrow> db \<Rightarrow> db res" where
  "increment_available env k eventID d =
     ebind (stmt env k) (\<lambda>_.
     if list_ex (\<lambda>e. eID e = eventID \<and> \<not> int4 (eAvailableSeats e + 1)) (events d)
     then Inl out_of_range
     else Inr (events_update (sql_update (\<lambda>e. eID e = eventID)
       (\<lambda>e. e\<lparr>eAvailableSeats := eAvailableSeats e + 1, eUpdatedAt := tx_time env\<rparr>)) d))"

definition free_seat :: "Seat \<Rightarrow> Seat" where
  "free_seat s = s\<lparr>sStatus := SeatStatusAvailable, sReservedAt := None, sReservedUntil := None\<rparr>"

definition sell_seat :: "Seat \<Rightarrow> Seat" where
  "sell_seat s = s\<lparr>sStatus := SeatStatusSold, sReservedAt := None, sReservedUntil := None\<rparr>"

definition completePurchaseTx :: "tenv \<Rightarrow> uuid \<Rightarrow> db \<Rightarrow> (Booking \<times> db) res" where
  "completePurchaseTx env bid d =
     ebind (findBookingForUpdateTx env (Stmt 1) d bid) (\<lambda>booking.
     if bStatus booking = BookingStatusPurchased then Inr (booking, d) else
     ebind (guarded (bStatus booking = BookingStatusReserved) RepoErrBookingNotReserved) (\<lambda>_.
     ebind (guarded (\<not> bExpiresAt booking < clock env 0) RepoErrBookingExpired) (\<lambda>_.
     let p = (\<lambda>b. bID b = bid \<and> bStatus b = BookingStatusReserved \<and> tx_time env < bExpiresAt b);
         d1 = bookings_update (sql_update p (\<lambda>b. b\<lparr>bStatus := BookingStatusPurchased,
                bPurchasedAt := Some (tx_time env), bUpdatedAt := tx_time env\<rparr>)) d
     in
     ebind (no_rows_as RepoErrBookingNotReserved
       (ebind (stmt env (Stmt 2)) (\<lambda>_. query_row (sql_select p (bookings d))))) (\<lambda>_.
     ebind (stmt env (Stmt 3)) (\<lambda>_.
     Inr (booking\<lparr>bUpdatedAt := tx_time env, bStatus := BookingStatusPurchased,
                  bPurchasedAt := Some (tx_time env)\<rparr>,
          seats_update (sql_update (\<lambda>s. sID s = bSeatID booking) sell_seat) d1))))))"

definition CompletePurchase ::
  "tenv \<Rightarrow> db \<Rightarrow> uuid \<Rightarrow> Booking res \<times> db" where
  "CompletePurchase env d bid = run_tx env (completePurchaseTx env bid) d"

definition revertFailedPurchaseTx :: "tenv \<Rightarrow> uuid \<Rightarrow> db \<Rightarrow> (Booking \<times> db) res" where
  "revertFailedPurchaseTx env bid d =
     ebind (findBookingForUpdateTx env (Stmt 1) d bid) (\<lambda>booking.
     ebind (guarded (bStatus booking = BookingStatusPurchased) RepoErrBookingNotPurchased) (\<lambda>_.
     let p = (\<lambda>b. bID b = bid \<and> bStatus b = BookingStatusPurchased);
         d1 = bookings_update (sql_update p (\<lambda>b. b\<lparr>bStatus := BookingStatusCancelled,
                bPurchasedAt := None, bPaymentIntentID := None, bUpdatedAt := tx_time env\<rparr>)) d
     in
     ebind (stmt env (Stmt 2)) (\<lambda>_.
     ebind (stmt env (RowsAffected 2)) (\<lambda>_.
     ebind (guarded (rows_affected p (bookings d) \<noteq> 0) RepoErrBookingNotPurchased) (\<lambda>_.
     ebind (stmt env (Stmt 3)) (\<lambda>_.
     ebind (increment_available env (Stmt 4) (bEventID booking)
       (seats_update (sql_update
          (\<lambda>s. sID s = bSeatID booking \<and> sStatus s = SeatStatusSold) free_seat) d1)) (\<lambda>d2.
     Inr (booking\<lparr>bStatus := BookingStatusCancelled, bPurchasedAt := None,
                  bPaymentIntentID := None\<rparr>, d2))))))))"

definition RevertFailedPurchase ::
  "tenv \<Rightarrow> db \<Rightarrow> uuid \<Rightarrow> Booking res \<times> db" where
  "RevertFailedPurchase env d bid = run_tx env (revertFailedPurchaseTx env bid) d"

definition extendReservationTx :: "tenv \<Rightarrow> uuid \<Rightarrow> time \<Rightarrow> db \<Rightarrow> (Booking \<times> db) res" where
  "extendReservationTx env bid extendUntil d =
     ebind (findBookingForUpdateTx env (Stmt 1) d bid) (\<lambda>booking.
     ebind (guarded (bStatus booking = BookingStatusReserved) RepoErrBookingNotReserved) (\<lambda>_.
     ebind (guarded (\<not> bExpiresAt booking < clock env 1) RepoErrBookingExpired) (\<lambda>_.
     ebind (lockSeatByIDForUpdateTx env (Stmt 2) d (bSeatID booking)) (\<lambda>seat.
     ebind (guarded (sEventID seat = bEventID booking) RepoErrSeatNotAvailable) (\<lambda>_.
     ebind (guarded (sStatus seat = SeatStatusReserved) RepoErrSeatNotAvailable) (\<lambda>_.
     ebind (guarded (\<not> (case sReservedUntil seat of None \<Rightarrow> False | Some u \<Rightarrow> u < clock env 2))
       RepoErrSeatNotAvailable) (\<lambda>_.
     let newExpiresAt = (if bExpiresAt booking < extendUntil then extendUntil
                         else bExpiresAt booking);
         p = (\<lambda>b. bID b = bid \<and> bStatus b = BookingStatusReserved \<and> tx_time env < bExpiresAt b);
         q = (\<lambda>s. sID s = bSeatID booking \<and> sStatus s = SeatStatusReserved);
         d1 = bookings_update (sql_update p (\<lambda>b. b\<lparr>bExpiresAt := newExpiresAt,
                bUpdatedAt := tx_time env\<rparr>)) d
     in
     ebind (stmt env (Stmt 3)) (\<lambda>_.
     ebind (stmt env (RowsAffected 3)) (\<lambda>_.
     ebind (guarded (rows_affected p (bookings d) \<noteq> 0) RepoErrBookingNotReserved) (\<lambda>_.
     ebind (stmt env (Stmt 4)) (\<lambda>_.
     ebind (stmt env (RowsAffected 4)) (\<lambda>_.
     ebind (guarded (rows_affected q (seats d1) \<noteq> 0) RepoErrSeatNotAvailable) (\<lambda>_.
     Inr (booking\<lparr>bExpiresAt := newExpiresAt\<rparr>,
          seats_update (sql_update q (\<lambda>s. s\<lparr>sReservedUntil := Some newExpiresAt\<rparr>)) d1)
     )))))))))))))"

definition ExtendReservation :: "tenv \<Rightarrow> db \<Rightarrow> uuid \<Rightarrow> time \<Rightarrow> Booking res \<times> db" where
  "ExtendReservation env d bid extendUntil =
     (if \<not> clock env 0 < extendUntil then (Inl RepoErrBookingExpired, d)
      else run_tx env (extendReservationTx env bid extendUntil) d)"

definition releaseReservationTx ::
  "tenv \<Rightarrow> uuid \<Rightarrow> BookingStatus \<Rightarrow> bool \<Rightarrow> db \<Rightarrow> (Booking \<times> db) res" where
  "releaseReservationTx env bid status requireExpired d =
     ebind (findBookingForUpdateTx env (Stmt 1) d bid) (\<lambda>booking.
     ebind (guarded (bStatus booking = BookingStatusReserved) RepoErrBookingNotReserved) (\<lambda>_.
     ebind (guarded (\<not> (requireExpired \<and> clock env 0 < bExpiresAt booking))
       RepoErrBookingNotReserved) (\<lambda>_.
     let p = (\<lambda>b. bID b = bid \<and> bStatus b = BookingStatusReserved \<and>
                (requireExpired \<longrightarrow> bExpiresAt b \<le> tx_time env));
         d1 = bookings_update (sql_update p (\<lambda>b. b\<lparr>bStatus := status,
                bUpdatedAt := tx_time env\<rparr>)) d
     in
     ebind (stmt env (Stmt 2)) (\<lambda>_.
     ebind (stmt env (RowsAffected 2)) (\<lambda>_.
     ebind (guarded (rows_affected p (bookings d) \<noteq> 0) RepoErrBookingNotReserved) (\<lambda>_.
     ebind (stmt env (Stmt 3)) (\<lambda>_.
     ebind (increment_available env (Stmt 4) (bEventID booking)
       (seats_update (sql_update (\<lambda>s. sID s = bSeatID booking) free_seat) d1)) (\<lambda>d2.
     Inr (booking\<lparr>bStatus := status\<rparr>, d2)))))))))"

definition releaseReservation ::
  "tenv \<Rightarrow> db \<Rightarrow> uuid \<Rightarrow> BookingStatus \<Rightarrow> bool \<Rightarrow> Booking res \<times> db" where
  "releaseReservation env d bid status requireExpired =
     run_tx env (releaseReservationTx env bid status requireExpired) d"

definition ReleaseExpiredReservation :: "tenv \<Rightarrow> db \<Rightarrow> uuid \<Rightarrow> Booking res \<times> db" where
  "ReleaseExpiredReservation env d bid = releaseReservation env d bid BookingStatusExpired True"

definition CancelReservation :: "tenv \<Rightarrow> db \<Rightarrow> uuid \<Rightarrow> Booking res \<times> db" where
  "CancelReservation env d bid = releaseReservation env d bid BookingStatusCancelled False"

definition SetPaymentIntentID :: "tenv \<Rightarrow> db \<Rightarrow> uuid \<Rightarrow> string \<Rightarrow> Booking res \<times> db" where
  "SetPaymentIntentID env d bid paymentIntentID =
     (let p = (\<lambda>b. bID b = bid \<and>
                 (bStatus b = BookingStatusReserved \<or> bStatus b = BookingStatusPurchased) \<and>
                 (bPaymentIntentID b = None \<or> bPaymentIntentID b = Some ''''))
      in case auto_commit env (Stmt 1) (\<lambda>d. Inr (rows_affected p (bookings d),
           bookings_update (sql_update p (\<lambda>b. b\<lparr>bPaymentIntentID := Some paymentIntentID,
             bUpdatedAt := tx_time env\<rparr>)) d)) d of
        (Inl e, d1) \<Rightarrow> (Inl e, d1)
      | (Inr rowsAffected, d1) \<Rightarrow>
          (ebind (stmt env (RowsAffected 1)) (\<lambda>_.
           if rowsAffected = 0 then
             ebind (booking_FindByID env (Stmt 2) d1 bid) (\<lambda>existing.
             if (case bPaymentIntentID existing of None \<Rightarrow> False | Some i \<Rightarrow> i \<noteq> '''')
             then Inr existing else Inl RepoErrBookingNotReserved)
           else booking_FindByID env (Stmt 2) d1 bid), d1))"

section \<open>Listings and the remaining statements\<close>

text \<open>\<open>database.GetReadDB()\<close>: the read replica's state when one is connected.\<close>

definition GetReadDB :: "db option \<Rightarrow> db \<Rightarrow> db" where
  "GetReadDB ReadDB d = (case ReadDB of Some r \<Rightarrow> r | None \<Rightarrow> d)"

definition booking_FindByUserID ::
  "tenv \<Rightarrow> db option \<Rightarrow> db \<Rightarrow> uuid \<Rightarrow> BookingWithDetails list res" where
  "booking_FindByUserID env ReadDB d userID =
     (let r = GetReadDB ReadDB d in
      ebind (stmt env (Stmt 1)) (\<lambda>_.
      Inr [\<lparr>dBooking = scan_booking b, dEventTitle = eTitle e, dEventDate = eEventDate e,
             dSeatNumber = sSeatNumber s, dVenueName = vName v\<rparr>.
           b \<leftarrow> sort_key (\<lambda>b. - bCreatedAt b) (filter (\<lambda>b. bUserID b = userID) (bookings r)),
           e \<leftarrow> events r, bEventID b = eID e,
           s \<leftarrow> seats r, bSeatID b = sID s,
           v \<leftarrow> venues r, eVenueID e = vID v]))"

definition FindExpiredReservations :: "tenv \<Rightarrow> db \<Rightarrow> Booking list res" where
  "FindExpiredReservations env d =
     ebind (stmt env (Stmt 1)) (\<lambda>_.
     Inr (map scan_booking (sql_select
       (\<lambda>b. bStatus b = BookingStatusReserved \<and> bExpiresAt b < tx_time env) (bookings d))))"

text \<open>Two statements no caller in the program uses.\<close>

definition booking_Create :: "tenv \<Rightarrow> db \<Rightarrow> Booking \<Rightarrow> Booking res \<times> db" where
  "booking_Create env d booking =
     (let b = booking\<lparr>bID := new_uuid env 0, bCreatedAt := clock env 0, bUpdatedAt := clock env 0\<rparr>
      in auto_commit env (Stmt 1) (\<lambda>d.
           ebind (insert_booking (b\<lparr>bPurchasedAt := None, bPaymentIntentID := None\<rparr>) d)
             (\<lambda>d'. Inr (b, d'))) d)"

definition UpdateStatus :: "tenv \<Rightarrow> db \<Rightarrow> uuid \<Rightarrow> BookingStatus \<Rightarrow> unit res \<times> db" where
  "UpdateStatus env d bid status = auto_commit env (Stmt 1) (\<lambda>d. Inr ((),
     bookings_update (sql_update (\<lambda>b. bID b = bid)
       (if status = BookingStatusPurchased
        then (\<lambda>b. b\<lparr>bStatus := status, bPurchasedAt := Some (tx_time env),
                     bUpdatedAt := tx_time env\<rparr>)
        else (\<lambda>b. b\<lparr>bStatus := status, bUpdatedAt := tx_time env\<rparr>))) d)) d"

end
