(* ===== verification/Booking_Inv.thy ===== *)
theory Booking_Inv
  imports Booking_Repo
begin

text \<open>
  The invariant of the booking tables and its preservation. A booking is active while it is
  reserved or purchased. The invariant says that active bookings and held seats correspond
  one to one, in the same state and with the same deadline, and that every event's
  \<open>available_seats\<close> is its \<open>total_seats\<close> less its active bookings. All four operations
  that change an existing booking are instances of one update, \<open>touch\<close>, whose
  preservation is proved once.
\<close>

section \<open>The invariant\<close>

definition active :: "Booking \<Rightarrow> bool" where
  "active b \<longleftrightarrow> bStatus b = BookingStatusReserved \<or> bStatus b = BookingStatusPurchased"

definition free :: "Seat \<Rightarrow> bool" where
  "free s \<longleftrightarrow> sStatus s = SeatStatusAvailable \<and> sReservedUntil s = None"

text \<open>The state a seat must be in for the booking that refers to it.\<close>

definition seat_fits :: "Booking \<Rightarrow> Seat \<Rightarrow> bool" where
  "seat_fits b s \<longleftrightarrow> (case bStatus b of
       BookingStatusReserved \<Rightarrow>
         sStatus s = SeatStatusReserved \<and> sReservedUntil s = Some (bExpiresAt b)
     | BookingStatusPurchased \<Rightarrow> sStatus s = SeatStatusSold
     | _ \<Rightarrow> free s)"

definition keys_ok :: "db \<Rightarrow> bool" where
  "keys_ok d \<longleftrightarrow> distinct (map bID (bookings d)) \<and> distinct (map sID (seats d)) \<and>
     distinct (map eID (events d)) \<and>
     distinct (map (\<lambda>s. (sEventID s, sSeatNumber s)) (seats d))"

definition refs_ok :: "db \<Rightarrow> bool" where
  "refs_ok d \<longleftrightarrow>
     (\<forall>b\<in>set (bookings d). \<exists>s\<in>set (seats d). sID s = bSeatID b \<and> sEventID s = bEventID b) \<and>
     (\<forall>s\<in>set (seats d). \<exists>e\<in>set (events d). eID e = sEventID s)"

definition one_per_seat :: "Booking list \<Rightarrow> bool" where
  "one_per_seat bs \<longleftrightarrow> (\<forall>b\<in>set bs. \<forall>b'\<in>set bs.
     active b \<and> active b' \<and> bSeatID b = bSeatID b' \<longrightarrow> bID b = bID b')"

definition unique_active :: "db \<Rightarrow> bool" where
  "unique_active d \<longleftrightarrow> one_per_seat (bookings d)"

definition seats_ok :: "db \<Rightarrow> bool" where
  "seats_ok d \<longleftrightarrow>
     (\<forall>b\<in>set (bookings d). active b \<longrightarrow>
        (\<forall>s\<in>set (seats d). sID s = bSeatID b \<longrightarrow> seat_fits b s)) \<and>
     (\<forall>s\<in>set (seats d).
        (\<forall>b\<in>set (bookings d). active b \<longrightarrow> bSeatID b \<noteq> sID s) \<longrightarrow> free s)"

definition active_on :: "uuid \<Rightarrow> Booking \<Rightarrow> bool" where
  "active_on ev b \<longleftrightarrow> active b \<and> bEventID b = ev"

definition event_ok :: "Booking list \<Rightarrow> Event \<Rightarrow> bool" where
  "event_ok bs e \<longleftrightarrow> eAvailableSeats e = eTotalSeats e - cnt (active_on (eID e)) bs \<and>
     min 0 (eTotalSeats e) \<le> eAvailableSeats e \<and> int4 (eTotalSeats e)"

definition counts_ok :: "db \<Rightarrow> bool" where
  "counts_ok d \<longleftrightarrow> (\<forall>e\<in>set (events d). event_ok (bookings d) e)"

definition db_inv :: "db \<Rightarrow> bool" where
  "db_inv d \<longleftrightarrow> keys_ok d \<and> refs_ok d \<and> unique_active d \<and> seats_ok d \<and> counts_ok d"

lemma db_invI [intro]:
  "keys_ok d \<Longrightarrow> refs_ok d \<Longrightarrow> unique_active d \<Longrightarrow> seats_ok d \<Longrightarrow> counts_ok d \<Longrightarrow> db_inv d"
  by (simp add: db_inv_def)

lemma db_invD:
  assumes "db_inv d"
  shows "keys_ok d" "refs_ok d" "unique_active d" "seats_ok d" "counts_ok d"
  using assms by (simp_all add: db_inv_def)

lemma keys_okD:
  assumes "db_inv d"
  shows "distinct (map bID (bookings d))" "distinct (map sID (seats d))"
    "distinct (map eID (events d))" "distinct (map (\<lambda>s. (sEventID s, sSeatNumber s)) (seats d))"
  using assms by (simp_all add: db_inv_def keys_ok_def)

lemma booking_seat:
  assumes "db_inv d" "b \<in> set (bookings d)"
  obtains s where "s \<in> set (seats d)" "sID s = bSeatID b" "sEventID s = bEventID b"
  using assms by (auto simp: db_inv_def refs_ok_def)

lemma booking_event:
  assumes "db_inv d" "b \<in> set (bookings d)"
  obtains e where "e \<in> set (events d)" "eID e = bEventID b"
  using assms booking_seat [OF assms] by (metis db_inv_def refs_ok_def)

lemma active_seat_fits:
  "db_inv d \<Longrightarrow> b \<in> set (bookings d) \<Longrightarrow> active b \<Longrightarrow> s \<in> set (seats d) \<Longrightarrow>
   sID s = bSeatID b \<Longrightarrow> seat_fits b s"
  by (auto simp: db_inv_def seats_ok_def)

lemma free_seat_unbooked:
  assumes "db_inv d" "s \<in> set (seats d)" "sStatus s = SeatStatusAvailable"
    "b \<in> set (bookings d)" "active b"
  shows "bSeatID b \<noteq> sID s"
  using active_seat_fits [OF assms(1,4,5,2)] assms(3,5)
  by (auto simp: seat_fits_def active_def)

lemma db_inv_empty: "db_inv empty_db"
  by (auto simp: empty_db_def keys_ok_def refs_ok_def unique_active_def one_per_seat_def seats_ok_def counts_ok_def event_ok_def)

section \<open>Changing one booking with its seat and its event\<close>

definition touch ::
  "Booking \<Rightarrow> (Booking \<Rightarrow> Booking) \<Rightarrow> (Seat \<Rightarrow> Seat) \<Rightarrow> (Event \<Rightarrow> Event) \<Rightarrow> db \<Rightarrow> db" where
  "touch b fb fs fe d =
     bookings_update (sql_update (\<lambda>x. bID x = bID b) fb)
     (seats_update (sql_update (\<lambda>x. sID x = bSeatID b) fs)
     (events_update (sql_update (\<lambda>x. eID x = bEventID b) fe) d))"

text \<open>The conditions on the three row functions under which the invariant is kept.\<close>

definition touch_ok ::
  "Booking \<Rightarrow> (Booking \<Rightarrow> Booking) \<Rightarrow> (Seat \<Rightarrow> Seat) \<Rightarrow> (Event \<Rightarrow> Event) \<Rightarrow> bool" where
  "touch_ok b fb fs fe \<longleftrightarrow>
     (\<forall>x. bID (fb x) = bID x \<and> bSeatID (fb x) = bSeatID x \<and> bEventID (fb x) = bEventID x) \<and>
     (\<forall>s. sID (fs s) = sID s \<and> sEventID (fs s) = sEventID s \<and> sSeatNumber (fs s) = sSeatNumber s) \<and>
     (\<forall>e. eID (fe e) = eID e \<and> eTotalSeats (fe e) = eTotalSeats e \<and>
        eAvailableSeats (fe e) = eAvailableSeats e + (if active (fb b) then 0 else 1)) \<and>
     (\<forall>s. seat_fits b s \<longrightarrow> seat_fits (fb b) (fs s))"

definition touching ::
  "db \<Rightarrow> Booking \<Rightarrow> (Booking \<Rightarrow> Booking) \<Rightarrow> (Seat \<Rightarrow> Seat) \<Rightarrow> (Event \<Rightarrow> Event) \<Rightarrow> bool" where
  "touching d b fb fs fe \<longleftrightarrow>
     db_inv d \<and> b \<in> set (bookings d) \<and> active b \<and> touch_ok b fb fs fe"

lemma touch_tables [simp]:
  "bookings (touch b fb fs fe d) = sql_update (\<lambda>x. bID x = bID b) fb (bookings d)"
  "seats (touch b fb fs fe d) = sql_update (\<lambda>x. sID x = bSeatID b) fs (seats d)"
  "events (touch b fb fs fe d) = sql_update (\<lambda>x. eID x = bEventID b) fe (events d)"
  "users (touch b fb fs fe d) = users d" "venues (touch b fb fs fe d) = venues d"
  by (simp_all add: touch_def)

lemma touchingD:
  assumes "touching d b fb fs fe"
  shows "db_inv d" "b \<in> set (bookings d)" "active b" "touch_ok b fb fs fe"
  using assms by (simp_all add: touching_def)

lemma touch_okD:
  assumes "touch_ok b fb fs fe"
  shows "bID (fb x) = bID x" "bSeatID (fb x) = bSeatID x" "bEventID (fb x) = bEventID x"
    "sID (fs s) = sID s" "sEventID (fs s) = sEventID s" "sSeatNumber (fs s) = sSeatNumber s"
    "eID (fe e) = eID e" "eTotalSeats (fe e) = eTotalSeats e"
    "eAvailableSeats (fe e) = eAvailableSeats e + (if active (fb b) then 0 else 1)"
    "seat_fits b s \<Longrightarrow> seat_fits (fb b) (fs s)"
proof -
  note A = assms [unfolded touch_ok_def, THEN conjunct1]
  note B = assms [unfolded touch_ok_def, THEN conjunct2, THEN conjunct1]
  note C = assms [unfolded touch_ok_def, THEN conjunct2, THEN conjunct2, THEN conjunct1]
  note D = assms [unfolded touch_ok_def, THEN conjunct2, THEN conjunct2, THEN conjunct2]
  show "bID (fb x) = bID x" "bSeatID (fb x) = bSeatID x" "bEventID (fb x) = bEventID x"
    using A by blast+
  show "sID (fs s) = sID s" "sEventID (fs s) = sEventID s" "sSeatNumber (fs s) = sSeatNumber s"
    using B by blast+
  show "eID (fe e) = eID e" "eTotalSeats (fe e) = eTotalSeats e"
    "eAvailableSeats (fe e) = eAvailableSeats e + (if active (fb b) then 0 else 1)"
    using C by blast+
  show "seat_fits b s \<Longrightarrow> seat_fits (fb b) (fs s)" using D by blast
qed

lemma touch_same_booking:
  "touching d b fb fs fe \<Longrightarrow> x \<in> set (bookings d) \<Longrightarrow> bID x = bID b \<Longrightarrow> x = b"
  using key_inj [OF keys_okD(1)] touchingD(1,2) by metis

lemma touch_other_seat:
  "touching d b fb fs fe \<Longrightarrow> x \<in> set (bookings d) \<Longrightarrow> active x \<Longrightarrow> bID x \<noteq> bID b \<Longrightarrow>
   bSeatID x \<noteq> bSeatID b"
  using db_invD(3) [OF touchingD(1)] touchingD(2,3) unfolding unique_active_def one_per_seat_def by metis

lemma touch_keys:
  assumes "touching d b fb fs fe"
  shows "keys_ok (touch b fb fs fe d)"
proof -
  note t = touch_okD [OF touchingD(4) [OF assms]]
  have "map bID (bookings (touch b fb fs fe d)) = map bID (bookings d)"
    "map sID (seats (touch b fb fs fe d)) = map sID (seats d)"
    "map eID (events (touch b fb fs fe d)) = map eID (events d)"
    "map (\<lambda>s. (sEventID s, sSeatNumber s)) (seats (touch b fb fs fe d)) =
     map (\<lambda>s. (sEventID s, sSeatNumber s)) (seats d)"
    unfolding touch_tables by (intro map_sql_update; simp only: t)+
  then show ?thesis
    using db_invD(1) [OF touchingD(1) [OF assms]] by (simp only: keys_ok_def)
qed

lemma touch_refs:
  assumes "touching d b fb fs fe"
  shows "refs_ok (touch b fb fs fe d)"
proof -
  note t = touch_okD [OF touchingD(4) [OF assms]]
  note inv = touchingD(1) [OF assms]
  have B: "\<exists>s\<in>set (seats (touch b fb fs fe d)). sID s = bSeatID x \<and> sEventID s = bEventID x"
    if x: "x \<in> set (bookings d)" for x
  proof -
    obtain s where s: "s \<in> set (seats d)" "sID s = bSeatID x" "sEventID s = bEventID x"
      using booking_seat [OF inv x] .
    show ?thesis
      by (rule bexI [of _ "if sID s = bSeatID b then fs s else s"])
        (use s t in \<open>auto simp: set_sql_update\<close>)
  qed
  have S: "\<exists>e\<in>set (events (touch b fb fs fe d)). eID e = sEventID s"
    if s: "s \<in> set (seats d)" for s
  proof -
    obtain e where e: "e \<in> set (events d)" "eID e = sEventID s"
      using db_invD(2) [OF inv] s by (auto simp: refs_ok_def)
    show ?thesis
      by (rule bexI [of _ "if eID e = bEventID b then fe e else e"])
        (use e t in \<open>auto simp: set_sql_update\<close>)
  qed
  show ?thesis
    unfolding refs_ok_def
  proof (intro conjI ballI)
    fix y assume "y \<in> set (bookings (touch b fb fs fe d))"
    then obtain x where x: "x \<in> set (bookings d)" "y = (if bID x = bID b then fb x else x)"
      unfolding touch_tables set_sql_update by blast
    then have "bSeatID y = bSeatID x" "bEventID y = bEventID x" by (simp_all add: t)
    with B [OF x(1)] show
      "\<exists>s\<in>set (seats (touch b fb fs fe d)). sID s = bSeatID y \<and> sEventID s = bEventID y"
      by simp
  next
    fix y assume "y \<in> set (seats (touch b fb fs fe d))"
    then obtain s where s: "s \<in> set (seats d)" "y = (if sID s = bSeatID b then fs s else s)"
      unfolding touch_tables set_sql_update by blast
    then have "sEventID y = sEventID s" by (simp add: t)
    with S [OF s(1)] show "\<exists>e\<in>set (events (touch b fb fs fe d)). eID e = sEventID y" by simp
  qed
qed

lemma touch_unique:
  assumes "touching d b fb fs fe"
  shows "unique_active (touch b fb fs fe d)"
proof -
  note t = touch_okD [OF touchingD(4) [OF assms]]
  have u: "bID x = bID y" if "x \<in> set (bookings d)" "y \<in> set (bookings d)" "active x"
    "active y" "bSeatID x = bSeatID y" for x y
    using db_invD(3) [OF touchingD(1) [OF assms]] that unfolding unique_active_def one_per_seat_def by blast
  have a: "active x" if "x \<in> set (bookings d)" "active (if bID x = bID b then fb x else x)" for x
    using that touch_same_booking [OF assms that(1)] touchingD(3) [OF assms]
    by (auto split: if_splits)
  show ?thesis
    unfolding unique_active_def one_per_seat_def touch_tables set_sql_update
  proof (intro ballI impI; elim imageE conjE; hypsubst)
    fix x y
    assume x: "active (if bID x = bID b then fb x else x)" "x \<in> set (bookings d)"
      and y: "active (if bID y = bID b then fb y else y)" "y \<in> set (bookings d)"
      and e: "bSeatID (if bID x = bID b then fb x else x) =
        bSeatID (if bID y = bID b then fb y else y)"
    from e have "bSeatID x = bSeatID y" by (simp add: t(2) split: if_splits)
    then have "bID x = bID y" by (rule u [OF x(2) y(2) a [OF x(2,1)] a [OF y(2,1)]])
    then show "bID (if bID x = bID b then fb x else x) = bID (if bID y = bID b then fb y else y)"
      by (simp add: t(1))
  qed
qed

lemma touch_seats_fit:
  assumes t: "touching d b fb fs fe"
    and x: "x \<in> set (bookings d)" and s: "s \<in> set (seats d)"
    and act: "active (if bID x = bID b then fb x else x)" and eq: "sID s = bSeatID x"
  shows "seat_fits (if bID x = bID b then fb x else x) (if sID s = bSeatID b then fs s else s)"
proof (cases "bID x = bID b")
  case True
  then have "x = b" using touch_same_booking [OF t x] by blast
  with active_seat_fits [OF touchingD(1-3) [OF t] s] eq True touch_okD(10) [OF touchingD(4) [OF t]]
  show ?thesis by simp
next
  case False
  with act have "active x" by simp
  with False touch_other_seat [OF t x] eq have "sID s \<noteq> bSeatID b" by metis
  with False active_seat_fits [OF touchingD(1) [OF t] x \<open>active x\<close> s eq] show ?thesis by simp
qed

lemma touch_seats_free:
  assumes t: "touching d b fb fs fe" and s: "s \<in> set (seats d)"
    and none: "\<And>x. x \<in> set (bookings d) \<Longrightarrow> active (if bID x = bID b then fb x else x) \<Longrightarrow>
      bSeatID x \<noteq> sID s"
  shows "free (if sID s = bSeatID b then fs s else s)"
proof (cases "sID s = bSeatID b")
  case True
  with none [OF touchingD(2) [OF t]] have n: "\<not> active (fb b)" by auto
  have "seat_fits (fb b) (fs s)"
    using active_seat_fits [OF touchingD(1-3) [OF t] s True] touch_okD(10) [OF touchingD(4) [OF t]]
    by simp
  with n True show ?thesis
    by (auto simp: seat_fits_def active_def split: BookingStatus.splits)
next
  case False
  have "bSeatID x \<noteq> sID s" if x: "x \<in> set (bookings d)" and a: "active x" for x
  proof (cases "bID x = bID b")
    case True
    with touch_same_booking [OF t x] False show ?thesis by metis
  next
    case False
    with none [OF x] a show ?thesis by simp
  qed
  with s db_invD(4) [OF touchingD(1) [OF t]] False show ?thesis by (auto simp: seats_ok_def)
qed

lemma touch_seats:
  assumes t: "touching d b fb fs fe"
  shows "seats_ok (touch b fb fs fe d)"
proof -
  note k = touch_okD(1-6) [OF touchingD(4) [OF t]]
  have bk: "bSeatID (if bID x = bID b then fb x else x) = bSeatID x" for x using k by simp
  have sk: "sID (if sID s = bSeatID b then fs s else s) = sID s" for s using k by simp
  show ?thesis
    unfolding seats_ok_def touch_tables set_sql_update ball_simps bk sk
  proof (intro conjI ballI impI)
    fix x s assume "x \<in> set (bookings d)" "active (if bID x = bID b then fb x else x)"
      "s \<in> set (seats d)" "sID s = bSeatID x"
    then show "seat_fits (if bID x = bID b then fb x else x) (if sID s = bSeatID b then fs s else s)"
      by (intro touch_seats_fit [OF t])
  next
    fix s assume s: "s \<in> set (seats d)" and
      "\<forall>x\<in>set (bookings d). active (if bID x = bID b then fb x else x) \<longrightarrow> bSeatID x \<noteq> sID s"
    then show "free (if sID s = bSeatID b then fs s else s)"
      by (intro touch_seats_free [OF t s]) blast
  qed
qed

lemma touch_counts:
  assumes t: "touching d b fb fs fe"
  shows "counts_ok (touch b fb fs fe d)"
proof -
  note k = touch_okD(1-3,7-9) [OF touchingD(4) [OF t]]
  have c: "cnt (active_on ev) (bookings (touch b fb fs fe d)) =
      cnt (active_on ev) (bookings d) - (if ev = bEventID b \<and> \<not> active (fb b) then 1 else 0)" for ev
    unfolding touch_tables
    using cnt_sql_update_key [OF keys_okD(1) [OF touchingD(1) [OF t]] touchingD(2) [OF t] refl,
        of "active_on ev" fb] touchingD(3) [OF t]
    by (auto simp: active_on_def k)
  show ?thesis
    unfolding counts_ok_def event_ok_def
  proof
    fix e' assume "e' \<in> set (events (touch b fb fs fe d))"
    then obtain e where e: "e \<in> set (events d)" "e' = (if eID e = bEventID b then fe e else e)"
      unfolding touch_tables set_sql_update by blast
    have "eAvailableSeats e = eTotalSeats e - cnt (active_on (eID e)) (bookings d)"
      "min 0 (eTotalSeats e) \<le> eAvailableSeats e" "int4 (eTotalSeats e)"
      using db_invD(5) [OF touchingD(1) [OF t]] e(1) by (auto simp: counts_ok_def event_ok_def)
    then show "eAvailableSeats e' = eTotalSeats e' -
         cnt (active_on (eID e')) (bookings (touch b fb fs fe d)) \<and>
       min 0 (eTotalSeats e') \<le> eAvailableSeats e' \<and> int4 (eTotalSeats e')"
      unfolding c e(2) by (auto simp: k)
  qed
qed

lemma touch_inv: "touching d b fb fs fe \<Longrightarrow> db_inv (touch b fb fs fe d)"
  by (intro db_invI touch_keys touch_refs touch_unique touch_seats touch_counts)

end
