(* ===== verification/Booking_Laws.thy ===== *)
theory Booking_Laws
  imports Booking_Inv
begin

text \<open>
  What every operation of the booking repository does to the database when it succeeds, in a
  closed form, and that each keeps the invariant. The closed forms (\<open>..._Inr\<close>) are the
  facts the later theories use instead of the definitions.
\<close>

section \<open>The four row changes\<close>

definition purchase_row :: "time \<Rightarrow> Booking \<Rightarrow> Booking" where
  "purchase_row ts b = b\<lparr>bStatus := BookingStatusPurchased, bPurchasedAt := Some ts,
     bUpdatedAt := ts\<rparr>"

definition revert_row :: "time \<Rightarrow> Booking \<Rightarrow> Booking" where
  "revert_row ts b = b\<lparr>bStatus := BookingStatusCancelled, bPurchasedAt := None,
     bPaymentIntentID := None, bUpdatedAt := ts\<rparr>"

definition extend_row :: "time \<Rightarrow> time \<Rightarrow> Booking \<Rightarrow> Booking" where
  "extend_row ts until b = b\<lparr>bExpiresAt := until, bUpdatedAt := ts\<rparr>"

definition release_row :: "time \<Rightarrow> BookingStatus \<Rightarrow> Booking \<Rightarrow> Booking" where
  "release_row ts st b = b\<lparr>bStatus := st, bUpdatedAt := ts\<rparr>"

definition hold_seat :: "time \<Rightarrow> Seat \<Rightarrow> Seat" where
  "hold_seat until s = s\<lparr>sReservedUntil := Some until\<rparr>"

definition give_back :: "time \<Rightarrow> Event \<Rightarrow> Event" where
  "give_back ts e = e\<lparr>eAvailableSeats := eAvailableSeats e + 1, eUpdatedAt := ts\<rparr>"

lemmas row_defs = purchase_row_def revert_row_def extend_row_def release_row_def hold_seat_def
  give_back_def free_seat_def sell_seat_def

lemma touch_ok_purchase:
  "bStatus b = BookingStatusReserved \<Longrightarrow> touch_ok b (purchase_row ts) sell_seat (\<lambda>e. e)"
  by (simp add: touch_ok_def row_defs active_def seat_fits_def)

lemma touch_ok_revert:
  "bStatus b = BookingStatusPurchased \<Longrightarrow> touch_ok b (revert_row ts) free_seat (give_back ts)"
  by (simp add: touch_ok_def row_defs active_def seat_fits_def free_def)

lemma touch_ok_extend:
  "bStatus b = BookingStatusReserved \<Longrightarrow>
   touch_ok b (extend_row ts until) (hold_seat until) (\<lambda>e. e)"
  by (simp add: touch_ok_def row_defs active_def seat_fits_def)

lemma touch_ok_release:
  "bStatus b = BookingStatusReserved \<Longrightarrow>
   st = BookingStatusExpired \<or> st = BookingStatusCancelled \<Longrightarrow>
   touch_ok b (release_row ts st) free_seat (give_back ts)"
  by (auto simp: touch_ok_def row_defs active_def seat_fits_def free_def)

section \<open>Closed forms of the operations that change a booking\<close>

lemma sql_update_id [simp]: "sql_update p (\<lambda>x. x) t = t"
  by (simp add: sql_update_def)

lemma findBooking_Inr:
  assumes "findBookingForUpdateTx env k d bid = Inr b"
  obtains row where "row \<in> set (bookings d)" "bID row = bid" "b = scan_booking row"
    "fault env k = None"
  using assms by (auto simp: findBookingForUpdateTx_def ebind_Inr_iff dest!: query_row_Inr)

lemma increment_available_Inr:
  "increment_available env k ev d = Inr d' \<Longrightarrow>
   d' = events_update (sql_update (\<lambda>e. eID e = ev) (give_back (tx_time env))) d"
  by (auto simp: increment_available_def ebind_Inr_iff give_back_def [abs_def] split: if_splits)

lemma booking_update_touch:
  assumes inv: "db_inv d" and b: "b \<in> set (bookings d)" and q: "q b"
  shows "sql_update (\<lambda>x. bID x = bID b \<and> q x) f (bookings d) =
         sql_update (\<lambda>x. bID x = bID b) f (bookings d)"
  using sql_update_key_and [OF keys_okD(1) [OF inv] b refl, of q] q by simp

lemma seat_update_touch:
  assumes inv: "db_inv d" and b: "b \<in> set (bookings d)"
    and q: "\<And>s. s \<in> set (seats d) \<Longrightarrow> sID s = bSeatID b \<Longrightarrow> q s"
  shows "sql_update (\<lambda>s. sID s = bSeatID b \<and> q s) f (seats d) =
         sql_update (\<lambda>s. sID s = bSeatID b) f (seats d)"
proof -
  obtain s where s: "s \<in> set (seats d)" "sID s = bSeatID b" using booking_seat [OF inv b] .
  show ?thesis
    using sql_update_key_and [where key = sID and q = q, OF keys_okD(2) [OF inv] s q [OF s]] .
qed

lemma completePurchaseTx_Inr:
  assumes inv: "db_inv d" and r: "completePurchaseTx env bid d = Inr (b', d')"
  obtains (already) b where "b \<in> set (bookings d)" "bID b = bid"
      "bStatus b = BookingStatusPurchased" "d' = d" "b' = scan_booking b"
  | (completed) b where "b \<in> set (bookings d)" "bID b = bid"
      "bStatus b = BookingStatusReserved" "clock env 0 \<le> bExpiresAt b" "tx_time env < bExpiresAt b"
      "d' = touch b (purchase_row (tx_time env)) sell_seat (\<lambda>e. e) d"
      "b' = purchase_row (tx_time env) (scan_booking b)"
proof -
  from r [unfolded completePurchaseTx_def] obtain b where
    f: "findBookingForUpdateTx env (Stmt 1) d bid = Inr b" by (auto simp: ebind_Inr_iff)
  from findBooking_Inr [OF f] obtain row where
    row: "row \<in> set (bookings d)" "bID row = bid" and b: "b = scan_booking row" by metis
  show thesis
  proof (cases "bStatus row = BookingStatusPurchased")
    case True
    with r [unfolded completePurchaseTx_def] f b have "d' = d" "b' = b" by simp_all
    with already [OF row True] b show thesis by simp
  next
    case False
    let ?p = "\<lambda>x. bID x = bid \<and> bStatus x = BookingStatusReserved \<and> tx_time env < bExpiresAt x"
    from r [unfolded completePurchaseTx_def] f b False obtain row' where
      g: "bStatus row = BookingStatusReserved" "clock env 0 \<le> bExpiresAt row"
      and row': "query_row (sql_select ?p (bookings d)) = Inr row'"
      and b': "b' = purchase_row (tx_time env) b"
      and d': "d' = seats_update (sql_update (\<lambda>s. sID s = bSeatID row) sell_seat)
         (bookings_update (sql_update ?p (purchase_row (tx_time env))) d)"
      by (auto simp: ebind_Inr_iff Let_def purchase_row_def purchase_row_def [abs_def])
    from query_row_Inr [OF row'] row have "row' = row"
      using key_inj [OF keys_okD(1) [OF inv]] by blast
    with query_row_Inr [OF row'] have ts: "tx_time env < bExpiresAt row" by simp
    have "sql_update ?p f (bookings d) = sql_update (\<lambda>x. bID x = bID row) f (bookings d)" for f
      using booking_update_touch [OF inv row(1), of "\<lambda>x. bStatus x = BookingStatusReserved \<and>
        tx_time env < bExpiresAt x"] g(1) ts row(2) by simp
    with d' have "d' = touch row (purchase_row (tx_time env)) sell_seat (\<lambda>e. e) d"
      by (simp add: touch_def)
    with completed [OF row g ts] b' b show thesis by simp
  qed
qed

lemma revertFailedPurchaseTx_Inr:
  assumes inv: "db_inv d" and r: "revertFailedPurchaseTx env bid d = Inr (b', d')"
  obtains b where "b \<in> set (bookings d)" "bID b = bid" "bStatus b = BookingStatusPurchased"
    "d' = touch b (revert_row (tx_time env)) free_seat (give_back (tx_time env)) d"
    "b' = (scan_booking b)\<lparr>bStatus := BookingStatusCancelled, bPurchasedAt := None,
       bPaymentIntentID := None\<rparr>"
proof -
  from r [unfolded revertFailedPurchaseTx_def] obtain b where
    f: "findBookingForUpdateTx env (Stmt 1) d bid = Inr b" by (auto simp: ebind_Inr_iff)
  from findBooking_Inr [OF f] obtain row where
    row: "row \<in> set (bookings d)" "bID row = bid" and b: "b = scan_booking row" by metis
  let ?p = "\<lambda>x. bID x = bid \<and> bStatus x = BookingStatusPurchased"
  from r [unfolded revertFailedPurchaseTx_def] f b obtain d2 where
    g: "bStatus row = BookingStatusPurchased"
    and d2: "increment_available env (Stmt 4) (bEventID row)
       (seats_update (sql_update
          (\<lambda>s. sID s = bSeatID row \<and> sStatus s = SeatStatusSold) free_seat)
       (bookings_update (sql_update ?p (revert_row (tx_time env))) d)) = Inr d2"
    and b': "b' = b\<lparr>bStatus := BookingStatusCancelled, bPurchasedAt := None,
       bPaymentIntentID := None\<rparr>" and d': "d' = d2"
    by (auto simp: ebind_Inr_iff Let_def revert_row_def [abs_def])
  have "sStatus s = SeatStatusSold" if "s \<in> set (seats d)" "sID s = bSeatID row" for s
    using active_seat_fits [OF inv row(1) _ that] g by (simp add: active_def seat_fits_def)
  then have "d' = touch row (revert_row (tx_time env)) free_seat (give_back (tx_time env)) d"
    using increment_available_Inr [OF d2] d' row g
      booking_update_touch [OF inv row(1), of "\<lambda>x. bStatus x = BookingStatusPurchased"]
      seat_update_touch [OF inv row(1), of "\<lambda>s. sStatus s = SeatStatusSold"]
    by (simp add: touch_def)
  with that [OF row g] b' b show thesis by simp
qed

lemma releaseReservationTx_Inr:
  assumes inv: "db_inv d" and r: "releaseReservationTx env bid st req d = Inr (b', d')"
  obtains b where "b \<in> set (bookings d)" "bID b = bid" "bStatus b = BookingStatusReserved"
    "req \<Longrightarrow> bExpiresAt b \<le> clock env 0" "req \<Longrightarrow> bExpiresAt b \<le> tx_time env"
    "d' = touch b (release_row (tx_time env) st) free_seat (give_back (tx_time env)) d"
    "b' = (scan_booking b)\<lparr>bStatus := st\<rparr>"
proof -
  from r [unfolded releaseReservationTx_def] obtain b where
    f: "findBookingForUpdateTx env (Stmt 1) d bid = Inr b" by (auto simp: ebind_Inr_iff)
  from findBooking_Inr [OF f] obtain row where
    row: "row \<in> set (bookings d)" "bID row = bid" and b: "b = scan_booking row" by metis
  let ?p = "\<lambda>x. bID x = bid \<and> bStatus x = BookingStatusReserved \<and>
    (req \<longrightarrow> bExpiresAt x \<le> tx_time env)"
  from r [unfolded releaseReservationTx_def] f b obtain d2 where
    g: "bStatus row = BookingStatusReserved" "req \<longrightarrow> bExpiresAt row \<le> clock env 0"
    and n: "rows_affected ?p (bookings d) \<noteq> 0"
    and d2: "increment_available env (Stmt 4) (bEventID row)
       (seats_update (sql_update (\<lambda>s. sID s = bSeatID row) free_seat)
       (bookings_update (sql_update ?p (release_row (tx_time env) st)) d)) = Inr d2"
    and b': "b' = b\<lparr>bStatus := st\<rparr>" and d': "d' = d2"
    by (auto simp: ebind_Inr_iff Let_def release_row_def [abs_def] not_less)
  from n obtain row' where "row' \<in> set (bookings d)" "?p row'" by (auto simp: rows_affected_0)
  with row have e: "req \<longrightarrow> bExpiresAt row \<le> tx_time env"
    using key_inj [OF keys_okD(1) [OF inv]] by metis
  have "d' = touch row (release_row (tx_time env) st) free_seat (give_back (tx_time env)) d"
    using increment_available_Inr [OF d2] d' row g e
      booking_update_touch [OF inv row(1), of "\<lambda>x. bStatus x = BookingStatusReserved \<and>
        (req \<longrightarrow> bExpiresAt x \<le> tx_time env)"]
    by (simp add: touch_def)
  with that [OF row g(1)] g(2) e b' b show thesis by simp
qed

lemma extendReservationTx_Inr:
  assumes inv: "db_inv d" and r: "extendReservationTx env bid until d = Inr (b', d')"
  obtains b where "b \<in> set (bookings d)" "bID b = bid" "bStatus b = BookingStatusReserved"
    "clock env 1 \<le> bExpiresAt b" "tx_time env < bExpiresAt b"
    "d' = touch b (extend_row (tx_time env) (max (bExpiresAt b) until))
       (hold_seat (max (bExpiresAt b) until)) (\<lambda>e. e) d"
    "b' = (scan_booking b)\<lparr>bExpiresAt := max (bExpiresAt b) until\<rparr>"
proof -
  note rr = r [unfolded extendReservationTx_def]
  from rr obtain b where
    f: "findBookingForUpdateTx env (Stmt 1) d bid = Inr b" by (auto simp: ebind_Inr_iff)
  from findBooking_Inr [OF f] obtain row where
    row: "row \<in> set (bookings d)" "bID row = bid" and b: "b = scan_booking row" by metis
  define new where "new = (if bExpiresAt row < until then until else bExpiresAt row)"
  have new: "new = max (bExpiresAt row) until" by (simp add: new_def max_def)
  let ?p = "\<lambda>x. bID x = bid \<and> bStatus x = BookingStatusReserved \<and> tx_time env < bExpiresAt x"
  let ?q = "\<lambda>s. sID s = bSeatID row \<and> sStatus s = SeatStatusReserved"
  from rr f b have g: "bStatus row = BookingStatusReserved" "clock env 1 \<le> bExpiresAt row"
    and n: "rows_affected ?p (bookings d) \<noteq> 0"
    and b': "b' = b\<lparr>bExpiresAt := new\<rparr>"
    and d': "d' = seats_update (sql_update ?q (hold_seat new))
         (bookings_update (sql_update ?p (extend_row (tx_time env) new)) d)"
    by (auto simp: ebind_Inr_iff Let_def extend_row_def [abs_def] hold_seat_def [abs_def] new_def)
  from n obtain row' where "row' \<in> set (bookings d)" "?p row'" by (auto simp: rows_affected_0)
  with row have ts: "tx_time env < bExpiresAt row"
    using key_inj [OF keys_okD(1) [OF inv]] by metis
  have "sStatus s = SeatStatusReserved" if "s \<in> set (seats d)" "sID s = bSeatID row" for s
    using active_seat_fits [OF inv row(1) _ that] g by (simp add: active_def seat_fits_def)
  then have "d' = touch row (extend_row (tx_time env) new) (hold_seat new) (\<lambda>e. e) d"
    using d' row g ts
      booking_update_touch [OF inv row(1), of "\<lambda>x. bStatus x = BookingStatusReserved \<and>
        tx_time env < bExpiresAt x"]
      seat_update_touch [OF inv row(1), of "\<lambda>s. sStatus s = SeatStatusReserved"]
    by (simp add: touch_def)
  with that [OF row g(1,2) ts] b' b new show thesis by simp
qed

section \<open>Closed form of a reservation\<close>

definition reserve_row :: "time \<Rightarrow> time \<Rightarrow> Seat \<Rightarrow> Seat" where
  "reserve_row ts until s = s\<lparr>sStatus := SeatStatusReserved, sReservedAt := Some ts,
     sReservedUntil := Some until\<rparr>"

definition take_away :: "time \<Rightarrow> Event \<Rightarrow> Event" where
  "take_away ts e = e\<lparr>eAvailableSeats := eAvailableSeats e - 1, eUpdatedAt := ts\<rparr>"

definition reserve_db :: "time \<Rightarrow> Booking \<Rightarrow> db \<Rightarrow> db" where
  "reserve_db ts b d =
     bookings_update (sql_insert b)
     (seats_update (sql_update (\<lambda>s. sID s = bSeatID b) (reserve_row ts (bExpiresAt b)))
     (events_update (sql_update (\<lambda>e. eID e = bEventID b) (take_away ts)) d))"

lemma reserve_tables [simp]:
  "bookings (reserve_db ts b d) = bookings d @ [b]"
  "seats (reserve_db ts b d) =
     sql_update (\<lambda>s. sID s = bSeatID b) (reserve_row ts (bExpiresAt b)) (seats d)"
  "events (reserve_db ts b d) = sql_update (\<lambda>e. eID e = bEventID b) (take_away ts) (events d)"
  "users (reserve_db ts b d) = users d" "venues (reserve_db ts b d) = venues d"
  by (simp_all add: reserve_db_def sql_insert_def)

lemma lock_seat_Inr:
  "lock_seat env k d p = Inr s \<Longrightarrow> \<exists>row. row \<in> set (seats d) \<and> p row \<and> s = scan_seat row"
  by (auto simp: lock_seat_def ebind_def dest: query_row_Inr split: sum.splits if_splits)

text \<open>The booking a successful reservation creates.\<close>

definition new_booking :: "tenv \<Rightarrow> uuid \<Rightarrow> uuid \<Rightarrow> uuid \<Rightarrow> int \<Rightarrow> time \<Rightarrow> Booking" where
  "new_booking env userID eventID seatID price expiresAt =
     \<lparr>bID = new_uuid env 0, bUserID = userID, bEventID = eventID, bSeatID = seatID,
      bStatus = BookingStatusReserved, bTotalAmount = price, bReservedAt = clock env 2,
      bPurchasedAt = None, bPaymentIntentID = None, bExpiresAt = expiresAt,
      bCreatedAt = clock env 2, bUpdatedAt = clock env 2\<rparr>"

lemma createReservationTx_Inr:
  assumes inv: "db_inv d" and r: "createReservationTx env u ev num until d = Inr (b, d')"
  obtains e s where "e \<in> set (events d)" "eID e = ev" "0 < eAvailableSeats e"
    "s \<in> set (seats d)" "sEventID s = ev" "sSeatNumber s = num"
    "sStatus s = SeatStatusAvailable" "new_uuid env 0 \<notin> bID ` set (bookings d)"
    "u \<in> uID ` set (users d)" "b = new_booking env u ev (sID s) (eTicketPrice e) until"
    "d' = reserve_db (tx_time env) b d"
proof -
  let ?p = "\<lambda>e. eID e = ev \<and> 0 < eAvailableSeats e"
  define d1 where "d1 = events_update (sql_update ?p (take_away (tx_time env))) d"
  note rr = r [unfolded createReservationTx_def]
  from rr obtain e seat d2 where
    e: "query_row (sql_select ?p (events d)) = Inr e"
    and s: "reserveSeatTx env d1 ev num until = Inr (seat, d2)"
    and ins: "insert_booking (new_booking env u ev (sID seat) (eTicketPrice e) until) d2 = Inr d'"
    and b: "b = new_booking env u ev (sID seat) (eTicketPrice e) until"
    by (auto simp: ebind_Inr_iff Let_def d1_def take_away_def [abs_def] new_booking_def ebind_def
        split: sum.splits if_splits)
  from query_row_Inr [OF e] have e': "e \<in> set (events d)" "eID e = ev" "0 < eAvailableSeats e"
    by auto
  from s obtain seat0 where
    l: "lock_seat env (Stmt 3) d1 (\<lambda>s. sEventID s = ev \<and> sSeatNumber s = num) = Inr seat0"
    and av: "sStatus seat0 = SeatStatusAvailable" and id0: "sID seat = sID seat0"
    and d2: "d2 = seats_update (sql_update (\<lambda>s. sID s = sID seat0)
       (reserve_row (tx_time env) until)) d1"
    by (auto simp: reserveSeatTx_def ebind_Inr_iff reserve_row_def [abs_def])
  from lock_seat_Inr [OF l] obtain row where
    row: "row \<in> set (seats d)" "sEventID row = ev" "sSeatNumber row = num" "seat0 = scan_seat row"
    by (auto simp: d1_def)
  have ev: "sql_update ?p f (events d) = sql_update (\<lambda>e. eID e = ev) f (events d)" for f
    using sql_update_key_and [where key = eID, OF keys_okD(3) [OF inv] e'(1,2), of "\<lambda>e. 0 < eAvailableSeats e"]
      e'(3) by simp
  have "d' = reserve_db (tx_time env) b d"
    using ins b id0 row d2 ev
    by (simp add: insert_Inr_iff reserve_db_def d1_def new_booking_def)
  moreover have "new_uuid env 0 \<notin> bID ` set (bookings d)" "u \<in> uID ` set (users d)"
    using ins d2 by (auto simp: insert_Inr_iff d1_def new_booking_def)
  ultimately show thesis
    using that [OF e' row(1-3)] av row(4) b id0 by simp
qed

section \<open>A reservation keeps the invariant\<close>

lemma reserve_inv:
  assumes inv: "db_inv d"
    and e: "e \<in> set (events d)" "eID e = bEventID b" "0 < eAvailableSeats e"
    and s: "s \<in> set (seats d)" "sID s = bSeatID b" "sEventID s = bEventID b"
      "sStatus s = SeatStatusAvailable"
    and b: "bID b \<notin> bID ` set (bookings d)" "bStatus b = BookingStatusReserved"
  shows "db_inv (reserve_db ts b d)"
proof
  have act: "active b" using b(2) by (simp add: active_def)
  have unb: "bSeatID x \<noteq> bSeatID b" if "x \<in> set (bookings d)" "active x" for x
    using free_seat_unbooked [OF inv s(1,4) that] s(2) by simp
  have same: "s' = s" if "s' \<in> set (seats d)" "sID s' = bSeatID b" for s'
    using key_inj [OF keys_okD(2) [OF inv] that(1) s(1)] that s(2) by simp
  show "keys_ok (reserve_db ts b d)"
    using keys_okD [OF inv] b(1)
    by (simp add: keys_ok_def map_sql_update reserve_row_def take_away_def)
  show "refs_ok (reserve_db ts b d)"
  proof -
    have R: "\<exists>s\<in>set (seats (reserve_db ts b d)). sID s = sID s' \<and> sEventID s = sEventID s'"
      if "s' \<in> set (seats d)" for s'
      by (rule bexI [of _ "if sID s' = bSeatID b then reserve_row ts (bExpiresAt b) s' else s'"])
        (use that in \<open>auto simp: set_sql_update reserve_row_def\<close>)
    have E: "\<exists>e\<in>set (events (reserve_db ts b d)). eID e = eID e'" if "e' \<in> set (events d)" for e'
      by (rule bexI [of _ "if eID e' = bEventID b then take_away ts e' else e'"])
        (use that in \<open>auto simp: set_sql_update take_away_def\<close>)
    show ?thesis
      unfolding refs_ok_def
    proof (intro conjI ballI)
      fix x assume "x \<in> set (bookings (reserve_db ts b d))"
      then obtain s' where "s' \<in> set (seats d)" "sID s' = bSeatID x" "sEventID s' = bEventID x"
        using booking_seat [OF inv, of x] s by auto
      with R [of s'] show "\<exists>s\<in>set (seats (reserve_db ts b d)). sID s = bSeatID x \<and>
          sEventID s = bEventID x" by simp
    next
      fix y assume "y \<in> set (seats (reserve_db ts b d))"
      then obtain s' where s': "s' \<in> set (seats d)" "sEventID y = sEventID s'"
        by (auto simp: set_sql_update reserve_row_def)
      then obtain e' where "e' \<in> set (events d)" "eID e' = sEventID s'"
        using db_invD(2) [OF inv] by (auto simp: refs_ok_def)
      with E [of e'] s' show "\<exists>e\<in>set (events (reserve_db ts b d)). eID e = sEventID y" by simp
    qed
  qed
  show "unique_active (reserve_db ts b d)"
  proof -
    have "bID x = bID y" if "x \<in> set (bookings d)" "y \<in> set (bookings d)" "active x" "active y"
      "bSeatID x = bSeatID y" for x y
      using db_invD(3) [OF inv] that unfolding unique_active_def one_per_seat_def by blast
    note old = this
    show ?thesis
      unfolding unique_active_def one_per_seat_def
    proof (intro ballI impI, elim conjE)
      fix x y assume x: "x \<in> set (bookings (reserve_db ts b d))" "active x"
        and y: "y \<in> set (bookings (reserve_db ts b d))" "active y" and eq: "bSeatID x = bSeatID y"
      from x(1) y(1) consider "x = b" "y = b" | "x = b" "y \<in> set (bookings d)"
        | "x \<in> set (bookings d)" "y = b" | "x \<in> set (bookings d)" "y \<in> set (bookings d)"
        by auto
      then show "bID x = bID y"
      proof cases
        case 2 with unb [OF 2(2) y(2)] eq show ?thesis by simp
      next
        case 3 with unb [OF 3(1) x(2)] eq show ?thesis by simp
      next
        case 4 with old x(2) y(2) eq show ?thesis by blast
      qed simp
    qed
  qed
  show "seats_ok (reserve_db ts b d)"
    unfolding seats_ok_def
  proof (intro conjI ballI impI)
    fix x y assume x: "x \<in> set (bookings (reserve_db ts b d))" "active x"
      and y: "y \<in> set (seats (reserve_db ts b d))" "sID y = bSeatID x"
    from y(1) obtain s' where s': "s' \<in> set (seats d)" "sID s' = sID y"
      "y = (if sID s' = bSeatID b then reserve_row ts (bExpiresAt b) s' else s')"
      by (auto simp: set_sql_update reserve_row_def)
    show "seat_fits x y"
    proof (cases "x = b")
      case True
      with s' y(2) b(2) show ?thesis by (simp add: seat_fits_def reserve_row_def)
    next
      case False
      with x have x': "x \<in> set (bookings d)" by simp
      with unb x(2) y(2) s' have "y = s'" by metis
      with active_seat_fits [OF inv x' x(2) s'(1)] y(2) show ?thesis by simp
    qed
  next
    fix y assume y: "y \<in> set (seats (reserve_db ts b d))"
      and none: "\<forall>x\<in>set (bookings (reserve_db ts b d)). active x \<longrightarrow> bSeatID x \<noteq> sID y"
    from none act have "bSeatID b \<noteq> sID y" by simp
    with y have "y \<in> set (seats d)" by (auto simp: set_sql_update reserve_row_def split: if_splits)
    with none db_invD(4) [OF inv] show "free y" by (auto simp: seats_ok_def)
  qed
  show "counts_ok (reserve_db ts b d)"
    unfolding counts_ok_def event_ok_def
  proof
    fix y assume "y \<in> set (events (reserve_db ts b d))"
    then obtain x where x: "x \<in> set (events d)"
      "y = (if eID x = bEventID b then take_away ts x else x)"
      by (auto simp: set_sql_update)
    have "eID x = bEventID b \<Longrightarrow> x = e"
      using key_inj [OF keys_okD(3) [OF inv] x(1) e(1)] e(2) by simp
    with x db_invD(5) [OF inv] e(3) act show
      "eAvailableSeats y = eTotalSeats y - cnt (active_on (eID y)) (bookings (reserve_db ts b d)) \<and>
       min 0 (eTotalSeats y) \<le> eAvailableSeats y \<and> int4 (eTotalSeats y)"
      by (auto simp: counts_ok_def event_ok_def take_away_def active_on_def)
  qed
qed

end
