(* ===== verification/Go_Strings.thy ===== *)
theory Go_Strings
  imports Prelude
begin

text \<open>
  The parts of Go's strings, strconv and fmt the program uses, on byte strings: decimal
  printing and parsing of integers, splitting at a character, trimming and case mapping of
  ASCII text, truncating division, and the text of an error.
\<close>

section \<open>Integers\<close>

text \<open>Go's \<open>/\<close> and \<open>%\<close> truncate towards zero.\<close>

definition go_div :: "int \<Rightarrow> int \<Rightarrow> int" where
  "go_div a b = sgn a * sgn b * (\<bar>a\<bar> div \<bar>b\<bar>)"

definition go_mod :: "int \<Rightarrow> int \<Rightarrow> int" where
  "go_mod a b = a - b * go_div a b"

lemma go_div_nonneg: "0 \<le> a \<Longrightarrow> 0 < b \<Longrightarrow> go_div a b = a div b"
  by (cases "a = 0") (simp_all add: go_div_def)

lemma go_mod_nonneg: "0 \<le> a \<Longrightarrow> 0 < b \<Longrightarrow> go_mod a b = a mod b"
  by (simp add: go_mod_def go_div_nonneg minus_mult_div_eq_mod)

definition digit :: "nat \<Rightarrow> char" where
  "digit n = char_of (48 + n)"

definition is_digit :: "char \<Rightarrow> bool" where
  "is_digit c \<longleftrightarrow> 48 \<le> (of_char c :: nat) \<and> (of_char c :: nat) \<le> 57"

definition digit_value :: "char \<Rightarrow> nat" where
  "digit_value c = of_char c - 48"

lemma digit_facts: "n < 10 \<Longrightarrow> is_digit (digit n) \<and> digit_value (digit n) = n"
  by (simp add: is_digit_def digit_value_def digit_def)

fun Itoa_nat :: "nat \<Rightarrow> string" where
  "Itoa_nat n = (if n < 10 then [digit n] else Itoa_nat (n div 10) @ [digit (n mod 10)])"

declare Itoa_nat.simps [simp del]

definition Itoa :: "int \<Rightarrow> string" where
  "Itoa n = (if n < 0 then CHR ''-'' # Itoa_nat (nat (- n)) else Itoa_nat (nat n))"

definition parse_digits :: "string \<Rightarrow> nat option" where
  "parse_digits s = (if s \<noteq> [] \<and> list_all is_digit s
     then Some (foldl (\<lambda>a c. 10 * a + digit_value c) 0 s) else None)"

text \<open>\<open>strconv.ParseInt(s, 10, 64)\<close>, and \<open>strconv.Atoi\<close> on a 64-bit platform.\<close>

definition int64 :: "int \<Rightarrow> bool" where
  "int64 n \<longleftrightarrow> - (2 ^ 63) \<le> n \<and> n < 2 ^ 63"

definition ParseInt :: "string \<Rightarrow> int option" where
  "ParseInt s =
     (let v = (case s of
          [] \<Rightarrow> None
        | c # cs \<Rightarrow>
            if c = CHR ''-'' then map_option (\<lambda>n. - int n) (parse_digits cs)
            else if c = CHR ''+'' then map_option int (parse_digits cs)
            else map_option int (parse_digits (c # cs)))
      in case v of None \<Rightarrow> None | Some n \<Rightarrow> if int64 n then Some n else None)"

text \<open>Arithmetic on \<open>int64\<close> and \<open>time.Duration\<close> wraps around.\<close>

definition wrap64 :: "int \<Rightarrow> int" where
  "wrap64 n = (n + 2 ^ 63) mod 2 ^ 64 - 2 ^ 63"

lemma wrap64_id: "int64 n \<Longrightarrow> wrap64 n = n"
  by (simp add: wrap64_def int64_def)

lemma Itoa_nat_digits: "list_all is_digit (Itoa_nat n) \<and> Itoa_nat n \<noteq> []"
proof (induction n rule: Itoa_nat.induct)
  case (1 n)
  then show ?case by (subst (1 2) Itoa_nat.simps) (simp add: digit_facts)
qed

lemma Itoa_nat_value: "foldl (\<lambda>a c. 10 * a + digit_value c) 0 (Itoa_nat n) = n"
proof (induction n rule: Itoa_nat.induct)
  case (1 n)
  then show ?case by (subst Itoa_nat.simps) (simp add: digit_facts)
qed

lemma parse_Itoa_nat: "parse_digits (Itoa_nat n) = Some n"
  by (simp add: parse_digits_def Itoa_nat_digits Itoa_nat_value)

lemma Itoa_nat_inj: "Itoa_nat m = Itoa_nat n \<Longrightarrow> m = n"
  by (metis Itoa_nat_value)

lemma Itoa_nat_chars: "c \<in> set (Itoa_nat n) \<Longrightarrow> is_digit c"
  using Itoa_nat_digits [of n] by (simp add: list_all_iff)

lemma ParseInt_Itoa:
  assumes "int64 n" shows "ParseInt (Itoa n) = Some n"
proof -
  obtain c cs where c: "Itoa_nat (nat n) = c # cs"
    using Itoa_nat_digits [of "nat n"] by (cases "Itoa_nat (nat n)") auto
  then have "is_digit c" using Itoa_nat_digits [of "nat n"] by simp
  then have "c \<noteq> CHR ''-''" "c \<noteq> CHR ''+''" by (auto simp: is_digit_def)
  moreover have "parse_digits (c # cs) = Some (nat n)"
    using parse_Itoa_nat [of "nat n"] c by simp
  ultimately show ?thesis
    using assms c by (cases "n < 0") (auto simp: ParseInt_def Itoa_def parse_Itoa_nat Let_def)
qed

section \<open>Strings\<close>

text \<open>\<open>strings.Split\<close> with a one-character separator.\<close>

fun Split :: "string \<Rightarrow> char \<Rightarrow> string list" where
  "Split [] sep = [[]]"
| "Split (c # cs) sep =
     (if c = sep then [] # Split cs sep
      else (case Split cs sep of [] \<Rightarrow> [[c]] | w # ws \<Rightarrow> (c # w) # ws))"

lemma Split_nonempty: "Split s sep \<noteq> []"
  by (induction s) (auto split: list.splits)

lemma Split_none: "sep \<notin> set s \<Longrightarrow> Split s sep = [s]"
  by (induction s) auto

lemma Split_append: "sep \<notin> set s \<Longrightarrow> Split (s @ sep # t) sep = s # Split t sep"
  by (induction s) auto

definition is_space :: "char \<Rightarrow> bool" where
  "is_space c \<longleftrightarrow> (of_char c :: nat) \<in> {9, 10, 11, 12, 13, 32}"

definition TrimSpace :: "string \<Rightarrow> string" where
  "TrimSpace s = rev (dropWhile is_space (rev (dropWhile is_space s)))"

definition upper :: "char \<Rightarrow> char" where
  "upper c = (let n = (of_char c :: nat) in if 97 \<le> n \<and> n \<le> 122 then char_of (n - 32) else c)"

definition ToUpper :: "string \<Rightarrow> string" where
  "ToUpper s = map upper s"

definition lower :: "char \<Rightarrow> char" where
  "lower c = (let n = (of_char c :: nat) in if 65 \<le> n \<and> n \<le> 90 then char_of (n + 32) else c)"

definition ToLower :: "string \<Rightarrow> string" where
  "ToLower s = map lower s"

fun HasPrefix :: "string \<Rightarrow> string \<Rightarrow> bool" where
  "HasPrefix s [] \<longleftrightarrow> True"
| "HasPrefix [] (p # ps) \<longleftrightarrow> False"
| "HasPrefix (c # cs) (p # ps) \<longleftrightarrow> c = p \<and> HasPrefix cs ps"

fun Contains :: "string \<Rightarrow> string \<Rightarrow> bool" where
  "Contains [] t \<longleftrightarrow> t = []"
| "Contains (c # cs) t \<longleftrightarrow> HasPrefix (c # cs) t \<or> Contains cs t"

definition TrimPrefix :: "string \<Rightarrow> string \<Rightarrow> string" where
  "TrimPrefix s p = (if HasPrefix s p then drop (length p) s else s)"

lemma append_sep_inj:
  "c \<notin> set xs \<Longrightarrow> c \<notin> set xs' \<Longrightarrow> xs @ c # ys = xs' @ c # ys' \<Longrightarrow> xs = xs' \<and> ys = ys'"
proof (induction xs arbitrary: xs')
  case Nil then show ?case by (cases xs') auto
next
  case (Cons x xs) then show ?case by (cases xs') auto
qed

section \<open>Error texts\<close>

text \<open>The \<open>Error()\<close> method: the text given where each sentinel is declared.\<close>

fun err_Error :: "err \<Rightarrow> string" where
  "err_Error RepoErrBookingNotFound = ''booking not found''"
| "err_Error RepoErrNoAvailableSeats = ''no available seats''"
| "err_Error RepoErrBookingNotReserved = ''booking is not reserved''"
| "err_Error RepoErrBookingNotPurchased = ''booking is not purchased''"
| "err_Error RepoErrBookingExpired = ''booking has expired''"
| "err_Error RepoErrEventNotFound = ''event not found''"
| "err_Error RepoErrSeatNotFound = ''seat not found''"
| "err_Error RepoErrSeatNotAvailable = ''seat is not available''"
| "err_Error RepoErrSeatAlreadyBooked = ''seat is already booked''"
| "err_Error RepoErrUserNotFound = ''user not found''"
| "err_Error RepoErrUserExists = ''user already exists''"
| "err_Error RepoErrVenueNotFound = ''venue not found''"
| "err_Error SvcErrBookingNotFound = ''booking not found''"
| "err_Error SvcErrNoAvailableSeats = ''no available seats''"
| "err_Error SvcErrSeatBeingBooked = ''seat is currently being booked by another user''"
| "err_Error SvcErrSeatNotAvailable = ''seat is not available''"
| "err_Error SvcErrUnauthorized = ''unauthorized''"
| "err_Error SvcErrNotReserved = ''booking is not in reserved status''"
| "err_Error SvcErrBookingExpired = ''booking has expired''"
| "err_Error SvcErrOnlyReservedCancel = ''only reserved bookings can be cancelled''"
| "err_Error SvcErrNoSeatsRequested = ''no seats requested''"
| "err_Error SvcErrTooManySeats = ''maximum 500 seats per bulk request''"
| "err_Error SvcErrEventNotFound = ''event not found''"
| "err_Error SvcErrVenueNotFound = ''venue not found''"
| "err_Error SvcErrUserExists = ''user already exists''"
| "err_Error SvcErrInvalidCreds = ''invalid credentials''"
| "err_Error SvcErrAlreadyAdmin = ''user is already an admin''"
| "err_Error SvcErrAlreadyRegular = ''user is already a regular user''"
| "err_Error PayErrPaymentFailed = ''payment processing failed''"
| "err_Error PayErrPaymentDeclined = ''payment was declined''"
| "err_Error PayErrRefundFailed = ''refund processing failed''"
| "err_Error PayErrPaymentIntentMissing = ''payment intent is not prepared''"
| "err_Error QueueErrJobNotFound = ''job not found''"
| "err_Error QueueErrKafkaUnavailable = ''kafka queue not configured''"
| "err_Error SqlErrNoRows = ''sql: no rows in result set''"
| "err_Error (PqError c m) = ''pq: '' @ m"
| "err_Error (Foreign m) = m"
| "err_Error (Wrap m e) = m @ '': '' @ err_Error e"
| "err_Error (Suffixed e m) = err_Error e @ '': '' @ m"

end
