(* ===== verification/Catalog_Repo.thy ===== *)
theory Catalog_Repo
  imports Booking_Laws Go_Strings "HOL-Library.List_Lexorder" "HOL-Library.Char_ord"
begin

text \<open>
  The seat, event, user and venue repositories (internal/repository). Listings are ordered
  by the column the query names, strings by their bytes. Each table read that the code
  routes to the replica takes the replica's state as an argument.
\<close>

section \<open>seat_repository.go\<close>

definition formatSeatNumber :: "int \<Rightarrow> string" where
  "formatSeatNumber num =
     (let row = go_div (num - 1) 10 + 1; seat = go_mod (num - 1) 10 + 1
      in ''R'' @ Itoa row @ ''-S'' @ Itoa seat)"

definition seat_Create :: "tenv \<Rightarrow> db \<Rightarrow> Seat \<Rightarrow> Seat res \<times> db" where
  "seat_Create env d seat =
     (let s = seat\<lparr>sID := new_uuid env 0, sCreatedAt := clock env 0\<rparr>
      in auto_commit env (Stmt 1) (\<lambda>d.
           ebind (insert_seat (s\<lparr>sReservedAt := None, sReservedUntil := None\<rparr>) d)
             (\<lambda>d'. Inr (s, d'))) d)"

definition FindByEventAndSeatNumber :: "tenv \<Rightarrow> db \<Rightarrow> uuid \<Rightarrow> string \<Rightarrow> Seat res" where
  "FindByEventAndSeatNumber env d eventID seatNumber =
     ebind (no_rows_as RepoErrSeatNotFound (ebind (stmt env (Stmt 1)) (\<lambda>_.
       query_row (sql_select (\<lambda>s. sEventID s = eventID \<and> sSeatNumber s = seatNumber) (seats d)))))
       (\<lambda>row. Inr (scan_seat row))"

definition ReserveSeatWithLock ::
  "tenv \<Rightarrow> db \<Rightarrow> uuid \<Rightarrow> string \<Rightarrow> time \<Rightarrow> Seat res \<times> db" where
  "ReserveSeatWithLock env d eventID seatNumber reservedUntil =
     run_tx env (\<lambda>d. reserveSeatTx env d eventID seatNumber reservedUntil) d"

definition MarkAsSold :: "tenv \<Rightarrow> db \<Rightarrow> uuid \<Rightarrow> unit res \<times> db" where
  "MarkAsSold env d seatID = auto_commit env (Stmt 1) (\<lambda>d.
     Inr ((), seats_update (sql_update (\<lambda>s. sID s = seatID) sell_seat) d)) d"

definition ReleaseSeat :: "tenv \<Rightarrow> db \<Rightarrow> uuid \<Rightarrow> unit res \<times> db" where
  "ReleaseSeat env d seatID = auto_commit env (Stmt 1) (\<lambda>d.
     Inr ((), seats_update (sql_update (\<lambda>s. sID s = seatID) free_seat) d)) d"

text \<open>\<open>DBForSeatRead\<close> of internal/database/seat_read_routing.go.\<close>

definition DBForSeatRead :: "bool \<Rightarrow> db option \<Rightarrow> db \<Rightarrow> db" where
  "DBForSeatRead usePrimary ReadDB d = (if usePrimary then d else GetReadDB ReadDB d)"

fun seat_status_of :: "string \<Rightarrow> SeatStatus option" where
  "seat_status_of s =
     (if s = ''available'' then Some SeatStatusAvailable
      else if s = ''reserved'' then Some SeatStatusReserved
      else if s = ''sold'' then Some SeatStatusSold else None)"

definition seat_FindByEventID ::
  "tenv \<Rightarrow> bool \<Rightarrow> db option \<Rightarrow> db \<Rightarrow> uuid \<Rightarrow> string \<Rightarrow> Seat list res" where
  "seat_FindByEventID env usePrimary ReadDB d eventID status =
     (case stmt env (Stmt 1) of
        Inl e \<Rightarrow> Inl (Wrap ''query seats by event'' e)
      | Inr _ \<Rightarrow> Inr (map scan_seat (sort_key sSeatNumber
          (sql_select (\<lambda>s. sEventID s = eventID \<and>
             (status \<noteq> '''' \<longrightarrow> seat_status_of status = Some (sStatus s)))
           (seats (DBForSeatRead usePrimary ReadDB d))))))"

text \<open>The loop of \<open>CreateBulkSeats\<close>: \<open>n\<close> more seats starting with number \<open>i\<close>.\<close>

fun insert_seats :: "tenv \<Rightarrow> uuid \<Rightarrow> nat \<Rightarrow> nat \<Rightarrow> db \<Rightarrow> db res" where
  "insert_seats env eventID i 0 d = Inr d"
| "insert_seats env eventID i (Suc n) d =
     ebind (stmt env (Stmt i)) (\<lambda>_.
     ebind (insert_seat \<lparr>sID = new_uuid env i, sEventID = eventID,
       sSeatNumber = formatSeatNumber (int i), sRowNumber = None, sSection = None,
       sStatus = SeatStatusAvailable, sReservedAt = None, sReservedUntil = None,
       sCreatedAt = clock env i\<rparr> d)
     (insert_seats env eventID (Suc i) n))"

definition CreateBulkSeats :: "tenv \<Rightarrow> db \<Rightarrow> uuid \<Rightarrow> int \<Rightarrow> unit res \<times> db" where
  "CreateBulkSeats env d eventID totalSeats = run_tx env (\<lambda>d.
     ebind (stmt env (Stmt 0)) (\<lambda>_.
     ebind (insert_seats env eventID 1 (nat totalSeats) d) (\<lambda>d'. Inr ((), d')))) d"

section \<open>event_repository.go\<close>

definition event_Create :: "tenv \<Rightarrow> db \<Rightarrow> Event \<Rightarrow> Event res \<times> db" where
  "event_Create env d event =
     (let e = event\<lparr>eID := new_uuid env 0, eCreatedAt := clock env 0, eUpdatedAt := clock env 0,
                     eAvailableSeats := eTotalSeats event\<rparr>
      in auto_commit env (Stmt 1) (\<lambda>d. ebind (insert_event e d) (\<lambda>d'. Inr (e, d'))) d)"

definition event_FindByID :: "tenv \<Rightarrow> db option \<Rightarrow> db \<Rightarrow> uuid \<Rightarrow> Event res" where
  "event_FindByID env ReadDB d eid =
     no_rows_as RepoErrEventNotFound (ebind (stmt env (Stmt 1)) (\<lambda>_.
       query_row (sql_select (\<lambda>e. eID e = eid) (events (GetReadDB ReadDB d)))))"

definition event_ListAll :: "tenv \<Rightarrow> db option \<Rightarrow> db \<Rightarrow> Event list res" where
  "event_ListAll env ReadDB d = ebind (stmt env (Stmt 1)) (\<lambda>_.
     Inr (sort_key eEventDate (events (GetReadDB ReadDB d))))"

definition DecrementAvailableSeats :: "tenv \<Rightarrow> db \<Rightarrow> uuid \<Rightarrow> unit res \<times> db" where
  "DecrementAvailableSeats env d eventID =
     auto_commit env (Stmt 1) (\<lambda>d.
       let p = (\<lambda>e. eID e = eventID \<and> 0 < eAvailableSeats e) in
       if rows_affected p (events d) = 0 then Inl (Foreign ''no available seats'')
       else Inr ((), events_update (sql_update p (\<lambda>e. e\<lparr>eAvailableSeats := eAvailableSeats e - 1,
              eUpdatedAt := tx_time env\<rparr>)) d)) d"

definition IncrementAvailableSeats :: "tenv \<Rightarrow> db \<Rightarrow> uuid \<Rightarrow> unit res \<times> db" where
  "IncrementAvailableSeats env d eventID =
     auto_commit env (Stmt 1) (\<lambda>d.
       if list_ex (\<lambda>e. eID e = eventID \<and> \<not> int4 (eAvailableSeats e + 1)) (events d)
       then Inl out_of_range
       else Inr ((), events_update (sql_update (\<lambda>e. eID e = eventID)
              (\<lambda>e. e\<lparr>eAvailableSeats := eAvailableSeats e + 1, eUpdatedAt := tx_time env\<rparr>)) d)) d"

section \<open>user_repository.go\<close>

definition user_Create :: "tenv \<Rightarrow> db \<Rightarrow> User \<Rightarrow> User res \<times> db" where
  "user_Create env d user =
     (let u = user\<lparr>uID := new_uuid env 0, uCreatedAt := clock env 0, uUpdatedAt := clock env 0\<rparr>
      in case auto_commit env (Stmt 1) (\<lambda>d. ebind (insert_user u d) (\<lambda>d'. Inr (u, d'))) d of
           (Inl e, d') \<Rightarrow> (Inl (if Contains (err_Error e) ''violates unique constraint''
              then RepoErrUserExists else Wrap ''create user'' e), d')
         | (Inr u', d') \<Rightarrow> (Inr u', d'))"

text \<open>Both lookups map \<open>sql.ErrNoRows\<close> (tested with \<open>errors.Is\<close>) and wrap anything else.\<close>

definition user_lookup :: "string \<Rightarrow> User res \<Rightarrow> User res" where
  "user_lookup msg r = (case r of
       Inl e \<Rightarrow> Inl (if errors_Is e SqlErrNoRows then RepoErrUserNotFound else Wrap msg e)
     | Inr u \<Rightarrow> Inr u)"

definition user_FindByEmail :: "tenv \<Rightarrow> db \<Rightarrow> string \<Rightarrow> User res" where
  "user_FindByEmail env d email = user_lookup ''find user by email''
     (ebind (stmt env (Stmt 1)) (\<lambda>_. query_row (sql_select (\<lambda>u. uEmail u = email) (users d))))"

definition user_FindByID :: "tenv \<Rightarrow> db \<Rightarrow> uuid \<Rightarrow> User res" where
  "user_FindByID env d uid = user_lookup ''find user by id''
     (ebind (stmt env (Stmt 1)) (\<lambda>_. query_row (sql_select (\<lambda>u. uID u = uid) (users d))))"

definition UpdateRole :: "tenv \<Rightarrow> db \<Rightarrow> uuid \<Rightarrow> UserRole \<Rightarrow> unit res \<times> db" where
  "UpdateRole env d userID role =
     (case auto_commit env (Stmt 2) (\<lambda>d. Inr (rows_affected (\<lambda>u. uID u = userID) (users d),
        users_update (sql_update (\<lambda>u. uID u = userID)
          (\<lambda>u. u\<lparr>uRole := role, uUpdatedAt := tx_time env\<rparr>)) d)) d of
        (Inl e, d') \<Rightarrow> (Inl (Wrap ''update user role'' e), d')
      | (Inr n, d') \<Rightarrow> (case stmt env (RowsAffected 2) of
            Inl e \<Rightarrow> (Inl (Wrap ''get rows affected'' e), d')
          | Inr _ \<Rightarrow> (if n = 0 then Inl RepoErrUserNotFound else Inr (), d')))"

definition repo_ListUsers :: "tenv \<Rightarrow> db option \<Rightarrow> db \<Rightarrow> User list res" where
  "repo_ListUsers env ReadDB d = (case stmt env (Stmt 1) of
       Inl e \<Rightarrow> Inl (Wrap ''list users query'' e)
     | Inr _ \<Rightarrow> Inr (sort_key (\<lambda>u. - uCreatedAt u) (users (GetReadDB ReadDB d))))"

section \<open>venue_repository.go\<close>

definition venue_Create :: "tenv \<Rightarrow> db \<Rightarrow> Venue \<Rightarrow> Venue res \<times> db" where
  "venue_Create env d venue =
     (let v = venue\<lparr>vID := new_uuid env 0, vCreatedAt := clock env 0, vUpdatedAt := clock env 0\<rparr>
      in auto_commit env (Stmt 1) (\<lambda>d. ebind (insert_venue v d) (\<lambda>d'. Inr (v, d'))) d)"

definition venue_FindByID :: "tenv \<Rightarrow> db option \<Rightarrow> db \<Rightarrow> uuid \<Rightarrow> Venue res" where
  "venue_FindByID env ReadDB d vid =
     no_rows_as RepoErrVenueNotFound (ebind (stmt env (Stmt 1)) (\<lambda>_.
       query_row (sql_select (\<lambda>v. vID v = vid) (venues (GetReadDB ReadDB d)))))"

definition venue_ListAll :: "tenv \<Rightarrow> db option \<Rightarrow> db \<Rightarrow> Venue list res" where
  "venue_ListAll env ReadDB d = ebind (stmt env (Stmt 1)) (\<lambda>_.
     Inr (sort_key (\<lambda>v. - vCreatedAt v) (venues (GetReadDB ReadDB d))))"

section \<open>Seat numbers are distinct\<close>

lemma Itoa_not_dash: "0 \<le> n \<Longrightarrow> CHR ''-'' \<notin> set (Itoa n)"
  using Itoa_nat_chars by (fastforce simp: Itoa_def is_digit_def)

lemma Itoa_inj: "0 \<le> m \<Longrightarrow> 0 \<le> n \<Longrightarrow> Itoa m = Itoa n \<Longrightarrow> m = n"
  using Itoa_nat_inj [of "nat m" "nat n"] by (simp add: Itoa_def eq_nat_nat_iff)

lemma formatSeatNumber_inj:
  assumes "1 \<le> m" "1 \<le> n" "formatSeatNumber m = formatSeatNumber n"
  shows "m = n"
proof -
  let ?row = "\<lambda>k. (k - 1) div 10 + 1" and ?seat = "\<lambda>k. (k - 1) mod 10 + 1"
  have f: "formatSeatNumber k = CHR ''R'' # Itoa (?row k) @ CHR ''-'' # CHR ''S'' # Itoa (?seat k)"
    if "1 \<le> k" for k :: int
    using that by (simp add: formatSeatNumber_def Let_def go_div_nonneg go_mod_nonneg)
  have pos: "0 \<le> ?row k" "0 \<le> ?seat k" if "1 \<le> k" for k :: int
    using that by (simp_all add: pos_imp_zdiv_nonneg_iff add_increasing2)
  from assms(3) have "Itoa (?row m) @ CHR ''-'' # CHR ''S'' # Itoa (?seat m) =
      Itoa (?row n) @ CHR ''-'' # CHR ''S'' # Itoa (?seat n)"
    using f [OF assms(1)] f [OF assms(2)] by simp
  from append_sep_inj [OF Itoa_not_dash Itoa_not_dash this] pos [OF assms(1)] pos [OF assms(2)]
  have "Itoa (?row m) = Itoa (?row n)" "Itoa (?seat m) = Itoa (?seat n)" by simp_all
  then have "?row m = ?row n" "?seat m = ?seat n"
    using Itoa_inj pos [OF assms(1)] pos [OF assms(2)] by blast+
  then show ?thesis by (metis add_right_cancel diff_add_cancel div_mult_mod_eq)
qed

end
