(* ===== verification/Transactions.thy ===== *)
theory Transactions
  imports Catalog_Repo
begin

text \<open>
  The database as a whole: every transaction the running program commits is a value of
  \<open>txop\<close>, executed by \<open>exec_tx\<close>. Arbitrary lists of them, with arbitrary clocks, faults
  and busy locks, are the histories of the database; the theorems here hold in all of them.
\<close>

section \<open>The transactions of the program\<close>

datatype txop =
    TxReserve tenv uuid uuid string time
  | TxPurchase tenv uuid
  | TxRevert tenv uuid
  | TxExtend tenv uuid time
  | TxExpire tenv uuid
  | TxCancel tenv uuid
  | TxSetPaymentIntent tenv uuid string
  | TxCreateUser tenv User
  | TxUpdateRole tenv uuid UserRole
  | TxCreateVenue tenv Venue
  | TxCreateEvent tenv Event
  | TxCreateSeats tenv uuid int

fun exec_tx :: "txop \<Rightarrow> db \<Rightarrow> db" where
  "exec_tx (TxReserve env u ev num until) d = snd (CreateReservation env d u ev num until)"
| "exec_tx (TxPurchase env bid) d = snd (CompletePurchase env d bid)"
| "exec_tx (TxRevert env bid) d = snd (RevertFailedPurchase env d bid)"
| "exec_tx (TxExtend env bid until) d = snd (ExtendReservation env d bid until)"
| "exec_tx (TxExpire env bid) d = snd (ReleaseExpiredReservation env d bid)"
| "exec_tx (TxCancel env bid) d = snd (CancelReservation env d bid)"
| "exec_tx (TxSetPaymentIntent env bid i) d = snd (SetPaymentIntentID env d bid i)"
| "exec_tx (TxCreateUser env u) d = snd (user_Create env d u)"
| "exec_tx (TxUpdateRole env uid r) d = snd (UpdateRole env d uid r)"
| "exec_tx (TxCreateVenue env v) d = snd (venue_Create env d v)"
| "exec_tx (TxCreateEvent env e) d = snd (event_Create env d e)"
| "exec_tx (TxCreateSeats env ev n) d = snd (CreateBulkSeats env d ev n)"

section \<open>Effects: what a transaction can do to the database\<close>

text \<open>
  A transaction leaves the database as it was or has one of these effects. Every later
  fact about transactions is a case analysis over this relation.
\<close>

inductive effect :: "db \<Rightarrow> db \<Rightarrow> bool" where
  same: "effect d d"
| reserve: "e \<in> set (events d) \<Longrightarrow> eID e = bEventID b \<Longrightarrow> 0 < eAvailableSeats e \<Longrightarrow>
    s \<in> set (seats d) \<Longrightarrow> sID s = bSeatID b \<Longrightarrow> sEventID s = bEventID b \<Longrightarrow>
    sStatus s = SeatStatusAvailable \<Longrightarrow> bID b \<notin> bID ` set (bookings d) \<Longrightarrow>
    bStatus b = BookingStatusReserved \<Longrightarrow> bPurchasedAt b = None \<Longrightarrow>
    bUserID b \<in> uID ` set (users d) \<Longrightarrow> effect d (reserve_db ts b d)"
| purchase: "b \<in> set (bookings d) \<Longrightarrow> bStatus b = BookingStatusReserved \<Longrightarrow> ts < bExpiresAt b \<Longrightarrow>
    effect d (touch b (purchase_row ts) sell_seat (\<lambda>e. e) d)"
| revert: "b \<in> set (bookings d) \<Longrightarrow> bStatus b = BookingStatusPurchased \<Longrightarrow>
    effect d (touch b (revert_row ts) free_seat (give_back ts) d)"
| extend: "b \<in> set (bookings d) \<Longrightarrow> bStatus b = BookingStatusReserved \<Longrightarrow>
    bExpiresAt b \<le> until \<Longrightarrow>
    effect d (touch b (extend_row ts until) (hold_seat until) (\<lambda>e. e) d)"
| expire: "b \<in> set (bookings d) \<Longrightarrow> bStatus b = BookingStatusReserved \<Longrightarrow> bExpiresAt b \<le> ts \<Longrightarrow>
    effect d (touch b (release_row ts BookingStatusExpired) free_seat (give_back ts) d)"
| cancel: "b \<in> set (bookings d) \<Longrightarrow> bStatus b = BookingStatusReserved \<Longrightarrow>
    effect d (touch b (release_row ts BookingStatusCancelled) free_seat (give_back ts) d)"
| set_intent: "effect d (bookings_update (sql_update
      (\<lambda>b. bID b = bid \<and> (bStatus b = BookingStatusReserved \<or> bStatus b = BookingStatusPurchased) \<and>
           (bPaymentIntentID b = None \<or> bPaymentIntentID b = Some ''''))
      (\<lambda>b. b\<lparr>bPaymentIntentID := Some i, bUpdatedAt := ts\<rparr>)) d)"
| add_user: "uID u \<notin> uID ` set (users d) \<Longrightarrow> uEmail u \<notin> uEmail ` set (users d) \<Longrightarrow>
    effect d (users_update (sql_insert u) d)"
| set_role: "effect d (users_update (sql_update (\<lambda>u. uID u = uid)
      (\<lambda>u. u\<lparr>uRole := role, uUpdatedAt := ts\<rparr>)) d)"
| add_venue: "vID v \<notin> vID ` set (venues d) \<Longrightarrow> int4 (vCapacity v) \<Longrightarrow>
    effect d (venues_update (sql_insert v) d)"
| add_event: "eID e \<notin> eID ` set (events d) \<Longrightarrow> eAvailableSeats e = eTotalSeats e \<Longrightarrow>
    int4 (eTotalSeats e) \<Longrightarrow> eVenueID e \<in> vID ` set (venues d) \<Longrightarrow>
    eCreatedBy e \<in> uID ` set (users d) \<Longrightarrow>
    effect d (events_update (sql_insert e) d)"
| add_seat: "sID s \<notin> sID ` set (seats d) \<Longrightarrow>
    (sEventID s, sSeatNumber s) \<notin> (\<lambda>r. (sEventID r, sSeatNumber r)) ` set (seats d) \<Longrightarrow>
    sEventID s \<in> eID ` set (events d) \<Longrightarrow> sStatus s = SeatStatusAvailable \<Longrightarrow>
    sReservedUntil s = None \<Longrightarrow> effect d (seats_update (sql_insert s) d)"

lemma effect_touch_inv:
  assumes "db_inv d" "b \<in> set (bookings d)" "active b" "touch_ok b fb fs fe"
  shows "db_inv (touch b fb fs fe d)"
  by (rule touch_inv) (simp add: touching_def assms)

lemma set_intent_inv:
  assumes inv: "db_inv d"
    and f: "\<And>b. f b = (if p b then b\<lparr>bPaymentIntentID := i, bUpdatedAt := ts\<rparr> else b)"
  shows "db_inv (bookings_update (map f) d)"
proof -
  have f': "bID (f b) = bID b" "bSeatID (f b) = bSeatID b" "bEventID (f b) = bEventID b"
    "bStatus (f b) = bStatus b" "bExpiresAt (f b) = bExpiresAt b" for b
    by (simp_all add: f)
  have a: "active (f b) = active b" "active_on ev (f b) = active_on ev b"
    "seat_fits (f b) s = seat_fits b s" for b s ev
    by (simp_all add: active_def active_on_def seat_fits_def f' cong: BookingStatus.case_cong)
  have m: "map bID (map f bs) = map bID bs" for bs by (simp add: f')
  have c: "cnt (active_on ev) (map f bs) = cnt (active_on ev) bs" for ev bs
    by (simp add: cnt_map comp_def a)
  show ?thesis
  proof
    show "keys_ok (bookings_update (map f) d)"
      using db_invD(1) [OF inv] m by (simp add: keys_ok_def comp_def f')
    show "refs_ok (bookings_update (map f) d)"
      using db_invD(2) [OF inv] by (simp add: refs_ok_def f')
    show "unique_active (bookings_update (map f) d)"
    proof -
      have "one_per_seat (map f bs) = one_per_seat bs" for bs
        by (simp only: one_per_seat_def set_map ball_simps f' a)
      then show ?thesis using db_invD(3) [OF inv] by (simp add: unique_active_def)
    qed
    show "seats_ok (bookings_update (map f) d)"
      using db_invD(4) [OF inv] by (simp add: seats_ok_def f' a)
    show "counts_ok (bookings_update (map f) d)"
    proof -
      have "event_ok (map f bs) e = event_ok bs e" for bs e
        by (simp only: event_ok_def c)
      then show ?thesis using db_invD(5) [OF inv] by (simp add: counts_ok_def)
    qed
  qed
qed

lemma add_seat_inv:
  assumes inv: "db_inv d" and s: "sID s \<notin> sID ` set (seats d)"
    "(sEventID s, sSeatNumber s) \<notin> (\<lambda>r. (sEventID r, sSeatNumber r)) ` set (seats d)"
    "sEventID s \<in> eID ` set (events d)" "sStatus s = SeatStatusAvailable" "sReservedUntil s = None"
  shows "db_inv (seats_update (sql_insert s) d)"
proof -
  have fresh: "bSeatID b \<noteq> sID s" if "b \<in> set (bookings d)" for b
    using booking_seat [OF inv that] s(1) by (metis imageI)
  show ?thesis
  proof
    show "keys_ok (seats_update (sql_insert s) d)"
      using keys_okD [OF inv] s(1,2) by (simp add: keys_ok_def sql_insert_def)
    show "refs_ok (seats_update (sql_insert s) d)"
      using db_invD(2) [OF inv] s(3) by (auto simp: refs_ok_def sql_insert_def)
    show "unique_active (seats_update (sql_insert s) d)"
      using db_invD(3) [OF inv] by (simp add: unique_active_def)
    show "seats_ok (seats_update (sql_insert s) d)"
      using db_invD(4) [OF inv] fresh s(4,5)
      unfolding seats_ok_def by (simp add: sql_insert_def ball_Un free_def [of s]) metis
    show "counts_ok (seats_update (sql_insert s) d)"
      using db_invD(5) [OF inv] by (simp add: counts_ok_def)
  qed
qed

lemma add_event_inv:
  assumes inv: "db_inv d" and e: "eID e \<notin> eID ` set (events d)"
    "eAvailableSeats e = eTotalSeats e" "int4 (eTotalSeats e)"
  shows "db_inv (events_update (sql_insert e) d)"
proof -
  have "bEventID b \<noteq> eID e" if "b \<in> set (bookings d)" for b
    using booking_event [OF inv that] e(1) by (metis imageI)
  then have z: "cnt (active_on (eID e)) (bookings d) = 0"
    by (auto simp: cnt_def filter_empty_conv active_on_def)
  show ?thesis
  proof
    show "keys_ok (events_update (sql_insert e) d)"
      using keys_okD [OF inv] e(1) by (simp add: keys_ok_def sql_insert_def)
    show "refs_ok (events_update (sql_insert e) d)"
      using db_invD(2) [OF inv] by (auto simp: refs_ok_def sql_insert_def)
    show "unique_active (events_update (sql_insert e) d)"
      using db_invD(3) [OF inv] by (simp add: unique_active_def)
    show "seats_ok (events_update (sql_insert e) d)"
      using db_invD(4) [OF inv] by (simp add: seats_ok_def)
    show "counts_ok (events_update (sql_insert e) d)"
      using db_invD(5) [OF inv] z e(2,3) by (simp add: counts_ok_def sql_insert_def event_ok_def [of _ e])
  qed
qed

lemma frame_inv:
  "db_inv d \<Longrightarrow> db_inv (users_update f d)" "db_inv d \<Longrightarrow> db_inv (venues_update g d)"
  by (simp_all add: db_inv_def keys_ok_def refs_ok_def unique_active_def seats_ok_def counts_ok_def)

lemma effect_inv: "effect d d' \<Longrightarrow> db_inv d \<Longrightarrow> db_inv d'"
proof (induction rule: effect.induct)
  case (reserve e d b s ts)
  then show ?case by (intro reserve_inv)
next
  case (set_intent d bid i ts)
  then show ?case unfolding sql_update_def by (rule set_intent_inv) simp
qed (auto intro!: effect_touch_inv touch_ok_purchase touch_ok_revert touch_ok_extend
      touch_ok_release add_seat_inv add_event_inv frame_inv simp: active_def)

section \<open>Every transaction has such an effect\<close>

lemma effect_step: "effect d d' \<Longrightarrow> effect\<^sup>*\<^sup>* d d'"
  by (rule r_into_rtranclp)

lemma effects_inv: "effect\<^sup>*\<^sup>* d d' \<Longrightarrow> db_inv d \<Longrightarrow> db_inv d'"
  by (induction rule: rtranclp_induct) (auto intro: effect_inv)

lemma insert_seats_effect: "insert_seats env ev i n d = Inr d' \<Longrightarrow> effect\<^sup>*\<^sup>* d d'"
proof (induction n arbitrary: i d)
  case 0
  then show ?case by simp
next
  case (Suc n)
  then obtain d1 s where "insert_seat s d = Inr d1" "sStatus s = SeatStatusAvailable"
    "sReservedUntil s = None" and rest: "insert_seats env ev (Suc i) n d1 = Inr d'"
    by (auto simp: ebind_Inr_iff)
  then have "effect d d1" by (auto simp: insert_Inr_iff intro: effect.add_seat)
  then show ?case using Suc.IH [OF rest] by (rule converse_rtranclp_into_rtranclp)
qed

lemma booking_tx_effect:
  assumes inv: "db_inv d"
  shows "effect\<^sup>*\<^sup>* d (snd (CreateReservation env d u ev num until))"
    "effect\<^sup>*\<^sup>* d (snd (CompletePurchase env d bid))"
    "effect\<^sup>*\<^sup>* d (snd (RevertFailedPurchase env d bid))"
    "effect\<^sup>*\<^sup>* d (snd (ExtendReservation env d bid until))"
    "effect\<^sup>*\<^sup>* d (snd (ReleaseExpiredReservation env d bid))"
    "effect\<^sup>*\<^sup>* d (snd (CancelReservation env d bid))"
proof -
  note tx = run_tx_inv [where P = "effect\<^sup>*\<^sup>* d", OF rtranclp.rtrancl_refl]
  show "effect\<^sup>*\<^sup>* d (snd (CreateReservation env d u ev num until))"
    unfolding CreateReservation_def
  proof (rule tx)
    fix x d' assume "createReservationTx env u ev num until d = Inr (x, d')"
    then show "effect\<^sup>*\<^sup>* d d'"
    proof (rule createReservationTx_Inr [OF inv])
      fix e s assume *: "e \<in> set (events d)" "eID e = ev" "0 < eAvailableSeats e"
        "s \<in> set (seats d)" "sEventID s = ev" "sSeatNumber s = num"
        "sStatus s = SeatStatusAvailable" "new_uuid env 0 \<notin> bID ` set (bookings d)"
        "u \<in> uID ` set (users d)" "x = new_booking env u ev (sID s) (eTicketPrice e) until"
        "d' = reserve_db (tx_time env) x d"
      show ?thesis unfolding *(11)
        by (rule effect_step, rule effect.reserve [of e _ _ s])
          (use * in \<open>simp_all add: new_booking_def\<close>)
    qed
  qed
  show "effect\<^sup>*\<^sup>* d (snd (CompletePurchase env d bid))"
    unfolding CompletePurchase_def
    by (rule tx, erule completePurchaseTx_Inr [OF inv]) (auto intro: effect_step effect.purchase)
  show "effect\<^sup>*\<^sup>* d (snd (RevertFailedPurchase env d bid))"
    unfolding RevertFailedPurchase_def
    by (rule tx, erule revertFailedPurchaseTx_Inr [OF inv]) (auto intro: effect_step effect.revert)
  show "effect\<^sup>*\<^sup>* d (snd (ExtendReservation env d bid until))"
    unfolding ExtendReservation_def
    by (simp, intro impI, rule tx, erule extendReservationTx_Inr [OF inv])
      (auto intro!: effect_step effect.extend)
  show "effect\<^sup>*\<^sup>* d (snd (ReleaseExpiredReservation env d bid))"
    unfolding ReleaseExpiredReservation_def releaseReservation_def
    by (rule tx, erule releaseReservationTx_Inr [OF inv]) (auto intro: effect_step effect.expire)
  show "effect\<^sup>*\<^sup>* d (snd (CancelReservation env d bid))"
    unfolding CancelReservation_def releaseReservation_def
    by (rule tx, erule releaseReservationTx_Inr [OF inv]) (auto intro: effect_step effect.cancel)
qed

lemma SetPaymentIntentID_effect: "effect\<^sup>*\<^sup>* d (snd (SetPaymentIntentID env d bid i))"
proof -
  let ?p = "\<lambda>b. bID b = bid \<and> (bStatus b = BookingStatusReserved \<or> bStatus b = BookingStatusPurchased) \<and>
           (bPaymentIntentID b = None \<or> bPaymentIntentID b = Some '''')"
  let ?r = "auto_commit env (Stmt 1) (\<lambda>d. Inr (rows_affected ?p (bookings d),
     bookings_update (sql_update ?p (\<lambda>b. b\<lparr>bPaymentIntentID := Some i,
       bUpdatedAt := tx_time env\<rparr>)) d)) d"
  have "snd (SetPaymentIntentID env d bid i) = snd ?r"
    by (auto simp: SetPaymentIntentID_def Let_def split: sum.splits prod.splits)
  moreover have "effect\<^sup>*\<^sup>* d (snd ?r)"
    by (rule auto_commit_inv) (auto intro: effect_step effect.set_intent)
  ultimately show ?thesis by simp
qed

lemma catalog_tx_effect:
  "effect\<^sup>*\<^sup>* d (snd (user_Create env d u))" "effect\<^sup>*\<^sup>* d (snd (UpdateRole env d uid role))"
  "effect\<^sup>*\<^sup>* d (snd (venue_Create env d v))" "effect\<^sup>*\<^sup>* d (snd (event_Create env d e))"
  "effect\<^sup>*\<^sup>* d (snd (CreateBulkSeats env d ev n))"
proof -
  note ac = auto_commit_inv [where P = "effect\<^sup>*\<^sup>* d", OF rtranclp.rtrancl_refl]
  note tx = run_tx_inv [where P = "effect\<^sup>*\<^sup>* d", OF rtranclp.rtrancl_refl]
  have 1: "snd (case r of (Inl a, d') \<Rightarrow> (Inl (f a), d') | (Inr b, d') \<Rightarrow> (Inr b, d')) = snd r"
    for r :: "'x res \<times> db" and f by (auto split: prod.splits sum.splits)
  show "effect\<^sup>*\<^sup>* d (snd (user_Create env d u))"
    unfolding user_Create_def Let_def 1
    by (rule ac) (auto simp: ebind_Inr_iff insert_Inr_iff intro!: effect_step effect.add_user)
  show "effect\<^sup>*\<^sup>* d (snd (UpdateRole env d uid role))"
  proof -
    let ?r = "auto_commit env (Stmt 2) (\<lambda>d. Inr (rows_affected (\<lambda>u. uID u = uid) (users d),
        users_update (sql_update (\<lambda>u. uID u = uid)
          (\<lambda>u. u\<lparr>uRole := role, uUpdatedAt := tx_time env\<rparr>)) d)) d"
    have "snd (UpdateRole env d uid role) = snd ?r"
      by (auto simp: UpdateRole_def split: sum.splits prod.splits)
    moreover have "effect\<^sup>*\<^sup>* d (snd ?r)" by (rule ac) (auto intro: effect_step effect.set_role)
    ultimately show ?thesis by simp
  qed
  show "effect\<^sup>*\<^sup>* d (snd (venue_Create env d v))"
    unfolding venue_Create_def Let_def
    by (rule ac) (auto simp: ebind_Inr_iff insert_Inr_iff intro!: effect_step effect.add_venue)
  show "effect\<^sup>*\<^sup>* d (snd (event_Create env d e))"
    unfolding event_Create_def Let_def
    by (rule ac) (auto simp: ebind_Inr_iff insert_Inr_iff intro!: effect_step effect.add_event)
  show "effect\<^sup>*\<^sup>* d (snd (CreateBulkSeats env d ev n))"
    unfolding CreateBulkSeats_def
    by (rule tx) (auto simp: ebind_Inr_iff dest: insert_seats_effect)
qed

lemma exec_tx_effect: "db_inv d \<Longrightarrow> effect\<^sup>*\<^sup>* d (exec_tx op d)"
  by (cases op) (simp_all add: booking_tx_effect SetPaymentIntentID_effect catalog_tx_effect)

section \<open>Runs of the database\<close>

lemma exec_tx_inv: "db_inv d \<Longrightarrow> db_inv (exec_tx op d)"
  using exec_tx_effect effects_inv by blast

text \<open>The life of one booking, seen from outside: absent, then in one of four states.\<close>

datatype booking_view = Absent | View uuid uuid uuid int time time BookingStatus

fun view_status :: "booking_view \<Rightarrow> BookingStatus option" where
  "view_status Absent = None"
| "view_status (View _ _ _ _ _ _ st) = Some st"

text \<open>\<open>View user event seat amount reserved_at expires_at status\<close>\<close>

definition view_of :: "Booking \<Rightarrow> booking_view" where
  "view_of b = View (bUserID b) (bEventID b) (bSeatID b) (bTotalAmount b) (bReservedAt b)
     (bExpiresAt b) (bStatus b)"

definition booking_view :: "db \<Rightarrow> uuid \<Rightarrow> booking_view" where
  "booking_view d bid = (case filter (\<lambda>b. bID b = bid) (bookings d) of
     [] \<Rightarrow> Absent | b # _ \<Rightarrow> view_of b)"

text \<open>
  The contract of the booking life cycle: who booked which seat of which event for how much
  never changes; a deadline only moves forward, and only while the booking is reserved; a
  reserved booking is purchased, cancelled or expires; a purchase can be taken back;
  cancelled and expired bookings stay as they are.
\<close>

inductive booking_step :: "booking_view \<Rightarrow> booking_view \<Rightarrow> bool" where
  reserved: "booking_step Absent (View u ev s a r x BookingStatusReserved)"
| extended: "x \<le> y \<Longrightarrow> booking_step (View u ev s a r x BookingStatusReserved)
    (View u ev s a r y BookingStatusReserved)"
| purchased: "booking_step (View u ev s a r x BookingStatusReserved)
    (View u ev s a r x BookingStatusPurchased)"
| cancelled: "booking_step (View u ev s a r x BookingStatusReserved)
    (View u ev s a r x BookingStatusCancelled)"
| expired: "booking_step (View u ev s a r x BookingStatusReserved)
    (View u ev s a r x BookingStatusExpired)"
| reverted: "booking_step (View u ev s a r x BookingStatusPurchased)
    (View u ev s a r x BookingStatusCancelled)"

inductive_cases booking_step_from: "booking_step (View u ev s a r x st) v"
inductive_cases booking_step_to: "booking_step v (View u ev s a r x st)"

lemma booking_view_in:
  assumes inv: "db_inv d" and b: "b \<in> set (bookings d)" shows "booking_view d (bID b) = view_of b"
proof -
  have "query_row (sql_select (\<lambda>x. bID x = bID b) (bookings d)) = Inr b"
    using bookings_tab.fetch_unique keys_okD(1) [OF inv] b by blast
  then show ?thesis
    by (auto simp: booking_view_def query_row_def sql_select_def split: list.splits)
qed

lemma booking_view_absent:
  "bid \<notin> bID ` set (bookings d) \<Longrightarrow> booking_view d bid = Absent"
proof -
  assume "bid \<notin> bID ` set (bookings d)"
  then have "filter (\<lambda>b. bID b = bid) (bookings d) = []" by (auto simp: filter_empty_conv)
  then show ?thesis by (simp add: booking_view_def)
qed

lemma booking_view_bookings: "bookings d' = bookings d \<Longrightarrow> booking_view d' bid = booking_view d bid"
  by (simp add: booking_view_def)

lemma booking_view_update:
  assumes "\<And>b. bID (f b) = bID b"
    and "\<And>b. b \<in> set (bookings d) \<Longrightarrow> p b \<Longrightarrow> bID b = bid \<Longrightarrow> view_of (f b) = view_of b"
    and "bookings d' = sql_update p f (bookings d)"
  shows "booking_view d' bid = booking_view d bid"
proof -
  have "(case filter (\<lambda>b. bID b = bid) (sql_update p f bs) of [] \<Rightarrow> Absent | b # _ \<Rightarrow> view_of b) =
        (case filter (\<lambda>b. bID b = bid) bs of [] \<Rightarrow> Absent | b # _ \<Rightarrow> view_of b)"
    if "set bs \<subseteq> set (bookings d)" for bs
    using that
  proof (induction bs)
    case (Cons b bs)
    then show ?case using assms(1,2) [of b] by (simp add: sql_update_def)
  qed (simp add: sql_update_def)
  then show ?thesis by (simp add: booking_view_def assms(3))
qed

lemma booking_view_touch:
  assumes inv: "db_inv d" and b: "b \<in> set (bookings d)" and f: "\<And>x. bID (fb x) = bID x"
  shows "booking_view (touch b fb fs fe d) bid =
         (if bid = bID b then view_of (fb b) else booking_view d bid)"
proof (cases "bid = bID b")
  case True
  have "query_row (sql_select (\<lambda>x. bID x = bID b)
      (bookings (bookings_update (sql_update (\<lambda>x. bID x = bID b) fb) d))) = Inr (fb b)"
    using bookings_tab.fetch_modify_same keys_okD(1) [OF inv] b f by blast
  then show ?thesis using True
    by (auto simp: booking_view_def query_row_def sql_select_def split: list.splits)
next
  case False
  then show ?thesis
    using booking_view_update [of fb d "\<lambda>x. bID x = bID b" bid "touch b fb fs fe d"] f by auto
qed

lemma booking_view_reserve:
  assumes "bID b \<notin> bID ` set (bookings d)"
  shows "booking_view (reserve_db ts b d) bid = (if bid = bID b then view_of b else booking_view d bid)"
proof (cases "bid = bID b")
  case True
  have "bID x \<noteq> bID b" if "x \<in> set (bookings d)" for x using assms that by (metis imageI)
  then have "filter (\<lambda>x. bID x = bID b) (bookings d) = []" by (simp add: filter_empty_conv)
  with True show ?thesis by (simp add: booking_view_def)
next
  case False
  then show ?thesis by (simp add: booking_view_def)
qed

lemmas view_simps = view_of_def row_defs booking_view_touch booking_view_in

lemma effect_refines:
  "effect d d' \<Longrightarrow> db_inv d \<Longrightarrow> booking_step\<^sup>=\<^sup>= (booking_view d bid) (booking_view d' bid)"
proof (induction rule: effect.induct)
  case (reserve e d b s ts)
  then show ?case
    by (auto simp: booking_view_reserve booking_view_absent view_of_def intro: booking_step.reserved)
next
  case (purchase b d ts)
  then show ?case by (auto simp: view_simps intro: booking_step.purchased)
next
  case (revert b d ts)
  then show ?case by (auto simp: view_simps intro: booking_step.reverted)
next
  case (extend b d until ts)
  then show ?case by (auto simp: view_simps intro: booking_step.extended)
next
  case (expire b d ts)
  then show ?case by (auto simp: view_simps intro: booking_step.expired)
next
  case (cancel b d ts)
  then show ?case by (auto simp: view_simps intro: booking_step.cancelled)
next
  case (set_intent d b ts i)
  have "booking_view (bookings_update (sql_update
      (\<lambda>x. bID x = b \<and> (bStatus x = BookingStatusReserved \<or> bStatus x = BookingStatusPurchased) \<and>
           (bPaymentIntentID x = None \<or> bPaymentIntentID x = Some ''''))
      (\<lambda>x. x\<lparr>bPaymentIntentID := Some i, bUpdatedAt := ts\<rparr>)) d) bid = booking_view d bid"
    by (rule booking_view_update) (simp_all add: view_of_def)
  then show ?case by simp
qed (simp_all add: booking_view_def)

lemma effects_refine:
  "effect\<^sup>*\<^sup>* d d' \<Longrightarrow> db_inv d \<Longrightarrow> booking_step\<^sup>*\<^sup>* (booking_view d bid) (booking_view d' bid)"
proof (induction rule: rtranclp_induct)
  case (step d' d'')
  from effect_refines [OF step(2) effects_inv [OF step(1) step(4)]]
  have "booking_step\<^sup>*\<^sup>* (booking_view d' bid) (booking_view d'' bid)" by (metis (full_types) r_into_rtranclp rtranclp.rtrancl_refl sup2E)
  with step(3) [OF step(4)] show ?case by (rule rtranclp_trans)
qed simp

definition lifecycle :: "db \<Rightarrow> db \<Rightarrow> bool" where
  "lifecycle d d' \<longleftrightarrow> (\<forall>bid. booking_step\<^sup>*\<^sup>* (booking_view d bid) (booking_view d' bid))"

lemma lifecycle_trans: "lifecycle d d' \<Longrightarrow> lifecycle d' d'' \<Longrightarrow> lifecycle d d''"
  unfolding lifecycle_def by (meson rtranclp_trans)

interpretation db_run: bounded_system exec_tx db_inv lifecycle
proof unfold_locales
  fix s t u :: db and op
  show "db_inv s \<Longrightarrow> db_inv (exec_tx op s)" by (rule exec_tx_inv)
  show "lifecycle s s" by (simp add: lifecycle_def)
  show "lifecycle s t \<Longrightarrow> lifecycle t u \<Longrightarrow> lifecycle s u" by (rule lifecycle_trans)
  show "db_inv s \<Longrightarrow> lifecycle s (exec_tx op s)"
    using exec_tx_effect effects_refine by (simp add: lifecycle_def)
qed

end
