(* ===== verification/Demo.thy ===== *)
theory Demo
  imports Transactions
begin

text \<open>
  One concrete history: a user, a venue and an event with three seats are created, two seats
  are reserved and one of the two reservations is purchased. The witnesses of the theorems
  about the database run here.
\<close>

definition demo_user :: User where
  "demo_user = \<lparr>uID = 0, uEmail = ''a@b.c'', uPasswordHash = ''h'', uFullName = ''A B'',
     uRole = RoleUser, uCreatedAt = 0, uUpdatedAt = 0\<rparr>"

definition demo_venue :: Venue where
  "demo_venue = \<lparr>vID = 0, vName = ''Hall'', vAddress = ''Street 1'', vCapacity = 3,
     vSeatLayout = ''{}'', vCreatedAt = 0, vUpdatedAt = 0\<rparr>"

definition demo_event :: Event where
  "demo_event = \<lparr>eID = 0, eVenueID = 2, eTitle = ''Show'', eDescription = '''', eEventDate = 1000,
     eTicketPrice = 2500, eTotalSeats = 3, eAvailableSeats = 0, eCreatedBy = 1,
     eCreatedAt = 0, eUpdatedAt = 0\<rparr>"

definition demo_ops :: "txop list" where
  "demo_ops = [TxCreateUser (quiet_env 10 1) demo_user, TxCreateVenue (quiet_env 10 2) demo_venue,
     TxCreateEvent (quiet_env 10 3) demo_event, TxCreateSeats (quiet_env 10 10) 3 3,
     TxReserve (quiet_env 20 21) 1 3 ''R1-S2'' 100, TxReserve (quiet_env 20 22) 1 3 ''R1-S3'' 100,
     TxPurchase (quiet_env 30 0) 22]"

definition demo_seat :: "uuid \<Rightarrow> string \<Rightarrow> Seat" where
  "demo_seat sid num = \<lparr>sID = sid, sEventID = 3, sSeatNumber = num, sRowNumber = None,
     sSection = None, sStatus = SeatStatusAvailable, sReservedAt = None, sReservedUntil = None,
     sCreatedAt = 10\<rparr>"

definition demo_booking :: "uuid \<Rightarrow> uuid \<Rightarrow> Booking" where
  "demo_booking bid sid = \<lparr>bID = bid, bUserID = 1, bEventID = 3, bSeatID = sid,
     bStatus = BookingStatusReserved, bTotalAmount = 2500, bReservedAt = 20, bPurchasedAt = None,
     bPaymentIntentID = None, bExpiresAt = 100, bCreatedAt = 20, bUpdatedAt = 20\<rparr>"

definition demo_db :: db where
  "demo_db = \<lparr>
     users = [demo_user\<lparr>uID := 1, uCreatedAt := 10, uUpdatedAt := 10\<rparr>],
     venues = [demo_venue\<lparr>vID := 2, vCreatedAt := 10, vUpdatedAt := 10\<rparr>],
     events = [demo_event\<lparr>eID := 3, eAvailableSeats := 1, eCreatedAt := 10, eUpdatedAt := 20\<rparr>],
     seats = [demo_seat 11 ''R1-S1'',
       (demo_seat 12 ''R1-S2'')\<lparr>sStatus := SeatStatusReserved, sReservedAt := Some 20,
          sReservedUntil := Some 100\<rparr>,
       (demo_seat 13 ''R1-S3'')\<lparr>sStatus := SeatStatusSold\<rparr>],
     bookings = [demo_booking 21 12,
       (demo_booking 22 13)\<lparr>bStatus := BookingStatusPurchased, bPurchasedAt := Some 30,
          bUpdatedAt := 30\<rparr>]\<rparr>"

lemmas demo_defs = demo_user_def demo_venue_def demo_event_def demo_seat_def demo_booking_def

lemmas exec_defs = CreateReservation_def createReservationTx_def reserveSeatTx_def lock_seat_def
  CompletePurchase_def completePurchaseTx_def findBookingForUpdateTx_def no_rows_as_def
  user_Create_def venue_Create_def event_Create_def CreateBulkSeats_def insert_user_def
  insert_venue_def insert_event_def insert_seat_def insert_booking_def run_tx_def auto_commit_def
  commit_def sql_insert_def sql_select_def sql_update_def query_row_def int4_def stmt_def
  eventExistsTx_def

lemma demo_seat_numbers:
  "formatSeatNumber 1 = ''R1-S1''" "formatSeatNumber 2 = ''R1-S2''" "formatSeatNumber 3 = ''R1-S3''"
  by code_simp+

text \<open>The history leads from the empty database to this state, every operation succeeding.\<close>

lemma demo_run: "run exec_tx demo_ops empty_db = demo_db"
  by (simp add: demo_ops_def demo_db_def demo_defs empty_db_def exec_defs Let_def
      demo_seat_numbers numeral_3_eq_3 numeral_2_eq_2 sell_seat_def)

lemma demo_inv: "db_inv demo_db"
  using db_run.run_inv [OF db_inv_empty, of demo_ops] by (simp add: demo_run)

end
