(* ===== verification/Booking_Specs.thy ===== *)
theory Booking_Specs
  imports Demo
begin

text \<open>
  The operations of the booking repository described branch by branch, when no driver call
  fails: which result, which error, which new state. These lemmas are complete (every input
  is covered), so they also say when an operation succeeds.
\<close>

definition fault_free :: "tenv \<Rightarrow> bool" where
  "fault_free env \<longleftrightarrow> fault env = (\<lambda>_. None)"

lemma fault_free_fault [simp]: "fault_free env \<Longrightarrow> fault env k = None"
  by (simp add: fault_free_def)

lemma fault_free_quiet [simp]: "fault_free (quiet_env t u)"
  by (simp add: fault_free_def quiet_env_def)

lemma run_tx_ff: "fault_free env \<Longrightarrow>
   run_tx env body d = (case body d of Inl e \<Rightarrow> (Inl e, d) | Inr (x, d') \<Rightarrow> (Inr x, d'))"
  by (rule run_tx_ok) simp_all

definition find_booking :: "db \<Rightarrow> uuid \<Rightarrow> Booking option" where
  "find_booking d bid = find (\<lambda>b. bID b = bid) (bookings d)"

lemma query_row_find:
  "query_row (sql_select p t) = (case find p t of None \<Rightarrow> Inl SqlErrNoRows | Some r \<Rightarrow> Inr r)"
  by (induction t) (auto simp: query_row_def sql_select_def)

lemma find_booking_Some: "find_booking d bid = Some b \<Longrightarrow> b \<in> set (bookings d) \<and> bID b = bid"
  by (auto simp: find_booking_def find_Some_iff)

lemma find_booking_in: "db_inv d \<Longrightarrow> b \<in> set (bookings d) \<Longrightarrow> find_booking d (bID b) = Some b"
  using bookings_tab.fetch_unique [of d b] keys_okD(1) [of d]
  by (auto simp: find_booking_def query_row_find split: option.splits)

lemma findBooking_ff:
  "fault_free env \<Longrightarrow> findBookingForUpdateTx env k d bid =
   (case find_booking d bid of None \<Rightarrow> Inl RepoErrBookingNotFound | Some b \<Rightarrow> Inr (scan_booking b))"
  by (simp add: findBookingForUpdateTx_def query_row_find find_booking_def no_rows_as_def
      split: option.splits)

lemma rows_affected_pos: "0 < rows_affected p t \<longleftrightarrow> (\<exists>r\<in>set t. p r)"
  using rows_affected_0 [of p t] by auto

lemma select_and:
  assumes inv: "db_inv d" and b: "b \<in> set (bookings d)"
  shows "query_row (sql_select (\<lambda>x. bID x = bID b \<and> q x) (bookings d)) =
         (if q b then Inr b else Inl SqlErrNoRows)"
    and "0 < rows_affected (\<lambda>x. bID x = bID b \<and> q x) (bookings d) \<longleftrightarrow> q b"
proof -
  have u: "x = b" if "x \<in> set (bookings d)" "bID x = bID b" for x
    using key_inj [OF keys_okD(1) [OF inv] that(1) b that(2)] .
  show "query_row (sql_select (\<lambda>x. bID x = bID b \<and> q x) (bookings d)) =
         (if q b then Inr b else Inl SqlErrNoRows)"
  proof (cases "q b")
    case True
    with u b show ?thesis by (auto intro!: query_row_unique)
  next
    case False
    with u have "filter (\<lambda>x. bID x = bID b \<and> q x) (bookings d) = []"
      by (auto simp: filter_empty_conv)
    with False show ?thesis by (simp add: query_row_def sql_select_def)
  qed
  show "0 < rows_affected (\<lambda>x. bID x = bID b \<and> q x) (bookings d) \<longleftrightarrow> q b"
    using u b by (auto simp: rows_affected_pos)
qed

lemma purchase_spec:
  assumes inv: "db_inv d" and ff: "fault_free env"
  shows "CompletePurchase env d bid = (case find_booking d bid of
       None \<Rightarrow> (Inl RepoErrBookingNotFound, d)
     | Some b \<Rightarrow>
         if bStatus b = BookingStatusPurchased then (Inr (scan_booking b), d)
         else if bStatus b \<noteq> BookingStatusReserved then (Inl RepoErrBookingNotReserved, d)
         else if bExpiresAt b < clock env 0 then (Inl RepoErrBookingExpired, d)
         else if bExpiresAt b \<le> tx_time env then (Inl RepoErrBookingNotReserved, d)
         else (Inr (purchase_row (tx_time env) (scan_booking b)),
               touch b (purchase_row (tx_time env)) sell_seat (\<lambda>e. e) d))"
proof (cases "find_booking d bid")
  case None
  then show ?thesis by (simp add: CompletePurchase_def run_tx_ff ff completePurchaseTx_def findBooking_ff)
next
  case (Some b)
  then have b: "b \<in> set (bookings d)" "bID b = bid" by (simp_all add: find_booking_Some)
  note s = select_and(1) [OF inv b(1), unfolded b(2)]
  note u = booking_update_touch [OF inv b(1), unfolded b(2)]
  show ?thesis
    by (simp add: CompletePurchase_def run_tx_ff ff completePurchaseTx_def findBooking_ff Some s
        Let_def no_rows_as_def guarded_def u touch_def b(2) purchase_row_def
        purchase_row_def [abs_def])
qed

lemma cnt_pos: "x \<in> set xs \<Longrightarrow> P x \<Longrightarrow> 1 \<le> cnt P xs"
proof (induction xs)
  case (Cons y ys)
  then show ?case using cnt_nonneg [of P ys] by auto
qed simp

text \<open>Giving a seat back never overflows the counter.\<close>

lemma increment_ff:
  assumes inv: "db_inv d" and ff: "fault_free env" and b: "b \<in> set (bookings d)" "active b"
    and d': "events d' = events d"
  shows "increment_available env k (bEventID b) d' =
     Inr (events_update (sql_update (\<lambda>e. eID e = bEventID b) (give_back (tx_time env))) d')"
proof -
  have "int4 (eAvailableSeats e + 1)" if e: "e \<in> set (events d)" "eID e = bEventID b" for e
  proof -
    from e db_invD(5) [OF inv] have "eAvailableSeats e = eTotalSeats e - cnt (active_on (eID e)) (bookings d)"
      "min 0 (eTotalSeats e) \<le> eAvailableSeats e" "int4 (eTotalSeats e)"
      by (auto simp: counts_ok_def event_ok_def)
    moreover have "1 \<le> cnt (active_on (eID e)) (bookings d)"
      by (rule cnt_pos [OF b(1)]) (simp add: active_on_def b e)
    ultimately show ?thesis unfolding int4_def by linarith
  qed
  then have "\<not> list_ex (\<lambda>e. eID e = bEventID b \<and> \<not> int4 (eAvailableSeats e + 1)) (events d')"
    by (auto simp: d' list_ex_iff)
  then show ?thesis using ff by (simp add: increment_available_def give_back_def [abs_def])
qed

lemma release_spec:
  assumes inv: "db_inv d" and ff: "fault_free env"
  shows "releaseReservation env d bid st req = (case find_booking d bid of
       None \<Rightarrow> (Inl RepoErrBookingNotFound, d)
     | Some b \<Rightarrow>
         if bStatus b \<noteq> BookingStatusReserved \<or>
            req \<and> (clock env 0 < bExpiresAt b \<or> tx_time env < bExpiresAt b)
         then (Inl RepoErrBookingNotReserved, d)
         else (Inr ((scan_booking b)\<lparr>bStatus := st\<rparr>),
               touch b (release_row (tx_time env) st) free_seat (give_back (tx_time env)) d))"
proof (cases "find_booking d bid")
  case None
  then show ?thesis by (simp add: releaseReservation_def run_tx_ff ff releaseReservationTx_def findBooking_ff)
next
  case (Some b)
  then have b: "b \<in> set (bookings d)" "bID b = bid" by (simp_all add: find_booking_Some)
  note s = select_and(2) [OF inv b(1), unfolded b(2)]
  note u = booking_update_touch [OF inv b(1), unfolded b(2)]
  note i = increment_ff [OF inv ff b(1)]
  show ?thesis
    by (cases req)
      (simp_all add: releaseReservation_def run_tx_ff ff releaseReservationTx_def findBooking_ff Some s i
        Let_def guarded_def u touch_def b(2) active_def release_row_def [abs_def])
qed

lemma revert_spec:
  assumes inv: "db_inv d" and ff: "fault_free env"
  shows "RevertFailedPurchase env d bid = (case find_booking d bid of
       None \<Rightarrow> (Inl RepoErrBookingNotFound, d)
     | Some b \<Rightarrow>
         if bStatus b \<noteq> BookingStatusPurchased then (Inl RepoErrBookingNotPurchased, d)
         else (Inr ((scan_booking b)\<lparr>bStatus := BookingStatusCancelled, bPurchasedAt := None,
                       bPaymentIntentID := None\<rparr>),
               touch b (revert_row (tx_time env)) free_seat (give_back (tx_time env)) d))"
proof (cases "find_booking d bid")
  case None
  then show ?thesis by (simp add: RevertFailedPurchase_def run_tx_ff ff revertFailedPurchaseTx_def findBooking_ff)
next
  case (Some b)
  then have b: "b \<in> set (bookings d)" "bID b = bid" by (simp_all add: find_booking_Some)
  note s = select_and(2) [OF inv b(1), unfolded b(2)]
  note u = booking_update_touch [OF inv b(1), unfolded b(2)]
  note i = increment_ff [OF inv ff b(1)]
  show ?thesis
  proof (cases "bStatus b = BookingStatusPurchased")
    case True
    then have "active b" by (simp add: active_def)
    have "sStatus x = SeatStatusSold" if "x \<in> set (seats d)" "sID x = bSeatID b" for x
      using active_seat_fits [OF inv b(1) \<open>active b\<close> that] True by (simp add: seat_fits_def)
    note v = seat_update_touch [OF inv b(1), of "\<lambda>x. sStatus x = SeatStatusSold", OF this]
    show ?thesis
      by (simp add: RevertFailedPurchase_def run_tx_ff ff revertFailedPurchaseTx_def findBooking_ff
          Some s i v Let_def u touch_def b(2) True active_def revert_row_def [abs_def])
  next
    case False
    then show ?thesis
      by (simp add: RevertFailedPurchase_def run_tx_ff ff revertFailedPurchaseTx_def findBooking_ff Some)
  qed
qed

lemma seat_of_booking:
  assumes inv: "db_inv d" and b: "b \<in> set (bookings d)"
  obtains s where "s \<in> set (seats d)" "sID s = bSeatID b" "sEventID s = bEventID b"
    "query_row (sql_select (\<lambda>x. sID x = bSeatID b) (seats d)) = Inr s"
proof -
  obtain s where s: "s \<in> set (seats d)" "sID s = bSeatID b" "sEventID s = bEventID b"
    using booking_seat [OF inv b] .
  with seats_tab.fetch_unique [OF keys_okD(2) [OF inv] s(1)] that show thesis by simp
qed

lemma extend_spec:
  assumes inv: "db_inv d" and ff: "fault_free env"
  shows "ExtendReservation env d bid until =
    (if until \<le> clock env 0 then (Inl RepoErrBookingExpired, d) else
     case find_booking d bid of
       None \<Rightarrow> (Inl RepoErrBookingNotFound, d)
     | Some b \<Rightarrow>
         if bStatus b \<noteq> BookingStatusReserved then (Inl RepoErrBookingNotReserved, d)
         else if bExpiresAt b < clock env 1 then (Inl RepoErrBookingExpired, d)
         else if bExpiresAt b < clock env 2 then (Inl RepoErrSeatNotAvailable, d)
         else if bExpiresAt b \<le> tx_time env then (Inl RepoErrBookingNotReserved, d)
         else (Inr ((scan_booking b)\<lparr>bExpiresAt := max (bExpiresAt b) until\<rparr>),
               touch b (extend_row (tx_time env) (max (bExpiresAt b) until))
                 (hold_seat (max (bExpiresAt b) until)) (\<lambda>e. e) d))"
proof (cases "find_booking d bid")
  case None
  then show ?thesis
    by (auto simp: ExtendReservation_def run_tx_ff ff extendReservationTx_def findBooking_ff)
next
  case (Some b)
  then have b: "b \<in> set (bookings d)" "bID b = bid" by (simp_all add: find_booking_Some)
  obtain s where s: "s \<in> set (seats d)" "sID s = bSeatID b" "sEventID s = bEventID b"
    "query_row (sql_select (\<lambda>x. sID x = bSeatID b) (seats d)) = Inr s"
    using seat_of_booking [OF inv b(1)] .
  have m: "(if bExpiresAt b < until then until else bExpiresAt b) = max (bExpiresAt b) until"
    by (simp add: max_def)
  note defs = ExtendReservation_def run_tx_ff ff extendReservationTx_def findBooking_ff Some
  show ?thesis
  proof (cases "bStatus b = BookingStatusReserved")
    case True
    then have a: "active b" by (simp add: active_def)
    note fit = active_seat_fits [OF inv b(1) a]
    have r: "sStatus x = SeatStatusReserved" if "x \<in> set (seats d)" "sID x = bSeatID b" for x
      using fit [OF that] True by (simp add: seat_fits_def)
    note v = seat_update_touch [OF inv b(1), of "\<lambda>x. sStatus x = SeatStatusReserved", OF r]
    have n: "rows_affected (\<lambda>x. sID x = bSeatID b \<and> sStatus x = SeatStatusReserved) (seats d) > 0"
      using s(1,2) r by (auto simp: rows_affected_pos)
    have f: "sStatus s = SeatStatusReserved" "sReservedUntil s = Some (bExpiresAt b)"
      using fit [OF s(1,2)] True by (simp_all add: seat_fits_def)
    have l: "lockSeatByIDForUpdateTx env k d (bSeatID b) = Inr (scan_seat s)" for k
      by (simp add: lockSeatByIDForUpdateTx_def lock_seat_def ff s(4))
    show ?thesis
      by (auto simp: defs l s f True Let_def guarded_def m v n
          select_and(2) [OF inv b(1), unfolded b(2)] booking_update_touch [OF inv b(1), unfolded b(2)]
          touch_def b(2) extend_row_def [abs_def] hold_seat_def [abs_def])
  next
    case False
    then show ?thesis by (auto simp: defs)
  qed
qed

lemma available_free:
  assumes inv: "db_inv d" and s: "s \<in> set (seats d)" "sStatus s = SeatStatusAvailable"
  shows "sReservedUntil s = None"
proof -
  have "free s"
    using db_invD(4) [OF inv] s free_seat_unbooked [OF inv s] unfolding seats_ok_def by blast
  then show ?thesis by (simp add: free_def)
qed

definition find_event :: "db \<Rightarrow> uuid \<Rightarrow> Event option" where
  "find_event d ev = find (\<lambda>e. eID e = ev) (events d)"

definition find_seat :: "db \<Rightarrow> uuid \<Rightarrow> string \<Rightarrow> Seat option" where
  "find_seat d ev num = find (\<lambda>s. sEventID s = ev \<and> sSeatNumber s = num) (seats d)"

lemma find_event_Some: "find_event d ev = Some e \<Longrightarrow> e \<in> set (events d) \<and> eID e = ev"
  by (auto simp: find_event_def find_Some_iff)

lemma find_event_None: "find_event d ev = None \<longleftrightarrow> ev \<notin> eID ` set (events d)"
  by (auto simp: find_event_def find_None_iff)

lemma find_seat_Some:
  "find_seat d ev num = Some s \<Longrightarrow> s \<in> set (seats d) \<and> sEventID s = ev \<and> sSeatNumber s = num"
  by (auto simp: find_seat_def find_Some_iff)

lemma event_select:
  assumes inv: "db_inv d" and e: "e \<in> set (events d)"
  shows "query_row (sql_select (\<lambda>x. eID x = eID e \<and> q x) (events d)) =
     (if q e then Inr e else Inl SqlErrNoRows)"
proof (cases "q e")
  case True
  with e show ?thesis
    by (auto intro!: query_row_unique dest: key_inj [OF keys_okD(3) [OF inv]])
next
  case False
  then have "filter (\<lambda>x. eID x = eID e \<and> q x) (events d) = []"
    using key_inj [OF keys_okD(3) [OF inv] _ e] by (auto simp: filter_empty_conv)
  with False show ?thesis by (simp add: query_row_def sql_select_def)
qed

lemma find_seat_events [simp]: "find_seat (events_update f d) ev num = find_seat d ev num"
  by (simp add: find_seat_def)

lemma reserveSeatTx_ff:
  "fault_free env \<Longrightarrow> reserveSeatTx env d ev num until = (case find_seat d ev num of
       None \<Rightarrow> Inl RepoErrSeatNotFound
     | Some s \<Rightarrow>
         if sStatus s \<noteq> SeatStatusAvailable then Inl RepoErrSeatNotAvailable
         else if (case sReservedUntil s of None \<Rightarrow> False | Some u \<Rightarrow> clock env 0 < u)
           then Inl RepoErrSeatNotAvailable
         else Inr ((scan_seat s)\<lparr>sStatus := SeatStatusReserved, sReservedAt := Some (clock env 1),
                     sReservedUntil := Some until\<rparr>,
           seats_update (sql_update (\<lambda>x. sID x = sID s) (reserve_row (tx_time env) until)) d))"
  by (auto simp: reserveSeatTx_def lock_seat_def query_row_find find_seat_def [symmetric]
      guarded_def reserve_row_def [abs_def] split: option.splits)

lemma reserve_spec:
  assumes inv: "db_inv d" and ff: "fault_free env"
  shows "CreateReservation env d u ev num until = (case find_event d ev of
       None \<Rightarrow> (Inl RepoErrEventNotFound, d)
     | Some e \<Rightarrow>
         if eAvailableSeats e \<le> 0 then (Inl RepoErrNoAvailableSeats, d) else
         case find_seat d ev num of
           None \<Rightarrow> (Inl RepoErrSeatNotFound, d)
         | Some s \<Rightarrow>
             let b = new_booking env u ev (sID s) (eTicketPrice e) until in
             if sStatus s \<noteq> SeatStatusAvailable then (Inl RepoErrSeatNotAvailable, d)
             else if bID b \<in> bID ` set (bookings d) then (Inl (unique_violation ''bookings_pkey''), d)
             else if u \<notin> uID ` set (users d)
               then (Inl (foreign_key_violation ''bookings_user_id_fkey''), d)
             else (Inr b, reserve_db (tx_time env) b d))"
proof (cases "find_event d ev")
  case None
  then have e: "\<not> list_ex (\<lambda>e. eID e = ev) (events d)" "sql_select (\<lambda>e. eID e = ev \<and> 0 < eAvailableSeats e) (events d) = []"
    by (auto simp: find_event_None list_ex_iff sql_select_def filter_empty_conv)
  then show ?thesis
    by (simp add: None CreateReservation_def run_tx_ff ff createReservationTx_def eventExistsTx_def
        query_row_def Let_def)
next
  case (Some e)
  then have e: "e \<in> set (events d)" "eID e = ev" by (simp_all add: find_event_Some)
  note q = event_select [OF inv e(1), unfolded e(2)]
  have ex: "list_ex (\<lambda>e. eID e = ev) (events d)" using e by (auto simp: list_ex_iff)
  have u: "sql_update (\<lambda>e. eID e = ev \<and> 0 < eAvailableSeats e) f (events d) =
      sql_update (\<lambda>e. eID e = ev) f (events d)" if "0 < eAvailableSeats e" for f
    using sql_update_key_and [where key = eID and q = "\<lambda>e. 0 < eAvailableSeats e", OF keys_okD(3) [OF inv] e that] .
  note defs = Some CreateReservation_def run_tx_ff ff createReservationTx_def q
  show ?thesis
  proof (cases "0 < eAvailableSeats e")
    case False
    then show ?thesis by (simp add: defs eventExistsTx_def ex Let_def)
  next
    case True
    from True have pos: "\<not> eAvailableSeats e \<le> 0" by simp
    note defs = defs u [OF True] reserveSeatTx_ff [OF ff] pos
    show ?thesis
    proof (cases "find_seat d ev num")
      case None
      then show ?thesis by (simp add: defs True Let_def)
    next
      case (Some s)
      then have s: "s \<in> set (seats d)" "sEventID s = ev" by (simp_all add: find_seat_Some)
      have sid: "bSeatID (new_booking env u ev (sID s) p until) = sID s"
        "bExpiresAt (new_booking env u ev (sID s) p until) = until"
        "bEventID (new_booking env u ev (sID s) p until) = ev" for p
        by (simp_all add: new_booking_def)
      have im: "sID ` set (sql_update p f (seats d)) = sID ` set (seats d)"
        if "\<And>x. sID (f x) = sID x" for p f
        by (rule key_sql_update) (rule that)
      have im2: "eID ` set (sql_update p f (events d)) = eID ` set (events d)"
        if "\<And>x. eID (f x) = eID x" for p f
        by (rule key_sql_update) (rule that)
      have im3: "sID s \<in> sID ` set (seats d)" "ev \<in> eID ` set (events d)"
        using s(1) imageI [OF e(1), of eID] e(2) by simp_all
      show ?thesis
        using available_free [OF inv s(1)]
        by (auto simp: defs True Some Let_def guarded_def insert_booking_def im im2 im3
            reserve_db_def new_booking_def reserve_row_def [abs_def] take_away_def [abs_def])
    qed
  qed
qed

lemma find_booking_touch:
  assumes inv: "db_inv d" and b: "b \<in> set (bookings d)" and f: "\<And>x. bID (fb x) = bID x"
  shows "find_booking (touch b fb fs fe d) (bID b) = Some (fb b)"
proof -
  have "query_row (sql_select (\<lambda>x. bID x = bID b)
      (bookings (bookings_update (sql_update (\<lambda>x. bID x = bID b) fb) d))) = Inr (fb b)"
    using bookings_tab.fetch_modify_same keys_okD(1) [OF inv] b f by blast
  then show ?thesis by (auto simp: query_row_find find_booking_def split: option.splits)
qed

lemma FindByID_Inr:
  "booking_FindByID env k d bid = Inr b \<Longrightarrow>
   \<exists>row. find_booking d bid = Some row \<and> b = scan_booking row"
  by (auto simp: booking_FindByID_def ebind_Inr_iff query_row_find find_booking_def split: option.splits)

lemma FindByID_ok:
  "fault env k = None \<Longrightarrow> booking_FindByID env k d bid = (case find_booking d bid of
     None \<Rightarrow> Inl RepoErrBookingNotFound | Some b \<Rightarrow> Inr (scan_booking b))"
  by (simp add: booking_FindByID_def query_row_find find_booking_def no_rows_as_def split: option.splits)

lemma FindByID_ff:
  "fault_free env \<Longrightarrow> booking_FindByID env k d bid = (case find_booking d bid of
     None \<Rightarrow> Inl RepoErrBookingNotFound | Some b \<Rightarrow> Inr (scan_booking b))"
  by (rule FindByID_ok) simp

text \<open>Views of a booking in terms of its row.\<close>

lemma booking_view_find:
  "booking_view d bid = (case find_booking d bid of None \<Rightarrow> Absent | Some b \<Rightarrow> view_of b)"
proof -
  have "query_row (sql_select (\<lambda>b. bID b = bid) (bookings d)) =
      (case find_booking d bid of None \<Rightarrow> Inl SqlErrNoRows | Some r \<Rightarrow> Inr r)"
    by (simp add: query_row_find find_booking_def)
  then show ?thesis
    by (auto simp: booking_view_def query_row_def sql_select_def split: list.splits option.splits)
qed

lemma view_keeps_user:
  "booking_step\<^sup>*\<^sup>* v v' \<Longrightarrow> v = View u ev s a r x st \<Longrightarrow> \<exists>x' st'. v' = View u ev s a r x' st'"
proof (induction rule: rtranclp_induct)
  case (step y z)
  then obtain x' st' where "y = View u ev s a r x' st'" by blast
  with step(2) show ?case by (auto elim: booking_step_from)
qed simp

lemma SetPaymentIntentID_view:
  "booking_view (snd (SetPaymentIntentID env d bid i)) b = booking_view d b"
proof -
  let ?p = "\<lambda>b. bID b = bid \<and> (bStatus b = BookingStatusReserved \<or> bStatus b = BookingStatusPurchased) \<and>
           (bPaymentIntentID b = None \<or> bPaymentIntentID b = Some '''')"
  let ?r = "auto_commit env (Stmt 1) (\<lambda>d. Inr (rows_affected ?p (bookings d),
     bookings_update (sql_update ?p (\<lambda>b. b\<lparr>bPaymentIntentID := Some i,
       bUpdatedAt := tx_time env\<rparr>)) d)) d"
  have "snd (SetPaymentIntentID env d bid i) = snd ?r"
    by (auto simp: SetPaymentIntentID_def Let_def split: sum.splits prod.splits)
  moreover have "booking_view (snd ?r) b = booking_view d b"
    by (rule auto_commit_inv [where P = "\<lambda>d'. booking_view d' b = booking_view d b"])
      (auto intro!: booking_view_update [where d = d and p = ?p and f = "\<lambda>b. b\<lparr>bPaymentIntentID := Some i,
         bUpdatedAt := tx_time env\<rparr>"] simp: view_of_def)
  ultimately show ?thesis by simp
qed

end
