(* ===== verification/Booking_Theorems.thy ===== *)
theory Booking_Theorems
  imports Booking_Specs
begin

text \<open>
  The properties of the database: what holds after every history of transactions from the
  empty database, whatever the clocks, the faults, the busy locks and the order, and what
  each operation of the booking repository does on every branch.
\<close>

section \<open>Histories\<close>

lemma run_inv_empty: "db_inv (run exec_tx ops empty_db)"
  by (rule db_run.run_inv) (rule db_inv_empty)

lemma same_booking:
  assumes inv: "db_inv d" and b: "b \<in> set (bookings d)" "active b" and b': "b' \<in> set (bookings d)"
    "active b'" and eq: "bSeatID b = bSeatID b'"
  shows "b = b'"
  using db_invD(3) [OF inv] key_inj [OF keys_okD(1) [OF inv] b(1) b'(1)] assms
  unfolding unique_active_def one_per_seat_def by blast

lemma filter_at_most_one:
  assumes "distinct xs" "\<And>x y. x \<in> set xs \<Longrightarrow> y \<in> set xs \<Longrightarrow> P x \<Longrightarrow> P y \<Longrightarrow> x = y"
  shows "length (filter P xs) \<le> 1"
  using assms
proof (induction xs)
  case (Cons x xs)
  show ?case
  proof (cases "P x")
    case True
    with Cons.prems have "filter P xs = []" by (fastforce simp: filter_empty_conv)
    with True show ?thesis by simp
  next
    case False
    have "length (filter P xs) \<le> 1" by (rule Cons.IH) (use Cons.prems in auto)
    with False show ?thesis by simp
  qed
qed simp

lemma active_per_seat:
  assumes inv: "db_inv d"
  shows "length (filter (\<lambda>b. active b \<and> bSeatID b = seat) (bookings d)) \<le> 1"
proof (rule filter_at_most_one)
  show "distinct (bookings d)" using keys_okD(1) [OF inv] by (simp add: distinct_map)
qed (use same_booking [OF inv] in blast)

text \<open>
  C1. No double booking: after every history of transactions at most one reserved or
  purchased booking refers to a seat.
\<close>

theorem no_double_booking:
  "length (filter (\<lambda>b. active b \<and> bSeatID b = seat) (bookings (run exec_tx ops empty_db))) \<le> 1"
  by (rule active_per_seat) (rule run_inv_empty)

lemma seat_agrees:
  assumes inv: "db_inv d" and s: "s \<in> set (seats d)"
  shows "case filter (\<lambda>b. active b \<and> bSeatID b = sID s) (bookings d) of
      [] \<Rightarrow> sStatus s = SeatStatusAvailable \<and> sReservedUntil s = None
    | b # _ \<Rightarrow> bEventID b = sEventID s \<and> seat_fits b s"
proof (cases "filter (\<lambda>b. active b \<and> bSeatID b = sID s) (bookings d)")
  case Nil
  then have "free s" using db_invD(4) [OF inv] s by (auto simp: seats_ok_def filter_empty_conv)
  with Nil show ?thesis by (simp add: free_def)
next
  case (Cons b bs)
  then have b: "b \<in> set (bookings d)" "active b" "sID s = bSeatID b"
    by (auto simp: filter_eq_Cons_iff)
  obtain s' where "s' \<in> set (seats d)" "sID s' = bSeatID b" "sEventID s' = bEventID b"
    using booking_seat [OF inv b(1)] .
  then have "bEventID b = sEventID s"
    using key_inj [OF keys_okD(2) [OF inv] _ s] b(3) by metis
  with Cons active_seat_fits [OF inv b(1,2) s b(3)] show ?thesis by simp
qed

text \<open>
  C2. A seat and its booking agree: after every history, a seat without a reserved or
  purchased booking is available with no deadline; otherwise its booking is for the seat's
  event, a reserved booking's seat is held until the booking's deadline, and a purchased
  booking's seat is sold.
\<close>

theorem seats_agree_with_bookings:
  "list_all (\<lambda>s. case filter (\<lambda>b. active b \<and> bSeatID b = sID s)
        (bookings (run exec_tx ops empty_db)) of
      [] \<Rightarrow> sStatus s = SeatStatusAvailable \<and> sReservedUntil s = None
    | b # _ \<Rightarrow> bEventID b = sEventID s \<and> seat_fits b s)
   (seats (run exec_tx ops empty_db))"
  using seat_agrees [OF run_inv_empty] by (simp add: list_all_iff)

text \<open>
  C3. Seat accounting: after every history an event's \<open>available_seats\<close> is its
  \<open>total_seats\<close> less its reserved and purchased bookings, never negative (unless the event
  was created with a negative total, and then it is that total), and fits its column.
\<close>

theorem seat_accounting:
  "list_all (\<lambda>e. eAvailableSeats e + cnt (active_on (eID e)) (bookings (run exec_tx ops empty_db)) =
        eTotalSeats e \<and> min 0 (eTotalSeats e) \<le> eAvailableSeats e \<and> int4 (eAvailableSeats e))
   (events (run exec_tx ops empty_db))"
proof -
  let ?d = "run exec_tx ops empty_db"
  have "eAvailableSeats e + cnt (active_on (eID e)) (bookings ?d) = eTotalSeats e \<and>
      min 0 (eTotalSeats e) \<le> eAvailableSeats e \<and> int4 (eAvailableSeats e)"
    if "e \<in> set (events ?d)" for e
  proof -
    have "event_ok (bookings ?d) e"
      using db_invD(5) [OF run_inv_empty [of ops]] that unfolding counts_ok_def by blast
    then show ?thesis
      using cnt_nonneg [of "active_on (eID e)" "bookings ?d"] unfolding event_ok_def int4_def by linarith
  qed
  then show ?thesis by (simp add: list_all_iff)
qed

text \<open>
  C4. Every later history moves a booking along its life cycle only: the implementation's
  transactions refine the abstract steps \<open>booking_step\<close>.
\<close>

theorem lifecycle_refinement:
  "booking_step\<^sup>*\<^sup>* (booking_view (run exec_tx ops empty_db) bid)
     (booking_view (run exec_tx (ops @ later) empty_db) bid)"
  using db_run.run_rel [OF run_inv_empty] by (simp add: run_append lifecycle_def)

lemma closed_stays:
  "booking_step\<^sup>*\<^sup>* v w \<Longrightarrow> view_status v = Some BookingStatusCancelled \<or>
   view_status v = Some BookingStatusExpired \<Longrightarrow> w = v"
proof (induction rule: rtranclp_induct)
  case (step y z)
  then have "view_status y = Some BookingStatusCancelled \<or> view_status y = Some BookingStatusExpired"
    by simp
  with step(2) show ?case by cases simp_all
qed simp

text \<open>
  A cancelled or expired booking is final: no later history changes its user, event,
  seat, amount, deadline or status.
\<close>

lemma closed_bookings_final:
  assumes "view_status (booking_view (run exec_tx ops empty_db) bid) = Some BookingStatusCancelled \<or>
    view_status (booking_view (run exec_tx ops empty_db) bid) = Some BookingStatusExpired"
  shows "booking_view (run exec_tx (ops @ later) empty_db) bid =
    booking_view (run exec_tx ops empty_db) bid"
  by (rule closed_stays [OF _ assms])
    (use db_run.run_rel [OF run_inv_empty] in \<open>simp add: run_append lifecycle_def\<close>)

lemma demo_cancelled:
  "booking_view (run exec_tx (demo_ops @ [TxCancel (quiet_env 40 0) 21]) empty_db) 21 =
   View 1 3 12 2500 20 100 BookingStatusCancelled"
  by (simp add: run_append demo_run CancelReservation_def release_spec [OF demo_inv])
    (simp add: find_booking_def demo_db_def demo_defs booking_view_def view_of_def touch_def
      release_row_def sql_update_def)

lemma closed_bookings_final_witness:
  "booking_view (run exec_tx ((demo_ops @ [TxCancel (quiet_env 40 0) 21]) @
     [TxPurchase (quiet_env 50 0) 21]) empty_db) 21 = View 1 3 12 2500 20 100 BookingStatusCancelled"
  by (subst closed_bookings_final) (simp_all only: demo_cancelled view_status.simps simp_thms)

section \<open>The operations, branch by branch\<close>

text \<open>
  All or nothing: an operation of the booking repository (and the bulk creation of seats)
  that returns an error leaves the database as it was, unless the server committed and only
  the acknowledgement was lost.
\<close>

lemma failed_operation_changes_nothing:
  assumes "\<not> commit_lost env"
  shows "(case CreateReservation env d u ev num until of (r, d') \<Rightarrow> is_ok r \<or> d' = d) \<and>
    (case CompletePurchase env d bid of (r, d') \<Rightarrow> is_ok r \<or> d' = d) \<and>
    (case RevertFailedPurchase env d bid of (r, d') \<Rightarrow> is_ok r \<or> d' = d) \<and>
    (case ExtendReservation env d bid until of (r, d') \<Rightarrow> is_ok r \<or> d' = d) \<and>
    (case releaseReservation env d bid st req of (r, d') \<Rightarrow> is_ok r \<or> d' = d) \<and>
    (case CreateBulkSeats env d ev n of (r, d') \<Rightarrow> is_ok r \<or> d' = d)"
proof -
  have tx: "case run_tx env body d of (r, d') \<Rightarrow> is_ok r \<or> d' = d" for body :: "db \<Rightarrow> ('a \<times> db) res"
    using assms by (auto simp: run_tx_def commit_def split: option.splits sum.splits)
  show ?thesis
    by (simp_all add: CreateReservation_def CompletePurchase_def RevertFailedPurchase_def
        ExtendReservation_def releaseReservation_def CreateBulkSeats_def tx)
qed

text \<open>A reservation whose last statement fails, after the counter and the seat were changed.\<close>

definition failing_env :: tenv where
  "failing_env = (quiet_env 20 40)\<lparr>fault := (\<lambda>k. if k = Stmt 5 then Some (Foreign ''timeout'') else None)\<rparr>"

lemma failed_reservation_rolled_back:
  "CreateReservation failing_env demo_db 1 3 ''R1-S1'' 100 = (Inl (Foreign ''timeout''), demo_db)"
proof -
  have r: "fst (CreateReservation failing_env demo_db 1 3 ''R1-S1'' 100) = Inl (Foreign ''timeout'')"
    by (simp add: demo_db_def demo_defs exec_defs Let_def failing_env_def quiet_env_def)
  have "\<not> commit_lost failing_env" by (simp add: failing_env_def quiet_env_def)
  from failed_operation_changes_nothing [OF this, of demo_db 1 3 "''R1-S1''" 100] r
  show ?thesis by (cases "CreateReservation failing_env demo_db 1 3 ''R1-S1'' 100") auto
qed

text \<open>
  C7. \<open>CreateReservation\<close> on every branch, when no driver call fails: the errors in the
  order the code finds them, and on success exactly one new reserved booking of the seat at
  the event's price, the seat held until the deadline and the event's counter one less.
\<close>

theorem CreateReservation_behaviour:
  assumes "db_inv d" "fault_free env"
  shows "CreateReservation env d u ev num until = (case find_event d ev of
       None \<Rightarrow> (Inl RepoErrEventNotFound, d)
     | Some e \<Rightarrow>
         if eAvailableSeats e \<le> 0 then (Inl RepoErrNoAvailableSeats, d) else
         case find_seat d ev num of
           None \<Rightarrow> (Inl RepoErrSeatNotFound, d)
         | Some s \<Rightarrow>
             let b = new_booking env u ev (sID s) (eTicketPrice e) until in
             if sStatus s \<noteq> SeatStatusAvailable then (Inl RepoErrSeatNotAvailable, d)
             else if bID b \<in> bID ` set (bookings d) then (Inl (unique_violation ''bookings_pkey''), d)
             else if u \<notin> uID ` set (users d)
               then (Inl (foreign_key_violation ''bookings_user_id_fkey''), d)
             else (Inr b, reserve_db (tx_time env) b d))"
  by (rule reserve_spec) (rule assms)+

lemma CreateReservation_behaviour_witness:
  "fst (CreateReservation (quiet_env 50 60) demo_db 1 3 ''R1-S1'' 90) =
     Inr (new_booking (quiet_env 50 60) 1 3 11 2500 90) \<and>
   fst (CreateReservation (quiet_env 50 60) demo_db 1 3 ''R1-S2'' 90) = Inl RepoErrSeatNotAvailable"
  by (simp add: CreateReservation_behaviour demo_inv)
    (simp add: find_event_def find_seat_def demo_db_def demo_defs Let_def new_booking_def)

text \<open>
  C8. \<open>CompletePurchase\<close> on every branch: only a reserved booking whose deadline has not
  passed is sold, with its seat, and nothing else changes; a purchased booking is returned
  as it is.
\<close>

theorem CompletePurchase_behaviour:
  assumes "db_inv d" "fault_free env"
  shows "CompletePurchase env d bid = (case find_booking d bid of
       None \<Rightarrow> (Inl RepoErrBookingNotFound, d)
     | Some b \<Rightarrow>
         if bStatus b = BookingStatusPurchased then (Inr (scan_booking b), d)
         else if bStatus b \<noteq> BookingStatusReserved then (Inl RepoErrBookingNotReserved, d)
         else if bExpiresAt b < clock env 0 then (Inl RepoErrBookingExpired, d)
         else if bExpiresAt b \<le> tx_time env then (Inl RepoErrBookingNotReserved, d)
         else (Inr (purchase_row (tx_time env) (scan_booking b)),
               touch b (purchase_row (tx_time env)) sell_seat (\<lambda>e. e) d))"
  by (rule purchase_spec) (rule assms)+

lemma CompletePurchase_behaviour_witness:
  "fst (CompletePurchase (quiet_env 101 0) demo_db 21) = Inl RepoErrBookingExpired \<and>
   is_ok (fst (CompletePurchase (quiet_env 99 0) demo_db 21))"
  by (simp add: CompletePurchase_behaviour demo_inv)
    (simp add: find_booking_def demo_db_def demo_defs)

text \<open>
  C9. Expiry and cancellation on every branch: an expiry never takes a booking before its
  deadline, by either clock; both free the seat and give it back to the event.
\<close>

theorem release_behaviour:
  assumes "db_inv d" "fault_free env"
  shows "ReleaseExpiredReservation env d bid = (case find_booking d bid of
       None \<Rightarrow> (Inl RepoErrBookingNotFound, d)
     | Some b \<Rightarrow>
         if bStatus b \<noteq> BookingStatusReserved \<or> clock env 0 < bExpiresAt b \<or>
            tx_time env < bExpiresAt b
         then (Inl RepoErrBookingNotReserved, d)
         else (Inr ((scan_booking b)\<lparr>bStatus := BookingStatusExpired\<rparr>),
               touch b (release_row (tx_time env) BookingStatusExpired) free_seat
                 (give_back (tx_time env)) d)) \<and>
    CancelReservation env d bid = (case find_booking d bid of
       None \<Rightarrow> (Inl RepoErrBookingNotFound, d)
     | Some b \<Rightarrow>
         if bStatus b \<noteq> BookingStatusReserved then (Inl RepoErrBookingNotReserved, d)
         else (Inr ((scan_booking b)\<lparr>bStatus := BookingStatusCancelled\<rparr>),
               touch b (release_row (tx_time env) BookingStatusCancelled) free_seat
                 (give_back (tx_time env)) d))"
  using assms by (simp add: ReleaseExpiredReservation_def CancelReservation_def release_spec
      cong: option.case_cong if_cong)

lemma release_behaviour_witness:
  "fst (ReleaseExpiredReservation (quiet_env 99 0) demo_db 21) = Inl RepoErrBookingNotReserved \<and>
   is_ok (fst (ReleaseExpiredReservation (quiet_env 100 0) demo_db 21)) \<and>
   is_ok (fst (CancelReservation (quiet_env 99 0) demo_db 21))"
  using release_behaviour [OF demo_inv fault_free_quiet, of 99 0 21]
    release_behaviour [OF demo_inv fault_free_quiet, of 100 0 21]
  by (simp add: find_booking_def demo_db_def demo_defs)

text \<open>
  C10. \<open>ExtendReservation\<close> on every branch: only a reserved booking whose deadline has not
  passed is extended, never to an earlier deadline, and its seat is held until the same
  moment.
\<close>

theorem ExtendReservation_behaviour:
  assumes "db_inv d" "fault_free env"
  shows "ExtendReservation env d bid until =
    (if until \<le> clock env 0 then (Inl RepoErrBookingExpired, d) else
     case find_booking d bid of
       None \<Rightarrow> (Inl RepoErrBookingNotFound, d)
     | Some b \<Rightarrow>
         if bStatus b \<noteq> BookingStatusReserved then (Inl RepoErrBookingNotReserved, d)
         else if bExpiresAt b < clock env 1 then (Inl RepoErrBookingExpired, d)
         else if bExpiresAt b < clock env 2 then (Inl RepoErrSeatNotAvailable, d)
         else if bExpiresAt b \<le> tx_time env then (Inl RepoErrBookingNotReserved, d)
         else (Inr ((scan_booking b)\<lparr>bExpiresAt := max (bExpiresAt b) until\<rparr>),
               touch b (extend_row (tx_time env) (max (bExpiresAt b) until))
                 (hold_seat (max (bExpiresAt b) until)) (\<lambda>e. e) d))"
  by (rule extend_spec) (rule assms)+

lemma ExtendReservation_behaviour_witness:
  "map_sum id bExpiresAt (fst (ExtendReservation (quiet_env 50 0) demo_db 21 500)) = Inr 500 \<and>
   map_sum id bExpiresAt (fst (ExtendReservation (quiet_env 50 0) demo_db 21 60)) = Inr 100"
  by (simp add: ExtendReservation_behaviour demo_inv)
    (simp add: find_booking_def demo_db_def demo_defs)

text \<open>
  C11. \<open>RevertFailedPurchase\<close> on every branch: only a purchased booking is taken back, its
  seat becomes available and the event's counter goes up by one.
\<close>

theorem RevertFailedPurchase_behaviour:
  assumes "db_inv d" "fault_free env"
  shows "RevertFailedPurchase env d bid = (case find_booking d bid of
       None \<Rightarrow> (Inl RepoErrBookingNotFound, d)
     | Some b \<Rightarrow>
         if bStatus b \<noteq> BookingStatusPurchased then (Inl RepoErrBookingNotPurchased, d)
         else (Inr ((scan_booking b)\<lparr>bStatus := BookingStatusCancelled, bPurchasedAt := None,
                       bPaymentIntentID := None\<rparr>),
               touch b (revert_row (tx_time env)) free_seat (give_back (tx_time env)) d))"
  by (rule revert_spec) (rule assms)+

lemma RevertFailedPurchase_behaviour_witness:
  "map_sum id bStatus (fst (RevertFailedPurchase (quiet_env 50 0) demo_db 22)) =
     Inr BookingStatusCancelled \<and>
   fst (RevertFailedPurchase (quiet_env 50 0) demo_db 21) = Inl RepoErrBookingNotPurchased"
  by (simp add: RevertFailedPurchase_behaviour demo_inv)
    (simp add: find_booking_def demo_db_def demo_defs)

section \<open>Sequences of operations\<close>

text \<open>
  Purchasing is idempotent: after a purchase that succeeded, another one succeeds
  whenever its driver calls do (even after the deadline), returns the same booking and
  leaves the database as it is.
\<close>

lemma CompletePurchase_idempotent:
  assumes inv: "db_inv d" and p: "CompletePurchase env d bid = (Inr b, d')" and ff: "fault_free env'"
  shows "CompletePurchase env' d' bid = (Inr b, d')"
proof -
  have again: "CompletePurchase env' d1 (bID c) = (Inr (scan_booking c), d1)"
    if "find_booking d1 (bID c) = Some c" "bStatus c = BookingStatusPurchased" for d1 c
    using that by (simp add: CompletePurchase_def run_tx_ff ff completePurchaseTx_def findBooking_ff)
  from run_tx_Inr [OF p [unfolded CompletePurchase_def]]
  have "completePurchaseTx env bid d = Inr (b, d')" by simp
  then show ?thesis
  proof (cases rule: completePurchaseTx_Inr [OF inv, consumes 1, case_names already completed])
    case (already c)
    with again [of d c] find_booking_in [OF inv already(1)] show ?thesis by simp
  next
    case (completed c)
    let ?c = "purchase_row (tx_time env) c"
    have "scan_booking ?c = purchase_row (tx_time env) (scan_booking c)"
      by (simp add: purchase_row_def scan_booking_def applyBookingNullables_def Let_def split: option.splits)
    with again [of d' ?c] find_booking_touch [OF inv completed(1)] completed show ?thesis
      by (simp add: purchase_row_def)
  qed
qed

lemma CompletePurchase_idempotent_witness:
  "fst (CompletePurchase (quiet_env 500 0)
     (snd (CompletePurchase (quiet_env 50 0) demo_db 21)) 21) =
   fst (CompletePurchase (quiet_env 50 0) demo_db 21) \<and>
   is_ok (fst (CompletePurchase (quiet_env 50 0) demo_db 21))"
proof -
  obtain b d' where p: "CompletePurchase (quiet_env 50 0) demo_db 21 = (Inr b, d')"
    by (simp add: purchase_spec [OF demo_inv])
      (simp add: find_booking_def demo_db_def demo_defs)
  from CompletePurchase_idempotent [OF demo_inv p, of "quiet_env 500 0"] p show ?thesis by simp
qed

text \<open>
  Cancelling a fresh reservation undoes it: the cancellation succeeds, every seat and
  every event counter is as it was before the reservation, and the history keeps exactly one
  cancelled booking more.
\<close>

lemma reserve_then_cancel:
  assumes inv: "db_inv d" and r: "CreateReservation env d u ev num until = (Inr b, d1)"
    and ff: "fault_free env'"
  shows "\<exists>b' d2. CancelReservation env' d1 (bID b) = (Inr b', d2) \<and>
     map sStatus (seats d2) = map sStatus (seats d) \<and>
     map sReservedUntil (seats d2) = map sReservedUntil (seats d) \<and>
     map eAvailableSeats (events d2) = map eAvailableSeats (events d) \<and>
     bookings d2 = bookings d @ [release_row (tx_time env') BookingStatusCancelled b]"
proof -
  from run_tx_Inr [OF r [unfolded CreateReservation_def]]
  have "createReservationTx env u ev num until d = Inr (b, d1)" by simp
  from createReservationTx_Inr [OF inv this] obtain e s where
    s: "s \<in> set (seats d)" "sStatus s = SeatStatusAvailable" "bSeatID b = sID s"
    and fresh: "bID b \<notin> bID ` set (bookings d)" and st: "bStatus b = BookingStatusReserved"
    and d1: "d1 = reserve_db (tx_time env) b d"
    by (metis new_booking_def Booking.select_convs(1,4,5))
  have inv1: "db_inv d1"
    using db_run.step_inv [OF inv, of "TxReserve env u ev num until"] r by simp
  have b1: "b \<in> set (bookings d1)" by (simp add: d1)
  let ?d2 = "touch b (release_row (tx_time env') BookingStatusCancelled) free_seat
    (give_back (tx_time env')) d1"
  have c: "fst (CancelReservation env' d1 (bID b)) = Inr ((scan_booking b)\<lparr>bStatus := BookingStatusCancelled\<rparr>)"
    "snd (CancelReservation env' d1 (bID b)) = ?d2"
    by (simp_all add: CancelReservation_def release_spec [OF inv1 ff] find_booking_in [OF inv1 b1] st)
  have only: "sStatus x = SeatStatusAvailable \<and> sReservedUntil x = None"
    if "x \<in> set (seats d)" "sID x = sID s" for x
    using key_inj [OF keys_okD(2) [OF inv] that(1) s(1) that(2)] s(2) available_free [OF inv s(1,2)]
    by simp
  have "map sStatus (seats ?d2) = map sStatus (seats d)"
    "map sReservedUntil (seats ?d2) = map sReservedUntil (seats d)"
    using only s(3)
    by (auto simp: d1 sql_update_def free_seat_def reserve_row_def)
  moreover have "map eAvailableSeats (events ?d2) = map eAvailableSeats (events d)"
    by (auto simp: d1 sql_update_def give_back_def take_away_def)
  moreover have "bookings ?d2 = bookings d @ [release_row (tx_time env') BookingStatusCancelled b]"
  proof -
    have "bID x \<noteq> bID b" if "x \<in> set (bookings d)" for x using fresh that by (metis imageI)
    then show ?thesis by (simp add: d1 sql_update_def map_idI)
  qed
  ultimately show ?thesis using c by (metis prod.collapse)
qed

lemma reserve_then_cancel_witness:
  "\<exists>b d1 b' d2. CreateReservation (quiet_env 50 60) demo_db 1 3 ''R1-S1'' 90 = (Inr b, d1) \<and>
     CancelReservation (quiet_env 55 0) d1 (bID b) = (Inr b', d2) \<and>
     map eAvailableSeats (events d2) = [1]"
proof -
  obtain b d1 where r: "CreateReservation (quiet_env 50 60) demo_db 1 3 ''R1-S1'' 90 = (Inr b, d1)"
    by (simp add: reserve_spec [OF demo_inv])
      (simp add: find_event_def find_seat_def demo_db_def demo_defs Let_def new_booking_def)
  have "map eAvailableSeats (events demo_db) = [1]" by (simp add: demo_db_def demo_defs)
  with reserve_then_cancel [OF demo_inv r fault_free_quiet, of 55 0] r show ?thesis by metis
qed

definition has_intent :: "Booking \<Rightarrow> bool" where
  "has_intent b \<longleftrightarrow> (case bPaymentIntentID b of None \<Rightarrow> False | Some i \<Rightarrow> i \<noteq> '''')"

lemma SetPaymentIntentID_Inr:
  assumes inv: "db_inv d" and i: "i \<noteq> ''''" and r: "SetPaymentIntentID env d bid i = (Inr b, d1)"
  obtains row where "find_booking d1 bid = Some row" "b = scan_booking row" "has_intent row"
    "db_inv d1"
proof -
  let ?p = "\<lambda>b. bID b = bid \<and> (bStatus b = BookingStatusReserved \<or> bStatus b = BookingStatusPurchased) \<and>
      (bPaymentIntentID b = None \<or> bPaymentIntentID b = Some '''')"
  let ?f = "\<lambda>b. b\<lparr>bPaymentIntentID := Some i, bUpdatedAt := tx_time env\<rparr>"
  have inv1: "db_inv d1" using db_run.step_inv [OF inv, of "TxSetPaymentIntent env bid i"] r by simp
  from r have d1: "d1 = bookings_update (sql_update ?p ?f) d"
    and b: "booking_FindByID env (Stmt 2) d1 bid = Inr b"
    and n: "rows_affected ?p (bookings d) = 0 \<Longrightarrow> has_intent b"
    by (auto simp: SetPaymentIntentID_def Let_def has_intent_def ebind_Inr_iff
        split: prod.splits sum.splits if_splits option.splits dest!: auto_commit_Inr)
  from FindByID_Inr [OF b] obtain row where row: "find_booking d1 bid = Some row" "b = scan_booking row"
    by blast
  have "has_intent row"
  proof (cases "rows_affected ?p (bookings d) = 0")
    case True
    with n row(2) show ?thesis by (auto simp: has_intent_def split: option.splits if_splits)
  next
    case False
    then obtain x where x: "x \<in> set (bookings d)" "?p x" by (auto simp: rows_affected_0)
    then have "?f x \<in> set (bookings d1)" by (force simp: d1 set_sql_update)
    from find_booking_in [OF inv1 this] x row(1) have "row = ?f x" by simp
    then show ?thesis using i by (simp add: has_intent_def)
  qed
  with row inv1 that show thesis by blast
qed

text \<open>
  A booking's payment intent is set once: after a call of \<open>SetPaymentIntentID\<close> that
  succeeded, a later one with any other intent returns the booking with the first intent and
  changes nothing.
\<close>

lemma payment_intent_set_once:
  assumes inv: "db_inv d" and i: "i \<noteq> ''''" and r: "SetPaymentIntentID env d bid i = (Inr b, d1)"
    and ff: "fault_free env'"
  shows "SetPaymentIntentID env' d1 bid j = (Inr b, d1) \<and> has_intent b"
proof -
  obtain row where row: "find_booking d1 bid = Some row" "b = scan_booking row" "has_intent row"
    "db_inv d1" using SetPaymentIntentID_Inr [OF inv i r] .
  let ?p = "\<lambda>b. bID b = bid \<and> (bStatus b = BookingStatusReserved \<or> bStatus b = BookingStatusPurchased) \<and>
      (bPaymentIntentID b = None \<or> bPaymentIntentID b = Some '''')"
  have none: "\<not> ?p x" if "x \<in> set (bookings d1)" for x
    using find_booking_in [OF row(4) that] row(1,3) by (auto simp: has_intent_def)
  then have n: "rows_affected ?p (bookings d1) = 0" by (auto simp: rows_affected_0)
  have u: "bookings_update (sql_update ?p f) d1 = d1" for f
  proof -
    have "sql_update ?p f (bookings d1) = bookings d1" by (rule sql_update_none) (rule none)
    then show ?thesis by (cases d1) simp
  qed
  have hb: "has_intent b" using row(2,3) by (auto simp: has_intent_def split: option.splits)
  then have "SetPaymentIntentID env' d1 bid j = (Inr b, d1)"
    unfolding SetPaymentIntentID_def Let_def auto_commit_def commit_def n u
    by (simp add: ff FindByID_ff row(1,2) has_intent_def)
  with hb show ?thesis by simp
qed

lemma payment_intent_set_once_witness:
  "map_sum id bPaymentIntentID (fst (SetPaymentIntentID (quiet_env 60 0)
     (snd (SetPaymentIntentID (quiet_env 50 0) demo_db 21 ''pi_1'')) 21 ''pi_2'')) = Inr (Some ''pi_1'')"
proof -
  let ?r = "SetPaymentIntentID (quiet_env 50 0) demo_db 21 ''pi_1''"
  have f: "map_sum id bPaymentIntentID (fst ?r) = Inr (Some ''pi_1'')"
    by (simp add: SetPaymentIntentID_def Let_def auto_commit_def commit_def booking_FindByID_def
        no_rows_as_def demo_db_def demo_defs sql_update_def sql_select_def query_row_def
        rows_affected_def)
  then obtain b d1 where r: "?r = (Inr b, d1)" by (cases ?r; cases "fst ?r") auto
  from payment_intent_set_once [OF demo_inv _ r fault_free_quiet, of 60 0 "''pi_2''"] f r
  show ?thesis by simp
qed

section \<open>Creating the seats of an event\<close>

definition bulk_seat :: "tenv \<Rightarrow> uuid \<Rightarrow> nat \<Rightarrow> Seat" where
  "bulk_seat env ev i = \<lparr>sID = new_uuid env i, sEventID = ev,
     sSeatNumber = formatSeatNumber (int i), sRowNumber = None, sSection = None,
     sStatus = SeatStatusAvailable, sReservedAt = None, sReservedUntil = None,
     sCreatedAt = clock env i\<rparr>"

lemma insert_seats_ff:
  assumes "fault_free env" "ev \<in> eID ` set (events d)" "inj_on (new_uuid env) {i..<i + n}" "1 \<le> i"
    "\<And>k. i \<le> k \<Longrightarrow> k < i + n \<Longrightarrow> new_uuid env k \<notin> sID ` set (seats d)"
    "\<And>s. s \<in> set (seats d) \<Longrightarrow> sEventID s = ev \<Longrightarrow>
      \<exists>j. 1 \<le> j \<and> j < i \<and> sSeatNumber s = formatSeatNumber (int j)"
  shows "insert_seats env ev i n d =
    Inr (seats_update (\<lambda>t. t @ map (bulk_seat env ev) [i..<i + n]) d)"
  using assms
proof (induction n arbitrary: i d)
  case 0
  then show ?case by simp
next
  case (Suc n)
  let ?d = "seats_update (\<lambda>t. t @ [bulk_seat env ev i]) d"
  have num: "sSeatNumber s \<noteq> formatSeatNumber (int i)" if s: "s \<in> set (seats d)" "sEventID s = ev" for s
  proof
    assume eq: "sSeatNumber s = formatSeatNumber (int i)"
    from Suc.prems(6) [OF s] obtain j where "1 \<le> j" "j < i" "sSeatNumber s = formatSeatNumber (int j)"
      by blast
    with eq formatSeatNumber_inj [of "int j" "int i"] Suc.prems(4) show False by simp
  qed
  have "insert_seat (bulk_seat env ev i) d = Inr ?d"
    unfolding insert_Inr_iff(4)
  proof (intro conjI)
    show "(sEventID (bulk_seat env ev i), sSeatNumber (bulk_seat env ev i)) \<notin>
        (\<lambda>r. (sEventID r, sSeatNumber r)) ` set (seats d)"
    proof
      assume "(sEventID (bulk_seat env ev i), sSeatNumber (bulk_seat env ev i)) \<in>
        (\<lambda>r. (sEventID r, sSeatNumber r)) ` set (seats d)"
      then obtain s where "s \<in> set (seats d)" "sEventID s = ev" "sSeatNumber s = formatSeatNumber (int i)"
        by (auto simp: bulk_seat_def)
      with num show False by blast
    qed
  qed (use Suc.prems(2) Suc.prems(5) [of i] in \<open>simp_all add: bulk_seat_def sql_insert_def [abs_def]\<close>)
  moreover have "insert_seats env ev (Suc i) n ?d =
      Inr (seats_update (\<lambda>t. t @ map (bulk_seat env ev) [Suc i..<Suc i + n]) ?d)"
  proof (rule Suc.IH)
    show "fault_free env" "ev \<in> eID ` set (events ?d)" "1 \<le> Suc i"
      using Suc.prems(1,2,4) by simp_all
    show "inj_on (new_uuid env) {Suc i..<Suc i + n}"
      by (rule inj_on_subset [OF Suc.prems(3)]) auto
    show "new_uuid env k \<notin> sID ` set (seats ?d)" if "Suc i \<le> k" "k < Suc i + n" for k
      using that Suc.prems(5) [of k] inj_onD [OF Suc.prems(3), of k i] by (auto simp: bulk_seat_def)
    show "\<exists>j\<ge>1. j < Suc i \<and> sSeatNumber s = formatSeatNumber (int j)"
      if "s \<in> set (seats ?d)" "sEventID s = ev" for s
    proof (cases "s = bulk_seat env ev i")
      case True
      with Suc.prems(4) show ?thesis by (intro exI [of _ i]) (simp add: bulk_seat_def)
    next
      case False
      with that(1) have "s \<in> set (seats d)" by simp
      from Suc.prems(6) [OF this that(2)] show ?thesis by (meson less_Suc_eq)
    qed
  qed
  moreover have "[i..<i + Suc n] = i # [Suc i..<Suc i + n]" by (simp add: upt_conv_Cons)
  ultimately show ?case using Suc.prems(1) by (simp add: bulk_seat_def comp_def)
qed

text \<open>
  Creating the seats of an event without seats succeeds when its driver calls do and
  its UUIDs are fresh: \<open>n\<close> available seats are added, numbered in order, and no two have the
  same number.
\<close>

lemma CreateBulkSeats_creates:
  assumes "fault_free env" "ev \<in> eID ` set (events d)"
    and "\<forall>s\<in>set (seats d). sEventID s \<noteq> ev"
    and "inj_on (new_uuid env) {1..<1 + n}"
    and "\<forall>k\<in>{1..<1 + n}. new_uuid env k \<notin> sID ` set (seats d)"
  shows "CreateBulkSeats env d ev (int n) =
     (Inr (), seats_update (\<lambda>t. t @ map (bulk_seat env ev) [1..<1 + n]) d) \<and>
   distinct (map sSeatNumber (map (bulk_seat env ev) [1..<1 + n]))"
proof
  have "insert_seats env ev 1 n d = Inr (seats_update (\<lambda>t. t @ map (bulk_seat env ev) [1..<1 + n]) d)"
    by (rule insert_seats_ff) (use assms in auto)
  then show "CreateBulkSeats env d ev (int n) =
     (Inr (), seats_update (\<lambda>t. t @ map (bulk_seat env ev) [1..<1 + n]) d)"
    using assms(1) by (simp add: CreateBulkSeats_def run_tx_ff)
  have "inj_on (\<lambda>i. sSeatNumber (bulk_seat env ev i)) {1..<1 + n}"
  proof (rule inj_onI)
    fix x y :: nat
    assume "x \<in> {1..<1 + n}" "y \<in> {1..<1 + n}"
      "sSeatNumber (bulk_seat env ev x) = sSeatNumber (bulk_seat env ev y)"
    with formatSeatNumber_inj [of "int x" "int y"] show "x = y" by (simp add: bulk_seat_def)
  qed
  then show "distinct (map sSeatNumber (map (bulk_seat env ev) [1..<1 + n]))"
    unfolding map_map distinct_map set_upt comp_def by simp
qed

end
