(* ===== verification/Expiry_Queue.thy ===== *)
theory Expiry_Queue
  imports Go_Strings "HOL-Library.List_Lexorder" "HOL-Library.Char_ord"
    "HOL-Library.Product_Lexorder"
begin

text \<open>
  internal/queue/expiry_queue.go and expiry_partition.go: the reservation deadlines in two
  Redis sorted sets, and the Lua script that claims the due ones for a partition. A sorted
  set is the list of its members with their scores, ordered by score and then by member,
  as Redis orders them; the script runs atomically, as Redis runs it.
\<close>

section \<open>Sorted sets\<close>

type_synonym zset = "(string \<times> int) list"

definition ZREM :: "string \<Rightarrow> zset \<Rightarrow> zset" where
  "ZREM m z = filter (\<lambda>(i, _). i \<noteq> m) z"

definition ZADD :: "int \<Rightarrow> string \<Rightarrow> zset \<Rightarrow> zset" where
  "ZADD score m z = insort_key (\<lambda>(i, s). (s, i)) (m, score) (ZREM m z)"

text \<open>\<open>ZRANGEBYSCORE key -inf hi LIMIT 0 n\<close>\<close>

definition ZRANGEBYSCORE :: "int \<Rightarrow> nat \<Rightarrow> zset \<Rightarrow> string list" where
  "ZRANGEBYSCORE hi n z = take n (map fst (filter (\<lambda>(_, s). s \<le> hi) z))"

definition members :: "zset \<Rightarrow> string set" where
  "members z = fst ` set z"

definition zset_ok :: "zset \<Rightarrow> bool" where
  "zset_ok z \<longleftrightarrow> distinct (map fst z)"

lemma set_ZREM: "set (ZREM m z) = {p \<in> set z. fst p \<noteq> m}"
  by (auto simp: ZREM_def)

lemma set_ZADD: "set (ZADD s m z) = insert (m, s) {p \<in> set z. fst p \<noteq> m}"
  by (simp add: ZADD_def set_insort_key set_ZREM)

lemma members_Z [simp]: "members (ZREM m z) = members z - {m}" "members (ZADD s m z) = insert m (members z)"
  by (auto simp: members_def set_ZREM set_ZADD image_iff)

lemma distinct_fst_insort: "distinct (map fst (insort_key f x xs)) \<longleftrightarrow> distinct (map fst (x # xs))"
  by (induction xs) (auto simp: set_insort_key)

lemma zset_ok_Z [simp]:
  "zset_ok z \<Longrightarrow> zset_ok (ZREM m z)" "zset_ok z \<Longrightarrow> zset_ok (ZADD s m z)"
proof -
  assume z: "zset_ok z"
  have r: "distinct (map fst (ZREM m z))"
    using z unfolding zset_ok_def ZREM_def by (rule distinct_map_filter)
  then show "zset_ok (ZREM m z)" by (simp add: zset_ok_def)
  from r show "zset_ok (ZADD s m z)"
    by (auto simp: zset_ok_def ZADD_def distinct_fst_insort set_ZREM)
qed

lemma ZRANGE_member: "m \<in> set (ZRANGEBYSCORE hi n z) \<Longrightarrow> \<exists>s. (m, s) \<in> set z \<and> s \<le> hi"
  unfolding ZRANGEBYSCORE_def by (drule in_set_takeD) fastforce

lemma ZRANGE_distinct: "zset_ok z \<Longrightarrow> distinct (ZRANGEBYSCORE hi n z)"
  unfolding ZRANGEBYSCORE_def zset_ok_def by (intro distinct_take distinct_map_filter)

section \<open>The queue\<close>

definition ExpiryPollBatchSize :: int where "ExpiryPollBatchSize = 100"
definition ExpiryClaimVisibilityTimeout :: duration where
  "ExpiryClaimVisibilityTimeout = 2 * Minute"
definition ExpiryClaimScanMultiplier :: int where "ExpiryClaimScanMultiplier = 10"
definition ExpiryClaimScanMax :: int where "ExpiryClaimScanMax = 1000"

text \<open>The sets \<open>reservation:expiry\<close> and \<open>reservation:expiry:inflight\<close>.\<close>

record expiry =
  pending :: zset
  inflight :: zset

definition no_expiry :: expiry where
  "no_expiry = \<lparr>pending = [], inflight = []\<rparr>"

definition expiry_ok :: "expiry \<Rightarrow> bool" where
  "expiry_ok q \<longleftrightarrow> zset_ok (pending q) \<and> zset_ok (inflight q)"

text \<open>
  Redis may be missing (\<open>q.redis == nil\<close>), or a call may fail, before or after the server
  carried it out: \<open>redis_call\<close> runs one command, script or pipeline under such a fault.
\<close>

type_synonym redis_fault = "(err \<times> bool) option"

definition redis_call :: "redis_fault \<Rightarrow> ('s \<Rightarrow> 'a \<times> 's) \<Rightarrow> 's \<Rightarrow> 'a res \<times> 's" where
  "redis_call f cmd s = (case f of
       None \<Rightarrow> (Inr (fst (cmd s)), snd (cmd s))
     | Some (e, executed) \<Rightarrow> (Inl e, if executed then snd (cmd s) else s))"

definition expiry_Add ::
  "bool \<Rightarrow> redis_fault \<Rightarrow> string \<Rightarrow> time \<Rightarrow> expiry \<Rightarrow> unit res \<times> expiry" where
  "expiry_Add redis f bookingID releaseAt q =
     (if \<not> redis then (Inl (Foreign ''redis not available''), q)
      else redis_call f (\<lambda>q. ((), pending_update (ZADD (Unix releaseAt) bookingID) q)) q)"

definition expiry_Remove ::
  "bool \<Rightarrow> redis_fault \<Rightarrow> string \<Rightarrow> expiry \<Rightarrow> unit res \<times> expiry" where
  "expiry_Remove redis f bookingID q =
     (if \<not> redis then (Inr (), q)
      else redis_call f (\<lambda>q. ((),
        inflight_update (ZREM bookingID) (pending_update (ZREM bookingID) q))) q)"

section \<open>Partitions\<close>

definition byte :: "char \<Rightarrow> int" where
  "byte c = int (of_char c)"

text \<open>\<open>ExpiryPartitionIndex\<close> of expiry_partition.go.\<close>

fun go_hash :: "int \<Rightarrow> string \<Rightarrow> int" where
  "go_hash h [] = h"
| "go_hash h (c # cs) = go_hash (go_mod (h * 31 + byte c) 2147483647) cs"

definition ExpiryPartitionIndex :: "string \<Rightarrow> int \<Rightarrow> int" where
  "ExpiryPartitionIndex member partitionCount =
     (if partitionCount \<le> 1 then 0 else go_mod (go_hash 0 member) partitionCount)"

text \<open>The same hash in the Lua script, whose \<open>%\<close> rounds towards minus infinity.\<close>

fun lua_hash :: "int \<Rightarrow> string \<Rightarrow> int" where
  "lua_hash h [] = h"
| "lua_hash h (c # cs) = lua_hash ((h * 31 + byte c) mod 2147483647) cs"

definition expiry_partition_index :: "int \<Rightarrow> string \<Rightarrow> int" where
  "expiry_partition_index partition_count m = lua_hash 0 m mod partition_count"

definition belongs_to_partition :: "int \<Rightarrow> int \<Rightarrow> string \<Rightarrow> bool" where
  "belongs_to_partition partition_index partition_count m \<longleftrightarrow>
     expiry_partition_index partition_count m = partition_index"

lemma hash_bounds: "0 \<le> h \<Longrightarrow> 0 \<le> lua_hash h m"
  by (induction m arbitrary: h) auto

lemma byte_bounds: "0 \<le> byte c" "byte c < 256"
  using nat_of_char_less_256 [of c] by (simp_all add: byte_def del: nat_of_char_less_256)

lemma go_hash_lua: "0 \<le> h \<Longrightarrow> go_hash h m = lua_hash h m"
  by (induction m arbitrary: h) (simp_all add: go_mod_nonneg byte_bounds)

lemma hash_agrees: "0 < n \<Longrightarrow> ExpiryPartitionIndex m n = expiry_partition_index n m"
proof -
  assume n: "0 < n"
  show ?thesis
  proof (cases "n = 1")
    case False
    with n hash_bounds [of 0 m] show ?thesis
      by (simp add: ExpiryPartitionIndex_def expiry_partition_index_def go_hash_lua go_mod_nonneg)
  qed (simp add: ExpiryPartitionIndex_def expiry_partition_index_def)
qed

lemma ExpiryPartitionIndex_range:
  assumes "0 < n" shows "0 \<le> ExpiryPartitionIndex m n" "ExpiryPartitionIndex m n < n"
  using assms by (simp_all add: hash_agrees expiry_partition_index_def)

section \<open>claimExpiryScript and PollDue\<close>

definition scan_limit :: "int \<Rightarrow> int" where
  "scan_limit limit =
     (let a = limit * ExpiryClaimScanMultiplier;
          b = (if ExpiryClaimScanMax < a then ExpiryClaimScanMax else a)
      in if b < limit then limit else b)"

fun requeue_stale :: "(string \<Rightarrow> bool) \<Rightarrow> int \<Rightarrow> string list \<Rightarrow> expiry \<Rightarrow> expiry" where
  "requeue_stale mine now [] q = q"
| "requeue_stale mine now (m # ms) q = requeue_stale mine now ms
     (if mine m then pending_update (ZADD now m) (inflight_update (ZREM m) q) else q)"

fun claim_due ::
  "(string \<Rightarrow> bool) \<Rightarrow> int \<Rightarrow> int \<Rightarrow> string list \<Rightarrow> string list \<Rightarrow> expiry \<Rightarrow> string list \<times> expiry" where
  "claim_due mine limit until claimed [] q = (claimed, q)"
| "claim_due mine limit until claimed (m # ms) q =
     (if mine m then
        let q' = inflight_update (ZADD until m) (pending_update (ZREM m) q);
            claimed' = claimed @ [m]
        in if limit \<le> int (length claimed') then (claimed', q')
           else claim_due mine limit until claimed' ms q'
      else claim_due mine limit until claimed ms q)"

definition claimExpiryScript ::
  "int \<Rightarrow> int \<Rightarrow> int \<Rightarrow> int \<Rightarrow> int \<Rightarrow> int \<Rightarrow> expiry \<Rightarrow> string list \<times> expiry" where
  "claimExpiryScript now stale_before claim_until limit partition_index partition_count q =
     (let mine = belongs_to_partition partition_index partition_count;
          n = nat (scan_limit limit);
          q1 = requeue_stale mine now (ZRANGEBYSCORE stale_before n (inflight q)) q
      in claim_due mine limit claim_until [] (ZRANGEBYSCORE now n (pending q1)) q1)"

definition PollDue ::
  "bool \<Rightarrow> redis_fault \<Rightarrow> time \<Rightarrow> int \<Rightarrow> int \<Rightarrow> int \<Rightarrow> expiry \<Rightarrow> string list res \<times> expiry" where
  "PollDue redis f now limit partitionIndex partitionCount q =
     (if \<not> redis then (Inl (Foreign ''redis not available''), q)
      else let limit' = (if limit \<le> 0 then ExpiryPollBatchSize else limit) in
      if partitionCount \<le> 0 then (Inl (Foreign ''partition count must be positive''), q)
      else if partitionIndex < 0 \<or> partitionCount \<le> partitionIndex
        then (Inl (Foreign ''partition index out of range''), q)
      else redis_call f (claimExpiryScript (Unix now) (Unix (now - ExpiryClaimVisibilityTimeout))
             (Unix (now + ExpiryClaimVisibilityTimeout)) limit' partitionIndex partitionCount) q)"

section \<open>What the script does\<close>

definition tracked :: "expiry \<Rightarrow> string set" where
  "tracked q = members (pending q) \<union> members (inflight q)"

definition claim_one :: "int \<Rightarrow> string \<Rightarrow> expiry \<Rightarrow> expiry" where
  "claim_one until m q = inflight_update (ZADD until m) (pending_update (ZREM m) q)"

lemma claim_due_eq:
  "int (length claimed) < limit \<Longrightarrow>
   claim_due mine limit until claimed ms q =
     (let ids = take (nat limit - length claimed) (filter mine ms)
      in (claimed @ ids, fold (claim_one until) ids q))"
proof (induction ms arbitrary: claimed q)
  case (Cons m ms)
  show ?case
  proof (cases "mine m")
    case False
    with Cons show ?thesis by simp
  next
    case True
    show ?thesis
    proof (cases "limit \<le> int (length claimed) + 1")
      case last: True
      with Cons.prems have "nat limit - length claimed = 1" by linarith
      with True last show ?thesis by (simp add: Let_def claim_one_def)
    next
      case False
      then have n: "nat limit - length claimed = Suc (nat limit - length (claimed @ [m]))" by simp
      have "int (length (claimed @ [m])) < limit" using False by simp
      from Cons.IH [OF this] True False show ?thesis unfolding n by (simp add: Let_def claim_one_def)
    qed
  qed
qed simp

lemma fold_claim_members:
  "set ids \<subseteq> members (pending q) \<Longrightarrow> expiry_ok q \<Longrightarrow>
   expiry_ok (fold (claim_one until) ids q) \<and>
   members (pending (fold (claim_one until) ids q)) = members (pending q) - set ids \<and>
   members (inflight (fold (claim_one until) ids q)) = members (inflight q) \<union> set ids \<and>
   set (inflight (fold (claim_one until) ids q)) =
     {p \<in> set (inflight q). fst p \<notin> set ids} \<union> (\<lambda>m. (m, until)) ` set ids"
proof (induction ids rule: rev_induct)
  case (snoc m ids)
  then show ?case
    by (auto simp: claim_one_def expiry_ok_def set_ZADD)
qed simp

lemma requeue_stale_props:
  "set ms \<subseteq> members (inflight q) \<Longrightarrow> distinct ms \<Longrightarrow> expiry_ok q \<Longrightarrow>
   expiry_ok (requeue_stale mine now ms q) \<and>
   tracked (requeue_stale mine now ms q) = tracked q \<and>
   set (inflight (requeue_stale mine now ms q)) =
     {p \<in> set (inflight q). \<not> (fst p \<in> set ms \<and> mine (fst p))} \<and>
   set (pending (requeue_stale mine now ms q)) =
     {p \<in> set (pending q). \<not> (fst p \<in> set ms \<and> mine (fst p))} \<union>
     (\<lambda>m. (m, now)) ` {m \<in> set ms. mine m}"
proof (induction ms arbitrary: q)
  case (Cons m ms)
  let ?q = "if mine m then pending_update (ZADD now m) (inflight_update (ZREM m) q) else q"
  have "expiry_ok ?q" using Cons.prems(3) by (simp add: expiry_ok_def)
  moreover have "set ms \<subseteq> members (inflight ?q)" using Cons.prems(1,2) by auto
  moreover have "tracked ?q = tracked q" using Cons.prems(1) by (auto simp: tracked_def)
  ultimately show ?case
    using Cons.IH [of ?q] Cons.prems(2) by (auto simp: set_ZADD set_ZREM)
qed (simp add: expiry_ok_def)

definition stale_ids :: "int \<Rightarrow> int \<Rightarrow> expiry \<Rightarrow> string list" where
  "stale_ids stale_before limit q = ZRANGEBYSCORE stale_before (nat (scan_limit limit)) (inflight q)"

definition after_requeue :: "int \<Rightarrow> int \<Rightarrow> int \<Rightarrow> int \<Rightarrow> int \<Rightarrow> expiry \<Rightarrow> expiry" where
  "after_requeue now stale_before limit i n q =
     requeue_stale (belongs_to_partition i n) now (stale_ids stale_before limit q) q"

definition due_ids :: "int \<Rightarrow> int \<Rightarrow> int \<Rightarrow> int \<Rightarrow> expiry \<Rightarrow> string list" where
  "due_ids now limit i n q = take (nat limit) (filter (belongs_to_partition i n)
     (ZRANGEBYSCORE now (nat (scan_limit limit)) (pending q)))"

text \<open>The script as a function: requeue the stale claims, then claim the first due members.\<close>

lemma claimExpiryScript_eq:
  "0 < limit \<Longrightarrow> claimExpiryScript now stale_before claim_until limit i n q =
     (let q1 = after_requeue now stale_before limit i n q; ids = due_ids now limit i n q1
      in (ids, fold (claim_one claim_until) ids q1))"
  by (simp add: claimExpiryScript_def claim_due_eq Let_def after_requeue_def stale_ids_def due_ids_def)

lemma ZRANGE_subset: "set (ZRANGEBYSCORE hi n z) \<subseteq> members z"
  using ZRANGE_member by (force simp: members_def)

lemma due_ids_props:
  assumes "expiry_ok q"
  shows "distinct (due_ids now limit i n q)" "set (due_ids now limit i n q) \<subseteq> members (pending q)"
    "m \<in> set (due_ids now limit i n q) \<Longrightarrow> belongs_to_partition i n m \<and> (\<exists>s\<le>now. (m, s) \<in> set (pending q))"
proof -
  show "distinct (due_ids now limit i n q)"
    using assms unfolding due_ids_def expiry_ok_def
    by (intro distinct_take distinct_filter ZRANGE_distinct) simp
  show "set (due_ids now limit i n q) \<subseteq> members (pending q)"
    using ZRANGE_subset unfolding due_ids_def by (fastforce dest: in_set_takeD)
  show "belongs_to_partition i n m \<and> (\<exists>s\<le>now. (m, s) \<in> set (pending q))"
    if "m \<in> set (due_ids now limit i n q)"
    using that ZRANGE_member unfolding due_ids_def by (fastforce dest!: in_set_takeD)
qed

lemma after_requeue_props:
  assumes "expiry_ok q"
  shows "expiry_ok (after_requeue now sb limit i n q)"
    "tracked (after_requeue now sb limit i n q) = tracked q"
    "(m, s) \<in> set (pending (after_requeue now sb limit i n q)) \<Longrightarrow>
      (m, s) \<in> set (pending q) \<or> s = now \<and> (\<exists>t\<le> sb. (m, t) \<in> set (inflight q))"
proof -
  have a: "set (stale_ids sb limit q) \<subseteq> members (inflight q)" "distinct (stale_ids sb limit q)"
    using ZRANGE_subset ZRANGE_distinct assms by (auto simp: stale_ids_def expiry_ok_def)
  note p = requeue_stale_props [OF a assms, of "belongs_to_partition i n" now]
  show "expiry_ok (after_requeue now sb limit i n q)" "tracked (after_requeue now sb limit i n q) = tracked q"
    using p by (simp_all add: after_requeue_def)
  show "(m, s) \<in> set (pending q) \<or> s = now \<and> (\<exists>t\<le> sb. (m, t) \<in> set (inflight q))"
    if "(m, s) \<in> set (pending (after_requeue now sb limit i n q))"
  proof -
    from that p have "(m, s) \<in> set (pending q) \<or> s = now \<and> m \<in> set (stale_ids sb limit q)"
      unfolding after_requeue_def by auto
    with ZRANGE_member show ?thesis unfolding stale_ids_def by meson
  qed
qed

section \<open>Histories of the queue\<close>

datatype expiry_op =
    ExpiryAdd redis_fault string time
  | ExpiryRemove redis_fault string
  | ExpiryPoll redis_fault time int int int

fun exec_expiry :: "expiry_op \<Rightarrow> expiry \<Rightarrow> expiry" where
  "exec_expiry (ExpiryAdd f m t) q = snd (expiry_Add True f m t q)"
| "exec_expiry (ExpiryRemove f m) q = snd (expiry_Remove True f m q)"
| "exec_expiry (ExpiryPoll f now limit i n) q = snd (PollDue True f now limit i n q)"

lemma redis_call_inv:
  "P s \<Longrightarrow> P (snd (cmd s)) \<Longrightarrow> P (snd (redis_call f cmd s))"
  by (simp add: redis_call_def split: option.splits)

lemma script_ok:
  assumes "expiry_ok q" "0 < limit"
  shows "expiry_ok (snd (claimExpiryScript now sb cu limit i n q)) \<and>
    tracked (snd (claimExpiryScript now sb cu limit i n q)) = tracked q"
proof -
  let ?q1 = "after_requeue now sb limit i n q"
  note r = after_requeue_props [OF assms(1), where now = now and sb = sb and limit = limit and i = i and n = n]
  note f = fold_claim_members [OF due_ids_props(2) [OF r(1)] r(1), where until = cu]
  from due_ids_props(2) [OF r(1), where now = now and limit = limit and i = i and n = n] f r(2) show ?thesis
    by (auto simp: claimExpiryScript_eq [OF assms(2)] Let_def tracked_def)
qed

lemma PollDue_ok:
  assumes "expiry_ok q"
  shows "expiry_ok (snd (PollDue redis f now limit i n q)) \<and>
    tracked (snd (PollDue redis f now limit i n q)) = tracked q"
proof -
  have "expiry_ok (snd (redis_call f (claimExpiryScript a b c l i n) q)) \<and>
      tracked (snd (redis_call f (claimExpiryScript a b c l i n) q)) = tracked q" if "0 < l" for a b c l
    by (rule redis_call_inv [where P = "\<lambda>s. expiry_ok s \<and> tracked s = tracked q"])
      (use script_ok [OF assms that] assms in simp_all)
  then show ?thesis using assms
    by (simp add: PollDue_def Let_def ExpiryPollBatchSize_def)
qed

lemma exec_expiry_ok:
  assumes "expiry_ok q" shows "expiry_ok (exec_expiry op q)"
proof (cases op)
  case (ExpiryAdd f m t)
  have "expiry_ok (snd (redis_call f (\<lambda>q. ((), pending_update (ZADD (Unix t) m) q)) q))"
    by (rule redis_call_inv) (use assms in \<open>simp_all add: expiry_ok_def\<close>)
  then show ?thesis by (simp add: ExpiryAdd expiry_Add_def)
next
  case (ExpiryRemove f m)
  have "expiry_ok (snd (redis_call f
      (\<lambda>q. ((), inflight_update (ZREM m) (pending_update (ZREM m) q))) q))"
    by (rule redis_call_inv) (use assms in \<open>simp_all add: expiry_ok_def\<close>)
  then show ?thesis by (simp add: ExpiryRemove expiry_Remove_def)
next
  case ExpiryPoll
  then show ?thesis using PollDue_ok [OF assms] by simp
qed

interpretation expiry_run: invariant_system exec_expiry expiry_ok
  by unfold_locales (rule exec_expiry_ok)

lemma no_expiry_ok: "expiry_ok no_expiry"
  by (simp add: no_expiry_def expiry_ok_def zset_ok_def)

fun removes :: "string \<Rightarrow> expiry_op \<Rightarrow> bool" where
  "removes m (ExpiryRemove f m') \<longleftrightarrow> m' = m"
| "removes m _ \<longleftrightarrow> False"

lemma exec_tracked:
  assumes "expiry_ok q" "\<not> removes m op" "m \<in> tracked q"
  shows "m \<in> tracked (exec_expiry op q)"
proof (cases op)
  case (ExpiryAdd f m' t)
  have "m \<in> tracked (snd (redis_call f (\<lambda>q. ((), pending_update (ZADD (Unix t) m') q)) q))"
    by (rule redis_call_inv) (use assms(3) in \<open>auto simp: tracked_def\<close>)
  then show ?thesis by (simp add: ExpiryAdd expiry_Add_def)
next
  case (ExpiryRemove f m')
  have "m \<in> tracked (snd (redis_call f
      (\<lambda>q. ((), inflight_update (ZREM m') (pending_update (ZREM m') q))) q))"
    by (rule redis_call_inv) (use assms(2,3) ExpiryRemove in \<open>auto simp: tracked_def\<close>)
  then show ?thesis by (simp add: ExpiryRemove expiry_Remove_def)
next
  case (ExpiryPoll f now limit i n)
  with assms(3) PollDue_ok [OF assms(1)] show ?thesis by simp
qed

lemma run_tracked:
  "expiry_ok q \<Longrightarrow> list_all (\<lambda>op. \<not> removes m op) ops \<Longrightarrow> m \<in> tracked q \<Longrightarrow>
   m \<in> tracked (run exec_expiry ops q)"
  by (induction ops arbitrary: q) (auto intro: exec_tracked exec_expiry_ok)

text \<open>
  C16. No deadline is lost: a booking whose deadline was added stays in the queue, pending or
  claimed, through every history of additions, polls (of any partition, at any time, with
  any fault) and removals of other bookings, until it is removed itself.
\<close>

theorem no_deadline_lost:
  assumes "list_all (\<lambda>op. \<not> removes m op) later"
  shows "m \<in> tracked (run exec_expiry (earlier @ ExpiryAdd None m t # later) no_expiry)"
proof -
  let ?q = "run exec_expiry earlier no_expiry"
  have ok: "expiry_ok ?q" by (rule expiry_run.run_inv) (rule no_expiry_ok)
  have "m \<in> tracked (exec_expiry (ExpiryAdd None m t) ?q)"
    by (simp add: expiry_Add_def redis_call_def tracked_def)
  from run_tracked [OF exec_expiry_ok [OF ok] assms this] show ?thesis
    by (simp only: run_append run.simps)
qed

lemma no_deadline_lost_witness:
  "''b1'' \<in> tracked (run exec_expiry ([] @ ExpiryAdd None ''b1'' (5 * Second) #
     [ExpiryPoll None (9 * Second) 10 0 1, ExpiryRemove None ''b2'', ExpiryPoll None (600 * Second) 10 0 1])
     no_expiry)"
  by (rule no_deadline_lost) simp

text \<open>
  What a poll that succeeds has done: the stale claims of its partition are requeued, then the
  first due members are claimed.
\<close>

lemma poll_Inr:
  assumes "PollDue True f now limit i n q = (Inr ids, q')"
  defines "l \<equiv> (if limit \<le> 0 then 100 else limit)"
  defines "q1 \<equiv> after_requeue (Unix now) (Unix now - 120) l i n q"
  shows "0 < l" "0 < n" "ids = due_ids (Unix now) l i n q1" "q' = fold (claim_one (Unix now + 120)) ids q1"
proof -
  show l: "0 < l" by (simp add: l_def)
  from assms(1) show "0 < n" by (auto simp: PollDue_def split: if_splits)
  have u: "Unix (now - ExpiryClaimVisibilityTimeout) = Unix now - 120"
    "Unix (now + ExpiryClaimVisibilityTimeout) = Unix now + 120"
    by (simp_all add: Unix_def ExpiryClaimVisibilityTimeout_def Minute_def Second_def)
  from assms(1) have "claimExpiryScript (Unix now) (Unix now - 120) (Unix now + 120) l i n q = (ids, q')"
    by (auto simp: PollDue_def Let_def l_def ExpiryPollBatchSize_def redis_call_def prod_eq_iff u
        split: if_splits option.splits)
  then show "ids = due_ids (Unix now) l i n q1" "q' = fold (claim_one (Unix now + 120)) ids q1"
    unfolding claimExpiryScript_eq [OF l] Let_def q1_def by auto
qed

lemma after_requeue_sets:
  assumes "expiry_ok q" and mv: "mv = {m \<in> set (stale_ids sb limit q). belongs_to_partition i n m}"
  shows "set (inflight (after_requeue now sb limit i n q)) = {p \<in> set (inflight q). fst p \<notin> mv}"
    "set (pending (after_requeue now sb limit i n q)) = {p \<in> set (pending q). fst p \<notin> mv} \<union> (\<lambda>m. (m, now)) ` mv"
    "m \<in> mv \<Longrightarrow> belongs_to_partition i n m \<and> (\<exists>s\<le> sb. (m, s) \<in> set (inflight q))"
proof -
  have a: "set (stale_ids sb limit q) \<subseteq> members (inflight q)" "distinct (stale_ids sb limit q)"
    using ZRANGE_subset ZRANGE_distinct assms(1) by (auto simp: stale_ids_def expiry_ok_def)
  note p = requeue_stale_props [OF a assms(1), of "belongs_to_partition i n" now]
  show "set (inflight (after_requeue now sb limit i n q)) = {p \<in> set (inflight q). fst p \<notin> mv}"
    "set (pending (after_requeue now sb limit i n q)) = {p \<in> set (pending q). fst p \<notin> mv} \<union> (\<lambda>m. (m, now)) ` mv"
    using p by (auto simp: after_requeue_def mv)
  show "belongs_to_partition i n m \<and> (\<exists>s\<le> sb. (m, s) \<in> set (inflight q))" if "m \<in> mv"
    using that ZRANGE_member unfolding mv stale_ids_def by blast
qed

lemma fold_claim_pending:
  "set (pending (fold (claim_one cu) ids q)) = {p \<in> set (pending q). fst p \<notin> set ids}"
  by (induction ids arbitrary: q) (auto simp: claim_one_def set_ZREM)

lemma zset_due_length:
  assumes "zset_ok z"
  shows "length (filter (\<lambda>(_, s). s \<le> hi) z) = card {p \<in> set z. snd p \<le> hi}"
proof -
  have "distinct z" using assms by (simp add: zset_ok_def distinct_map)
  then show ?thesis by (simp add: distinct_length_filter case_prod_beta' Collect_conj_eq Int_commute)
qed

text \<open>Requeueing adds no more due members than there were stale claims.\<close>

definition due_count :: "int \<Rightarrow> expiry \<Rightarrow> int" where
  "due_count now q = int (length (filter (\<lambda>(_, s). s \<le> now) (pending q)) +
     length (filter (\<lambda>(_, s). s \<le> now - 120) (inflight q)))"

lemma requeue_due_count:
  assumes "expiry_ok q"
  shows "int (length (filter (\<lambda>(_, s). s \<le> now) (pending (after_requeue now (now - 120) limit i n q)))) \<le> due_count now q"
proof -
  let ?q1 = "after_requeue now (now - 120) limit i n q"
  note r = after_requeue_props [OF assms, where now = now and sb = "now - 120" and limit = limit and i = i and n = n]
  let ?D = "{p \<in> set (pending ?q1). snd p \<le> now}"
  let ?A = "{p \<in> set (pending q). snd p \<le> now}"
    and ?B = "{p \<in> set (inflight q). snd p \<le> now - 120}"
  have "?D \<subseteq> ?A \<union> (\<lambda>p. (fst p, now)) ` ?B" using r(3) by (force simp: image_iff)
  then have "card ?D \<le> card (?A \<union> (\<lambda>p. (fst p, now)) ` ?B)" by (intro card_mono) auto
  also have "\<dots> \<le> card ?A + card ((\<lambda>p. (fst p, now)) ` ?B)" by (rule card_Un_le)
  also have "\<dots> \<le> card ?A + card ?B" by (intro add_left_mono card_image_le) simp
  finally show ?thesis using assms r(1) by (simp add: due_count_def zset_due_length expiry_ok_def)
qed

text \<open>When the scan sees all due members, a poll that is not full leaves none of its partition.\<close>

lemma poll_full_or_none:
  assumes ok: "expiry_ok q" and p: "PollDue True f now limit i n q = (Inr ids, q')"
    and l: "l = (if limit \<le> 0 then 100 else limit)" and few: "due_count (Unix now) q \<le> scan_limit l"
    and due: "(m, s) \<in> set (pending q')" "s \<le> Unix now" "ExpiryPartitionIndex m n = i"
  shows "int (length ids) = l \<and> due_count (Unix now) q > l"
proof -
  note P = poll_Inr [OF p, folded l]
  let ?q1 = "after_requeue (Unix now) (Unix now - 120) l i n q"
  let ?all = "map fst (filter (\<lambda>(_, s). s \<le> Unix now) (pending ?q1))"
  let ?mine = "filter (belongs_to_partition i n) ?all"
  have c: "int (length ?all) \<le> due_count (Unix now) q" using requeue_due_count [OF ok] by simp
  then have "ZRANGEBYSCORE (Unix now) (nat (scan_limit l)) (pending ?q1) = ?all"
    using few by (simp add: ZRANGEBYSCORE_def)
  then have ids: "ids = take (nat l) ?mine" using P(3) by (simp add: due_ids_def)
  from due(1) P(4) have m: "(m, s) \<in> set (pending ?q1)" "m \<notin> set ids" by (auto simp: fold_claim_pending)
  then have "m \<in> set ?mine"
    using due(2,3) by (force simp: belongs_to_partition_def hash_agrees [OF P(2), symmetric])
  then have "\<not> length ?mine \<le> nat l" using m(2) ids by (metis take_all)
  moreover have "length ?mine \<le> length ?all" by (rule length_filter_le)
  ultimately show ?thesis using ids c P(1) by simp
qed

lemma poll_props:
  assumes ok: "expiry_ok q" and p: "PollDue True f now limit i n q = (Inr ids, q')"
  shows "distinct ids \<and> int (length ids) \<le> (if limit \<le> 0 then 100 else limit) \<and>
    (\<forall>m\<in>set ids. ExpiryPartitionIndex m n = i \<and> m \<notin> members (pending q') \<and>
       (m, Unix now + 120) \<in> set (inflight q') \<and>
       ((\<exists>s\<le>Unix now. (m, s) \<in> set (pending q)) \<or> (\<exists>s\<le>Unix now - 120. (m, s) \<in> set (inflight q)))) \<and>
    tracked q' = tracked q"
proof -
  note P = poll_Inr [OF p]
  let ?l = "if limit \<le> 0 then 100 else limit"
  let ?q1 = "after_requeue (Unix now) (Unix now - 120) ?l i n q"
  note r = after_requeue_props [OF ok, where now = "Unix now" and sb = "Unix now - 120" and limit = ?l and i = i and n = n]
  note d = due_ids_props [OF r(1), where now = "Unix now" and limit = ?l and i = i and n = n, folded P(3)]
  note f = fold_claim_members [OF d(2) r(1), where until = "Unix now + 120", folded P(4)]
  have "length ids \<le> nat ?l" by (subst P(3)) (simp add: due_ids_def)
  then have len: "int (length ids) \<le> ?l" using P(1) by linarith
  have "ExpiryPartitionIndex m n = i \<and> m \<notin> members (pending q') \<and> (m, Unix now + 120) \<in> set (inflight q') \<and>
      ((\<exists>s\<le>Unix now. (m, s) \<in> set (pending q)) \<or> (\<exists>s\<le>Unix now - 120. (m, s) \<in> set (inflight q)))"
    if "m \<in> set ids" for m
  proof -
    from d(3) [OF that] obtain s where s: "belongs_to_partition i n m" "s \<le> Unix now"
      "(m, s) \<in> set (pending ?q1)" by blast
    from s(1) have "ExpiryPartitionIndex m n = i" by (simp add: belongs_to_partition_def hash_agrees P(2))
    moreover have "m \<notin> members (pending q')" "(m, Unix now + 120) \<in> set (inflight q')"
      using f that by blast+
    ultimately show ?thesis using r(3) [OF s(3)] s(2) by blast
  qed
  moreover have "tracked q' = tracked q" using f d(2) r(2) by (auto simp: tracked_def)
  ultimately show ?thesis using d(1) len by blast
qed

text \<open>
  The converse: nothing but what is returned leaves the pending set or gets a new claim; a
  stale claim of the partition that is not claimed again becomes pending, and everything else
  stays as it was.
\<close>

lemma poll_moves_only:
  assumes ok: "expiry_ok q" and p: "PollDue True f now limit i n q = (Inr ids, q')"
  defines "stale \<equiv> \<lambda>m. ExpiryPartitionIndex m n = i \<and> (\<exists>s\<le>Unix now - 120. (m, s) \<in> set (inflight q))"
  shows "(m, s) \<in> set (inflight q') \<Longrightarrow> m \<in> set ids \<and> s = Unix now + 120 \<or> m \<notin> set ids \<and> (m, s) \<in> set (inflight q)"
    and "(m, s) \<in> set (inflight q) \<Longrightarrow> m \<in> set ids \<or> (m, s) \<in> set (inflight q') \<or> stale m \<and> (m, Unix now) \<in> set (pending q')"
    and "(m, s) \<in> set (pending q') \<Longrightarrow> (m, s) \<in> set (pending q) \<or> stale m \<and> s = Unix now"
    and "(m, s) \<in> set (pending q) \<Longrightarrow> m \<in> set ids \<or> (m, s) \<in> set (pending q') \<or> stale m \<and> (m, Unix now) \<in> set (pending q')"
proof -
  note P = poll_Inr [OF p]
  let ?l = "if limit \<le> 0 then 100 else limit"
  let ?q1 = "after_requeue (Unix now) (Unix now - 120) ?l i n q"
  note r = after_requeue_props(1) [OF ok, where now = "Unix now" and sb = "Unix now - 120" and limit = ?l and i = i and n = n]
  note d = due_ids_props(2) [OF r, where now = "Unix now" and limit = ?l and i = i and n = n, folded P(3)]
  have F: "set (inflight q') = {p \<in> set (inflight ?q1). fst p \<notin> set ids} \<union> (\<lambda>m. (m, Unix now + 120)) ` set ids"
    "set (pending q') = {p \<in> set (pending ?q1). fst p \<notin> set ids}"
    using fold_claim_members [OF d r, where until = "Unix now + 120", folded P(4)] P(4)
    by (simp_all add: fold_claim_pending)
  note S = after_requeue_sets(1,2) [OF ok refl, where now = "Unix now" and sb = "Unix now - 120" and limit = ?l and i = i and n = n]
  have st: "stale m" if "m \<in> {m \<in> set (stale_ids (Unix now - 120) ?l q). belongs_to_partition i n m}"
    using after_requeue_sets(3) [OF ok refl that] by (simp add: stale_def belongs_to_partition_def hash_agrees P(2))
  show "(m, s) \<in> set (inflight q') \<Longrightarrow> m \<in> set ids \<and> s = Unix now + 120 \<or> m \<notin> set ids \<and> (m, s) \<in> set (inflight q)"
    using F(1) S(1) by auto
  show "(m, s) \<in> set (inflight q) \<Longrightarrow> m \<in> set ids \<or> (m, s) \<in> set (inflight q') \<or> stale m \<and> (m, Unix now) \<in> set (pending q')"
    using F S(1,2) st by auto
  show "(m, s) \<in> set (pending q') \<Longrightarrow> (m, s) \<in> set (pending q) \<or> stale m \<and> s = Unix now"
    using F(2) S(2) st by auto
  show "(m, s) \<in> set (pending q) \<Longrightarrow> m \<in> set ids \<or> (m, s) \<in> set (pending q') \<or> stale m \<and> (m, Unix now) \<in> set (pending q')"
    using F(2) S(2) st by auto
qed

text \<open>
  C17. What a successful poll does. It returns at most \<open>limit\<close> different members, all of the
  polled partition and each due (its deadline has passed, or its claim is older than the
  visibility timeout). They are exactly what moves: each is in flight afterwards, under a new
  claim, and no longer pending; no other member gets a claim or leaves the pending set, a
  claim that is given up is a stale one of the partition and pending again, and no member
  enters or leaves the queue. And it returns what is there: when the scan covers the due
  members, a poll returns \<open>limit\<close> members or leaves no due member of its partition.
\<close>

theorem PollDue_claims:
  assumes ok: "expiry_ok q" and p: "PollDue True f now limit i n q = (Inr ids, q')"
    and l: "l = (if limit \<le> 0 then 100 else limit)"
    and stale: "stale = (\<lambda>m. ExpiryPartitionIndex m n = i \<and> (\<exists>s\<le>Unix now - 120. (m, s) \<in> set (inflight q)))"
  shows "distinct ids \<and> int (length ids) \<le> l \<and> tracked q' = tracked q \<and>
    (\<forall>m\<in>set ids. ExpiryPartitionIndex m n = i \<and> m \<notin> members (pending q') \<and>
       (m, Unix now + 120) \<in> set (inflight q') \<and> (stale m \<or> (\<exists>s\<le>Unix now. (m, s) \<in> set (pending q)))) \<and>
    (\<forall>m s. (m, s) \<in> set (inflight q') \<longrightarrow> m \<in> set ids \<and> s = Unix now + 120 \<or> (m, s) \<in> set (inflight q)) \<and>
    (\<forall>m s. (m, s) \<in> set (inflight q) \<longrightarrow>
       m \<in> set ids \<or> (m, s) \<in> set (inflight q') \<or> stale m \<and> (m, Unix now) \<in> set (pending q')) \<and>
    (\<forall>m s. (m, s) \<in> set (pending q') \<longrightarrow> (m, s) \<in> set (pending q) \<or> stale m \<and> s = Unix now) \<and>
    (\<forall>m\<in>members (pending q). m \<in> set ids \<or> m \<in> members (pending q')) \<and>
    (due_count (Unix now) q \<le> scan_limit l \<longrightarrow> int (length ids) = l \<or>
       (\<forall>(m, s)\<in>set (pending q'). s \<le> Unix now \<longrightarrow> ExpiryPartitionIndex m n \<noteq> i))"
proof -
  note m = poll_moves_only [OF ok p, folded stale]
  have "\<forall>m\<in>members (pending q). m \<in> set ids \<or> m \<in> members (pending q')"
    using m(4) unfolding members_def by force
  moreover have "due_count (Unix now) q \<le> scan_limit l \<longrightarrow> int (length ids) = l \<or>
       (\<forall>(m, s)\<in>set (pending q'). s \<le> Unix now \<longrightarrow> ExpiryPartitionIndex m n \<noteq> i)"
    using poll_full_or_none [OF ok p l] by blast
  ultimately show ?thesis
    using poll_props [OF ok p, folded l] m(1-3) unfolding stale by blast
qed

definition demo_expiry :: expiry where
  "demo_expiry = \<lparr>pending = [(''b1'', 10), (''b2'', 20), (''b3'', 900)], inflight = [(''b0'', 5)]\<rparr>"

lemma demo_poll: "PollDue True None (200 * Second) 10 0 1 demo_expiry =
   (Inr [''b1'', ''b2'', ''b0''],
    \<lparr>pending = [(''b3'', 900)], inflight = [(''b0'', 320), (''b1'', 320), (''b2'', 320)]\<rparr>)"
  by code_simp

lemma PollDue_claims_witness:
  "\<forall>m s. (m, s) \<in> set [(''b0'', 320), (''b1'', 320), (''b2'', 320 :: int)] \<longleftrightarrow>
     m \<in> set [''b1'', ''b2'', ''b0''] \<and> s = 320"
proof -
  have "expiry_ok demo_expiry" by (simp add: demo_expiry_def expiry_ok_def zset_ok_def)
  from PollDue_claims [OF this demo_poll refl refl] show ?thesis
    by (auto simp: demo_expiry_def Unix_def Second_def)
qed

text \<open>
  C18. The partition of a booking is the same in Go and in the Lua script, and lies between
  zero and the number of partitions: every member belongs to exactly one partition, so two
  workers with different partitions never claim the same booking.
\<close>

theorem partitions_agree:
  assumes "0 < n"
  shows "ExpiryPartitionIndex m n = expiry_partition_index n m \<and>
    0 \<le> ExpiryPartitionIndex m n \<and> ExpiryPartitionIndex m n < n \<and>
    (belongs_to_partition i n m \<longleftrightarrow> i = ExpiryPartitionIndex m n)"
  using assms hash_agrees [OF assms, of m]
  by (auto simp: expiry_partition_index_def belongs_to_partition_def)

lemma partitions_agree_witness: "ExpiryPartitionIndex ''b1'' 4 = 3 \<and> belongs_to_partition 3 4 ''b1''"
proof -
  have "ExpiryPartitionIndex ''b1'' 4 = 3" by code_simp
  with partitions_agree [of 4 "''b1''" 3] show ?thesis by simp
qed

section \<open>How long a claim lasts\<close>

text \<open>A member that is claimed until \<open>T\<close> and not pending; operations that leave it so.\<close>

definition claimed_until :: "string \<Rightarrow> int \<Rightarrow> expiry \<Rightarrow> bool" where
  "claimed_until m T q \<longleftrightarrow> expiry_ok q \<and> m \<notin> members (pending q) \<and> (\<forall>s. (m, s) \<in> set (inflight q) \<longrightarrow> T \<le> s)"

fun respects_claim :: "string \<Rightarrow> int \<Rightarrow> expiry_op \<Rightarrow> bool" where
  "respects_claim m T (ExpiryAdd f m' t) \<longleftrightarrow> m' \<noteq> m"
| "respects_claim m T (ExpiryRemove f m') \<longleftrightarrow> True"
| "respects_claim m T (ExpiryPoll f now limit i n) \<longleftrightarrow> Unix now - 120 < T"

lemma script_keeps_claim:
  assumes c: "claimed_until m T q" and t: "sb < T" and l: "0 < limit"
  shows "m \<notin> set (fst (claimExpiryScript now sb cu limit i n q)) \<and>
    claimed_until m T (snd (claimExpiryScript now sb cu limit i n q))"
proof -
  let ?q1 = "after_requeue now sb limit i n q"
  have ok: "expiry_ok q" and m: "m \<notin> members (pending q)" "\<And>s. (m, s) \<in> set (inflight q) \<Longrightarrow> T \<le> s"
    using c by (simp_all add: claimed_until_def)
  note r = after_requeue_props [OF ok, where now = now and sb = sb and limit = limit and i = i and n = n]
  have p: "m \<notin> members (pending ?q1)"
  proof
    assume "m \<in> members (pending ?q1)"
    then obtain s where "(m, s) \<in> set (pending ?q1)" by (auto simp: members_def)
    from r(3) [OF this] m t show False by (force simp: members_def)
  qed
  let ?ids = "due_ids now limit i n ?q1"
  have ids: "m \<notin> set ?ids" using due_ids_props(2) [OF r(1)] p by blast
  have "set (inflight ?q1) \<subseteq> set (inflight q)" by (subst after_requeue_sets(1) [OF ok refl]) auto
  then show ?thesis
    using fold_claim_members [OF due_ids_props(2) [OF r(1)] r(1), where until = cu] p ids m(2)
    by (auto simp: claimExpiryScript_eq [OF l] Let_def claimed_until_def)
qed

lemma poll_keeps_claim:
  assumes "claimed_until m T q" "Unix now - 120 < T"
  shows "claimed_until m T (snd (PollDue True f now limit i n q))"
    and "fst (PollDue True f now limit i n q) = Inr ids \<Longrightarrow> m \<notin> set ids"
proof -
  have u: "Unix (now - ExpiryClaimVisibilityTimeout) = Unix now - 120"
    by (simp add: Unix_def ExpiryClaimVisibilityTimeout_def Minute_def Second_def)
  have l: "0 < (if limit \<le> 0 then ExpiryPollBatchSize else limit)" by (simp add: ExpiryPollBatchSize_def)
  note k = script_keeps_claim [OF assms l]
  show "claimed_until m T (snd (PollDue True f now limit i n q))"
    using k assms(1) by (auto simp: PollDue_def Let_def u redis_call_def split: option.splits)
  show "m \<notin> set ids" if "fst (PollDue True f now limit i n q) = Inr ids"
    using k that by (auto simp: PollDue_def Let_def u redis_call_def split: option.splits if_splits)
qed

lemma exec_keeps_claim:
  assumes "claimed_until m T q" "respects_claim m T op"
  shows "claimed_until m T (exec_expiry op q)"
proof (cases op)
  case (ExpiryAdd f m' t)
  have "claimed_until m T (snd (redis_call f (\<lambda>q. ((), pending_update (ZADD (Unix t) m') q)) q))"
    by (rule redis_call_inv) (use assms ExpiryAdd in \<open>simp_all add: claimed_until_def expiry_ok_def\<close>)
  then show ?thesis by (simp add: ExpiryAdd expiry_Add_def)
next
  case (ExpiryRemove f m')
  have "claimed_until m T (snd (redis_call f (\<lambda>q. ((), inflight_update (ZREM m') (pending_update (ZREM m') q))) q))"
    by (rule redis_call_inv) (use assms ExpiryRemove in \<open>simp_all add: claimed_until_def expiry_ok_def set_ZREM\<close>)
  then show ?thesis by (simp add: ExpiryRemove expiry_Remove_def)
next
  case (ExpiryPoll f now limit i n)
  then show ?thesis using poll_keeps_claim(1) [OF assms(1)] assms(2) by simp
qed

lemma run_keeps_claim:
  "claimed_until m T q \<Longrightarrow> list_all (respects_claim m T) ops \<Longrightarrow> claimed_until m T (run exec_expiry ops q)"
  by (induction ops arbitrary: q) (auto intro: exec_keeps_claim)

lemma poll_claims_until:
  assumes "expiry_ok q" "PollDue True f now limit i n q = (Inr ids, q')" "m \<in> set ids"
  shows "claimed_until m (Unix now + 120) q'"
proof -
  have ok': "expiry_ok q'" using PollDue_ok [OF assms(1)] assms(2) by (metis snd_conv)
  from poll_props [OF assms(1,2)] assms(3)
  have a: "m \<notin> members (pending q')" "(m, Unix now + 120) \<in> set (inflight q')" by auto
  then show ?thesis
    using ok' eq_key_imp_eq_value [of "inflight q'"] by (fastforce simp: claimed_until_def expiry_ok_def zset_ok_def)
qed

text \<open>
  C19. A claim is exclusive for four minutes. After a poll has returned a member, through every
  history of polls of any partition, with any faults, of removals and of additions of other
  members, no poll within the next 240 seconds returns it again. (The new claim expires two
  minutes after the poll and counts as stale only another two minutes later.) Only adding the
  member anew, as the extension of its reservation does, ends the claim (\<open>readded_member\<close>).
\<close>

theorem claim_exclusive:
  assumes ok: "expiry_ok q" and p: "PollDue True f now limit i n q = (Inr ids, q')"
    and m: "m \<in> set ids"
    and ops: "list_all (respects_claim m (Unix now + 120)) ops"
    and p': "PollDue True f' now' limit' i' n' (run exec_expiry ops q') = (Inr ids', q'')"
    and t: "Unix now' < Unix now + 240"
  shows "m \<notin> set ids'"
proof -
  have "claimed_until m (Unix now + 120) (run exec_expiry ops q')"
    using run_keeps_claim [OF poll_claims_until [OF ok p m] ops] .
  moreover have "Unix now' - 120 < Unix now + 120" using t by simp
  moreover have "fst (PollDue True f' now' limit' i' n' (run exec_expiry ops q')) = Inr ids'" by (simp add: p')
  ultimately show ?thesis by (rule poll_keeps_claim(2))
qed

text \<open>Polls of both of two partitions and other operations between a claim and a poll 239 seconds later.\<close>

definition demo_later :: "expiry_op list" where
  "demo_later = [ExpiryPoll None (400 * Second) 10 0 2, ExpiryAdd None ''b4'' (1 * Second),
     ExpiryPoll (Some (Foreign ''timeout'', True)) (438 * Second) 10 1 2, ExpiryRemove None ''b2'']"

lemma claim_exclusive_witness:
  "\<exists>ids q''. PollDue True None (439 * Second) 10 0 1 (run exec_expiry demo_later
     (snd (PollDue True None (200 * Second) 10 0 1 demo_expiry))) = (Inr ids, q'') \<and>
   ids = [''b4''] \<and> ''b1'' \<notin> set ids"
proof -
  let ?q = "\<lparr>pending = [(''b3'', 900)], inflight = [(''b0'', 320), (''b1'', 320), (''b2'', 320)]\<rparr>"
  have r: "PollDue True None (439 * Second) 10 0 1 (run exec_expiry demo_later ?q) =
      (Inr [''b4''], \<lparr>pending = [(''b3'', 900)], inflight = [(''b0'', 320), (''b1'', 320), (''b4'', 559)]\<rparr>)"
    by code_simp
  have ok: "expiry_ok demo_expiry" by (simp add: demo_expiry_def expiry_ok_def zset_ok_def)
  have "list_all (respects_claim ''b1'' (Unix (200 * Second) + 120)) demo_later"
    by (simp add: demo_later_def Unix_def Second_def)
  from claim_exclusive [OF ok demo_poll _ this r] have "''b1'' \<notin> set [''b4'']"
    by (simp add: Unix_def Second_def)
  with r show ?thesis unfolding demo_poll snd_conv by blast
qed

lemma readded_member:
  "fst (PollDue True None (210 * Second) 10 0 1
     (run exec_expiry [ExpiryAdd None ''b1'' (205 * Second)]
       (snd (PollDue True None (200 * Second) 10 0 1 demo_expiry)))) = Inr [''b1'']"
  by code_simp

lemma poll_leaves_none:
  assumes ok: "expiry_ok q" and p: "PollDue True f now limit i n q = (Inr ids, q')" and l: "0 < limit"
    and few: "due_count (Unix now) q \<le> limit"
    and due: "(m, s) \<in> set (pending q')" "s \<le> Unix now"
  shows "ExpiryPartitionIndex m n \<noteq> i"
proof
  assume "ExpiryPartitionIndex m n = i"
  moreover have "limit = (if limit \<le> 0 then 100 else limit)" using l by simp
  moreover have "due_count (Unix now) q \<le> scan_limit limit" using few by (simp add: scan_limit_def Let_def)
  ultimately show False using poll_full_or_none [OF ok p _ _ due] few by fastforce
qed

text \<open>A due member is claimed by a poll or still due after it.\<close>

lemma poll_pending:
  assumes ok: "expiry_ok q" and p: "PollDue True f now limit i n q = (Inr ids, q')" and l: "0 < limit"
    and m: "(m, s) \<in> set (pending q)" "s \<le> Unix now"
  shows "m \<in> set ids \<or> (\<exists>s'\<le>Unix now. (m, s') \<in> set (pending q'))"
proof -
  let ?q1 = "after_requeue (Unix now) (Unix (now - ExpiryClaimVisibilityTimeout)) limit i n q"
  from p l obtain cu where e: "ids = due_ids (Unix now) limit i n ?q1" "q' = fold (claim_one cu) ids ?q1"
    by (auto simp: PollDue_def Let_def redis_call_def claimExpiryScript_eq split: if_splits option.splits)
  have a: "set (stale_ids (Unix (now - ExpiryClaimVisibilityTimeout)) limit q) \<subseteq> members (inflight q)"
    "distinct (stale_ids (Unix (now - ExpiryClaimVisibilityTimeout)) limit q)"
    using ZRANGE_subset ZRANGE_distinct ok by (auto simp: stale_ids_def expiry_ok_def)
  from requeue_stale_props [OF a ok, of "belongs_to_partition i n" "Unix now"] m
  have "\<exists>s'\<le>Unix now. (m, s') \<in> set (pending ?q1)"
    unfolding after_requeue_def by (cases "m \<in> set (stale_ids (Unix (now - ExpiryClaimVisibilityTimeout)) limit q) \<and>
        belongs_to_partition i n m") auto
  then show ?thesis by (auto simp: e(2) fold_claim_pending)
qed

text \<open>
  C20. Progress: when the pending deadlines that have passed and the stale claims are
  together no more than the batch, a poll leaves no due booking of its partition pending.
\<close>

theorem poll_takes_all_due:
  assumes ok: "expiry_ok q" and p: "PollDue True f now limit i n q = (Inr ids, q')" and l: "0 < limit"
    and few: "int (length (filter (\<lambda>(_, s). s \<le> Unix now) (pending q)) +
      length (filter (\<lambda>(_, s). s \<le> Unix now - 120) (inflight q))) \<le> limit"
    and due: "(m, s) \<in> set (pending q')" "s \<le> Unix now"
  shows "ExpiryPartitionIndex m n \<noteq> i"
  by (rule poll_leaves_none [OF ok p l few [folded due_count_def] due])

text \<open>With two partitions the due member that is left belongs to the other one.\<close>

lemma poll_takes_all_due_witness: "ExpiryPartitionIndex ''b1'' 2 \<noteq> 0"
proof -
  have p: "PollDue True None (200 * Second) 10 0 2 demo_expiry =
      (Inr [''b2'', ''b0''],
       \<lparr>pending = [(''b1'', 10), (''b3'', 900)], inflight = [(''b0'', 320), (''b2'', 320)]\<rparr>)"
    by code_simp
  show ?thesis
    by (rule poll_takes_all_due [OF _ p, where s = 10])
      (simp_all add: demo_expiry_def expiry_ok_def zset_ok_def Unix_def Second_def)
qed

text \<open>
  The other side of the scan limit: members of partitions nobody polls, when they are the
  first \<open>scan_limit\<close> due ones, hide every other partition's members.
\<close>

lemma poll_starved:
  assumes "0 < limit" "0 \<le> i" "i < n"
    and "\<forall>m\<in>set (ZRANGEBYSCORE (Unix now) (nat (scan_limit limit)) (pending q)). \<not> belongs_to_partition i n m"
    and "inflight q = []"
  shows "PollDue True None now limit i n q = (Inr [], q)"
proof -
  have "due_ids (Unix now) limit i n q = []"
    using assms(4) by (simp add: due_ids_def filter_empty_conv)
  then show ?thesis
    using assms(1-3,5) by (simp add: PollDue_def Let_def redis_call_def claimExpiryScript_eq
        after_requeue_def stale_ids_def ZRANGEBYSCORE_def)
qed

end
