(* ===== verification/Redis_Kv.thy ===== *)
theory Redis_Kv
  imports Expiry_Queue
begin

text \<open>
  The part of Redis the middleware, the event cache and the read routing use: keys with a
  value and an optional expiry time, which the server drops when the time has come. A
  command takes the server's time. The keys of one kind of value form one map; the key
  prefixes of the program keep the kinds apart.
\<close>

section \<open>Keys that expire\<close>

type_synonym 'v kv = "string \<Rightarrow> ('v \<times> time option) option"

definition kv_live :: "time \<Rightarrow> 'v kv \<Rightarrow> string \<Rightarrow> ('v \<times> time option) option" where
  "kv_live now m k = (case m k of
       None \<Rightarrow> None
     | Some (v, x) \<Rightarrow> (case x of None \<Rightarrow> Some (v, None)
         | Some e \<Rightarrow> if now < e then Some (v, Some e) else None))"

definition kv_GET :: "time \<Rightarrow> string \<Rightarrow> 'v kv \<Rightarrow> 'v option" where
  "kv_GET now k m = map_option fst (kv_live now m k)"

text \<open>\<open>SET key value EX ttl\<close>, \<open>DEL\<close>, and \<open>SET key value NX EX ttl\<close> (\<open>SetNX\<close>).\<close>

definition kv_SET :: "time \<Rightarrow> string \<Rightarrow> 'v \<Rightarrow> duration \<Rightarrow> 'v kv \<Rightarrow> 'v kv" where
  "kv_SET now k v ttl m = m(k \<mapsto> (v, Some (now + ttl)))"

definition kv_DEL :: "string \<Rightarrow> 'v kv \<Rightarrow> 'v kv" where
  "kv_DEL k m = m(k := None)"

definition kv_SETNX :: "time \<Rightarrow> string \<Rightarrow> 'v \<Rightarrow> duration \<Rightarrow> 'v kv \<Rightarrow> bool \<times> 'v kv" where
  "kv_SETNX now k v ttl m =
     (case kv_live now m k of None \<Rightarrow> (True, kv_SET now k v ttl m) | Some _ \<Rightarrow> (False, m))"

text \<open>\<open>EXPIRE key seconds\<close>: a time to live that is not positive deletes the key.\<close>

definition kv_EXPIRE :: "time \<Rightarrow> string \<Rightarrow> int \<Rightarrow> 'v kv \<Rightarrow> 'v kv" where
  "kv_EXPIRE now k seconds m = (case kv_live now m k of
       None \<Rightarrow> m
     | Some (v, _) \<Rightarrow> if seconds \<le> 0 then kv_DEL k m
         else m(k \<mapsto> (v, Some (now + seconds * Second))))"

text \<open>\<open>TTL key\<close>: -2 without the key, -1 without an expiry, else the rounded seconds left.\<close>

definition kv_TTL :: "time \<Rightarrow> string \<Rightarrow> 'v kv \<Rightarrow> int" where
  "kv_TTL now k m = (case kv_live now m k of
       None \<Rightarrow> -2
     | Some (_, None) \<Rightarrow> -1
     | Some (_, Some e) \<Rightarrow> (e - now + Second div 2) div Second)"

text \<open>\<open>INCRBY\<close>: a missing key counts as 0 and gets no expiry, an existing one keeps its own.\<close>

definition kv_INCRBY :: "time \<Rightarrow> string \<Rightarrow> int \<Rightarrow> int kv \<Rightarrow> int \<times> int kv" where
  "kv_INCRBY now k n m = (case kv_live now m k of
       None \<Rightarrow> (n, m(k \<mapsto> (n, None)))
     | Some (v, x) \<Rightarrow> (v + n, m(k \<mapsto> (v + n, x))))"

section \<open>Laws\<close>

lemma kv_GET_SET [simp]:
  "kv_GET t k (kv_SET now k v ttl m) = (if t < now + ttl then Some v else None)"
  "k' \<noteq> k \<Longrightarrow> kv_GET t k' (kv_SET now k v ttl m) = kv_GET t k' m"
  by (simp_all add: kv_GET_def kv_live_def kv_SET_def)

lemma kv_GET_DEL [simp]: "kv_GET t k' (kv_DEL k m) = (if k' = k then None else kv_GET t k' m)"
  by (simp add: kv_GET_def kv_live_def kv_DEL_def)

lemma kv_live_other [simp]:
  "k' \<noteq> k \<Longrightarrow> kv_live t (kv_SET now k v ttl m) k' = kv_live t m k'"
  "k' \<noteq> k \<Longrightarrow> kv_live t (kv_DEL k m) k' = kv_live t m k'"
  "k' \<noteq> k \<Longrightarrow> kv_live t (kv_EXPIRE now k s m) k' = kv_live t m k'"
  "k' \<noteq> k \<Longrightarrow> kv_live t (snd (kv_INCRBY now k n c)) k' = kv_live t c k'"
  by (simp_all add: kv_live_def kv_SET_def kv_DEL_def kv_EXPIRE_def kv_INCRBY_def
      split: option.splits)

lemma kv_TTL_live: "kv_live now m k = Some (v, Some e) \<Longrightarrow> \<not> kv_TTL now k m < 0"
proof -
  assume l: "kv_live now m k = Some (v, Some e)"
  then have "now < e" by (auto simp: kv_live_def split: option.splits if_splits)
  then have "0 \<le> e - now + Second div 2" by (simp add: Second_def)
  then show ?thesis using l by (simp add: kv_TTL_def Second_def pos_imp_zdiv_neg_iff)
qed

text \<open>
  The contract of a cache, over its own set, get and delete: what its clients are proved
  from. The interpretation shows that Redis keys with an expiry meet it.
\<close>

locale expiring_cache =
  fixes get :: "time \<Rightarrow> string \<Rightarrow> 's \<Rightarrow> 'v option"
    and set_for :: "time \<Rightarrow> string \<Rightarrow> 'v \<Rightarrow> duration \<Rightarrow> 's \<Rightarrow> 's"
    and del :: "string \<Rightarrow> 's \<Rightarrow> 's"
  assumes get_set: "get t k (set_for now k v ttl s) = (if t < now + ttl then Some v else None)"
    and get_set_other: "k' \<noteq> k \<Longrightarrow> get t k' (set_for now k v ttl s) = get t k' s"
    and get_del: "get t k' (del k s) = (if k' = k then None else get t k' s)"
begin

text \<open>What is read back is the value last set, if no deletion came after and it is not too old.\<close>

lemma fresh_or_gone: "get t k (set_for now k v ttl (del k s)) = Some w \<Longrightarrow> w = v \<and> t < now + ttl"
  by (simp add: get_set split: if_splits)

lemma del_wins: "get t k (del k (set_for now k v ttl s)) = None"
  by (simp add: get_del)

lemma others_keep:
  "k' \<noteq> k \<Longrightarrow> get t k' (set_for now k v ttl s) = get t k' s"
  "k' \<noteq> k \<Longrightarrow> get t k' (del k s) = get t k' s"
  by (simp_all add: get_set_other get_del)

end

interpretation redis_keys: expiring_cache kv_GET kv_SET kv_DEL
  by unfold_locales simp_all

end
