(* ===== verification/Config.thy ===== *)
theory Config
  imports Go_Strings
begin

text \<open>
  internal/config: the configuration as the code reads it from the process environment, with
  its defaults, and the checks on it. The environment (after \<open>godotenv.Load\<close>) is a function
  from names to values, the empty string when unset; \<open>url_host\<close> is what \<open>url.Parse\<close> returns
  as the host of a string, if it parses.
\<close>

section \<open>config.go: the sections\<close>

record ServerConfig =
  srvPort :: string
  srvGinMode :: string
  srvReadTimeoutSec :: int
  srvWriteTimeoutSec :: int
  srvIdleTimeoutSec :: int
  srvShutdownTimeoutSec :: int

record DatabaseConfig =
  dbURL :: string
  dbHost :: string
  dbPort :: string
  dbUser :: string
  dbPassword :: string
  dbName :: string
  dbSSLMode :: string
  dbReadHost :: string
  dbReadPort :: string
  dbReadUser :: string
  dbReadPassword :: string
  dbReadURL :: string

definition dsn_of :: "string \<Rightarrow> string \<Rightarrow> string \<Rightarrow> string \<Rightarrow> string \<Rightarrow> string \<Rightarrow> string" where
  "dsn_of host port user password name sslmode =
     ''host='' @ host @ '' port='' @ port @ '' user='' @ user @ '' password='' @ password @
     '' dbname='' @ name @ '' sslmode='' @ sslmode"

definition DSN :: "DatabaseConfig \<Rightarrow> string" where
  "DSN c = (if dbURL c \<noteq> '''' then dbURL c
     else dsn_of (dbHost c) (dbPort c) (dbUser c) (dbPassword c) (dbName c) (dbSSLMode c))"

definition or_else :: "string \<Rightarrow> string \<Rightarrow> string" where
  "or_else s dflt = (if s = '''' then dflt else s)"

definition ReadDSN :: "DatabaseConfig \<Rightarrow> string" where
  "ReadDSN c =
     (if dbReadURL c \<noteq> '''' then dbReadURL c
      else if dbReadHost c = '''' then ''''
      else dsn_of (dbReadHost c) (or_else (dbReadPort c) (dbPort c)) (or_else (dbReadUser c) (dbUser c))
             (or_else (dbReadPassword c) (dbPassword c)) (dbName c) (dbSSLMode c))"

record RedisConfig =
  rdURL :: string
  rdHost :: string
  rdPort :: string
  rdPassword :: string
  rdDB :: int

definition Addr :: "RedisConfig \<Rightarrow> string" where
  "Addr r = rdHost r @ '':'' @ rdPort r"

record KafkaConfig =
  kBrokers :: "string list"
  kSecurityProtocol :: string
  kSASLMechanism :: string
  kSASLUsername :: string
  kSASLPassword :: string
  kBookingEventsTopic :: string
  kBookingEventsDLQTopic :: string
  kBookingCommandsTopic :: string
  kPurchaseCommandsTopic :: string
  kBookingDLQTopic :: string
  kPurchaseDLQTopic :: string
  kClientID :: string
  kRequiredAcks :: string
  kAsync :: bool
  kTopicPartitions :: int
  kTopicReplicationFactor :: int

record JWTConfig =
  jwtSecret :: string
  jwtExpiryHours :: int

definition ExpiryDuration :: "JWTConfig \<Rightarrow> duration" where
  "ExpiryDuration j = wrap64 (jwtExpiryHours j * Hour)"

record BookingConfig =
  bcReservationTimeoutMinutes :: int
  bcAdmissionWindowSec :: int
  bcAdmissionEventLimit :: int
  bcAdmissionClientLimit :: int
  bcExpiryReleaseConcurrency :: int
  bcExpiryReleasePartitionCount :: int
  bcExpiryReleasePartitionOffset :: int

definition ReservationTimeout :: "BookingConfig \<Rightarrow> duration" where
  "ReservationTimeout b = wrap64 (bcReservationTimeoutMinutes b * Minute)"

definition AdmissionWindow :: "BookingConfig \<Rightarrow> duration" where
  "AdmissionWindow b = wrap64 (bcAdmissionWindowSec b * Second)"

record QueueConfig =
  qcMaxRetries :: int
  qcMonitorIntervalSec :: int
  qcAlertBookingQueueLength :: int
  qcAlertPurchaseQueueLength :: int
  qcAlertBookingPending :: int
  qcAlertPurchasePending :: int
  qcAlertBookingDLQ :: int
  qcAlertPurchaseDLQ :: int

record StripeConfig =
  stSecretKey :: string
  stPublishableKey :: string
  stWebhookSecret :: string
  stWebhookURL :: string
  stCurrency :: string

definition IsConfigured :: "StripeConfig \<Rightarrow> bool" where
  "IsConfigured s \<longleftrightarrow> stSecretKey s \<noteq> ''''"

record Config =
  cServer :: ServerConfig
  cDatabase :: DatabaseConfig
  cRedis :: RedisConfig
  cKafka :: KafkaConfig
  cJWT :: JWTConfig
  cBooking :: BookingConfig
  cQueue :: QueueConfig
  cAllowedOrigins :: "string list"
  cStripe :: StripeConfig

definition IsOriginAllowed :: "string list \<Rightarrow> string \<Rightarrow> bool" where
  "IsOriginAllowed allowedOrigins origin \<longleftrightarrow>
     length allowedOrigins = 0 \<or>
     list_ex (\<lambda>allowed. allowed = ''*'' \<or> allowed = origin) allowedOrigins"

section \<open>kafka.go\<close>

definition KafkaSecurityProtocol :: "KafkaConfig \<Rightarrow> string" where
  "KafkaSecurityProtocol k =
     (let protocol = ToUpper (TrimSpace (kSecurityProtocol k)) in
      if protocol \<noteq> '''' then protocol
      else if kSASLUsername k \<noteq> '''' \<or> kSASLPassword k \<noteq> '''' then ''SASL_PLAINTEXT''
      else ''PLAINTEXT'')"

definition ValidateSecurity :: "KafkaConfig \<Rightarrow> unit res" where
  "ValidateSecurity k =
     (if length (kBrokers k) = 0 then Inr () else
      let protocol = KafkaSecurityProtocol k in
      if protocol = ''PLAINTEXT'' \<or> protocol = ''SSL'' then
        (if kSASLUsername k \<noteq> '''' \<or> kSASLPassword k \<noteq> ''''
         then Inl (Foreign ''Kafka credentials require KAFKA_SECURITY_PROTOCOL=SASL_PLAINTEXT or SASL_SSL'')
         else Inr ())
      else if protocol = ''SASL_PLAINTEXT'' \<or> protocol = ''SASL_SSL'' then
        (if kSASLUsername k = '''' \<or> kSASLPassword k = ''''
         then Inl (Foreign ''Kafka SASL requires both KAFKA_SASL_USERNAME and KAFKA_SASL_PASSWORD'')
         else let mechanism = ToUpper (TrimSpace (kSASLMechanism k)) in
           if mechanism \<noteq> '''' \<and> mechanism \<noteq> ''PLAIN''
           then Inl (Foreign ''KAFKA_SASL_MECHANISM must be PLAIN'') else Inr ())
      else Inl (Foreign ''KAFKA_SECURITY_PROTOCOL must be PLAINTEXT, SSL, SASL_PLAINTEXT, or SASL_SSL''))"

section \<open>config.go: reading the environment\<close>

type_synonym environ = "string \<Rightarrow> string"

definition getEnv :: "environ \<Rightarrow> string \<Rightarrow> string \<Rightarrow> string" where
  "getEnv env key defaultValue = (if env key \<noteq> '''' then env key else defaultValue)"

fun firstEnv :: "environ \<Rightarrow> string list \<Rightarrow> string" where
  "firstEnv env [] = ''''"
| "firstEnv env (k # ks) = (if env k \<noteq> '''' then env k else firstEnv env ks)"

definition getEnvAsInt :: "environ \<Rightarrow> string \<Rightarrow> int \<Rightarrow> int" where
  "getEnvAsInt env key defaultValue =
     (if env key = '''' then defaultValue
      else case ParseInt (env key) of None \<Rightarrow> defaultValue | Some n \<Rightarrow> n)"

definition getEnvAsInt64 :: "environ \<Rightarrow> string \<Rightarrow> int \<Rightarrow> int" where
  "getEnvAsInt64 env key defaultValue =
     (if env key = '''' then defaultValue
      else case ParseInt (env key) of None \<Rightarrow> defaultValue | Some n \<Rightarrow> n)"

definition getEnvAsBool :: "environ \<Rightarrow> string \<Rightarrow> bool \<Rightarrow> bool" where
  "getEnvAsBool env key defaultValue =
     (let v = TrimSpace (ToLower (env key)) in
      if v = '''' then defaultValue
      else if v \<in> {''1'', ''true'', ''yes'', ''y'', ''on''} then True
      else if v \<in> {''0'', ''false'', ''no'', ''n'', ''off''} then False
      else defaultValue)"

definition getEnvAsStringSlice :: "environ \<Rightarrow> string \<Rightarrow> string list \<Rightarrow> string list" where
  "getEnvAsStringSlice env key defaultValue =
     (if env key = '''' then defaultValue
      else filter (\<lambda>s. s \<noteq> '''') (map TrimSpace (Split (env key) (CHR '',''))))"

definition normalizeKafkaBroker :: "(string \<Rightarrow> string option) \<Rightarrow> string \<Rightarrow> string" where
  "normalizeKafkaBroker url_host value =
     (let broker = TrimSpace value in
      if broker = '''' then ''''
      else let broker' = (if Contains broker ''://'' then
               (case url_host broker of Some h \<Rightarrow> if h \<noteq> '''' then h else broker | None \<Rightarrow> broker)
             else broker)
           in TrimPrefix broker' ''//'')"

definition parseKafkaBrokerList :: "(string \<Rightarrow> string option) \<Rightarrow> string \<Rightarrow> string list" where
  "parseKafkaBrokerList url_host value =
     (if TrimSpace value = '''' then []
      else filter (\<lambda>b. b \<noteq> '''') (map (normalizeKafkaBroker url_host) (Split value (CHR '',''))))"

fun first_brokers :: "(string \<Rightarrow> string option) \<Rightarrow> environ \<Rightarrow> string list \<Rightarrow> string list" where
  "first_brokers url_host env [] = []"
| "first_brokers url_host env (k # ks) =
     (let brokers = parseKafkaBrokerList url_host (env k) in
      if length brokers > 0 then brokers else first_brokers url_host env ks)"

definition getKafkaBrokers :: "(string \<Rightarrow> string option) \<Rightarrow> environ \<Rightarrow> string list" where
  "getKafkaBrokers url_host env = first_brokers url_host env
     [''KAFKA_BROKERS'', ''KAFKA_URL'', ''KAFKA_PRIVATE_URL'', ''KAFKA_PUBLIC_URL'', ''KAFKA_BROKER_URL'']"

definition load_config :: "(string \<Rightarrow> string option) \<Rightarrow> environ \<Rightarrow> Config" where
  "load_config url_host env = \<lparr>
     cServer = \<lparr>
       srvPort = getEnv env ''PORT'' ''8080'',
       srvGinMode = getEnv env ''GIN_MODE'' ''release'',
       srvReadTimeoutSec = getEnvAsInt env ''HTTP_READ_TIMEOUT_SEC'' 10,
       srvWriteTimeoutSec = getEnvAsInt env ''HTTP_WRITE_TIMEOUT_SEC'' 15,
       srvIdleTimeoutSec = getEnvAsInt env ''HTTP_IDLE_TIMEOUT_SEC'' 60,
       srvShutdownTimeoutSec = getEnvAsInt env ''HTTP_SHUTDOWN_TIMEOUT_SEC'' 10\<rparr>,
     cDatabase = \<lparr>
       dbURL = firstEnv env [''DATABASE_URL'', ''POSTGRES_URL''],
       dbHost = getEnv env ''DB_HOST'' ''localhost'',
       dbPort = getEnv env ''DB_PORT'' ''5432'',
       dbUser = getEnv env ''DB_USER'' ''postgres'',
       dbPassword = getEnv env ''DB_PASSWORD'' ''postgres'',
       dbName = getEnv env ''DB_NAME'' ''event_ticketing'',
       dbSSLMode = getEnv env ''DB_SSLMODE'' ''disable'',
       dbReadHost = getEnv env ''DB_READ_HOST'' '''',
       dbReadPort = getEnv env ''DB_READ_PORT'' '''',
       dbReadUser = getEnv env ''DB_READ_USER'' '''',
       dbReadPassword = getEnv env ''DB_READ_PASSWORD'' '''',
       dbReadURL = getEnv env ''DB_READ_URL'' ''''\<rparr>,
     cRedis = \<lparr>
       rdURL = firstEnv env [''REDIS_URL'', ''RAILWAY_REDIS_URL''],
       rdHost = getEnv env ''REDIS_HOST'' ''localhost'',
       rdPort = getEnv env ''REDIS_PORT'' ''6379'',
       rdPassword = getEnv env ''REDIS_PASSWORD'' '''',
       rdDB = getEnvAsInt env ''REDIS_DB'' 0\<rparr>,
     cKafka = \<lparr>
       kBrokers = getKafkaBrokers url_host env,
       kSecurityProtocol = getEnv env ''KAFKA_SECURITY_PROTOCOL'' '''',
       kSASLMechanism = getEnv env ''KAFKA_SASL_MECHANISM'' ''PLAIN'',
       kSASLUsername = getEnv env ''KAFKA_SASL_USERNAME'' '''',
       kSASLPassword = getEnv env ''KAFKA_SASL_PASSWORD'' '''',
       kBookingEventsTopic = getEnv env ''KAFKA_BOOKING_EVENTS_TOPIC'' ''booking-events'',
       kBookingEventsDLQTopic = getEnv env ''KAFKA_BOOKING_EVENTS_DLQ_TOPIC'' ''booking-events-dlq'',
       kBookingCommandsTopic = getEnv env ''KAFKA_BOOKING_COMMANDS_TOPIC'' ''booking-commands'',
       kPurchaseCommandsTopic = getEnv env ''KAFKA_PURCHASE_COMMANDS_TOPIC'' ''purchase-commands'',
       kBookingDLQTopic = getEnv env ''KAFKA_BOOKING_DLQ_TOPIC'' ''booking-commands-dlq'',
       kPurchaseDLQTopic = getEnv env ''KAFKA_PURCHASE_DLQ_TOPIC'' ''purchase-commands-dlq'',
       kClientID = getEnv env ''KAFKA_CLIENT_ID'' ''ticketmaster-api'',
       kRequiredAcks = ToLower (getEnv env ''KAFKA_REQUIRED_ACKS'' ''leader''),
       kAsync = getEnvAsBool env ''KAFKA_ASYNC'' True,
       kTopicPartitions = getEnvAsInt env ''KAFKA_TOPIC_PARTITIONS'' 6,
       kTopicReplicationFactor = getEnvAsInt env ''KAFKA_TOPIC_REPLICATION_FACTOR'' 1\<rparr>,
     cJWT = \<lparr>
       jwtSecret = getEnv env ''JWT_SECRET'' ''your-super-secret-jwt-key-change-this-in-production'',
       jwtExpiryHours = getEnvAsInt env ''JWT_EXPIRY_HOURS'' 24\<rparr>,
     cBooking = \<lparr>
       bcReservationTimeoutMinutes = getEnvAsInt env ''RESERVATION_TIMEOUT_MINUTES'' 10,
       bcAdmissionWindowSec = getEnvAsInt env ''BOOKING_ADMISSION_WINDOW_SEC'' 60,
       bcAdmissionEventLimit = getEnvAsInt env ''BOOKING_ADMISSION_EVENT_LIMIT'' 5000,
       bcAdmissionClientLimit = getEnvAsInt env ''BOOKING_ADMISSION_CLIENT_LIMIT'' 10,
       bcExpiryReleaseConcurrency = getEnvAsInt env ''EXPIRY_RELEASE_CONCURRENCY'' 4,
       bcExpiryReleasePartitionCount = getEnvAsInt env ''EXPIRY_RELEASE_PARTITION_COUNT'' 0,
       bcExpiryReleasePartitionOffset = getEnvAsInt env ''EXPIRY_RELEASE_PARTITION_OFFSET'' 0\<rparr>,
     cQueue = \<lparr>
       qcMaxRetries = getEnvAsInt env ''QUEUE_MAX_RETRIES'' 3,
       qcMonitorIntervalSec = getEnvAsInt env ''QUEUE_MONITOR_INTERVAL_SEC'' 15,
       qcAlertBookingQueueLength = getEnvAsInt64 env ''QUEUE_ALERT_BOOKING_QUEUE_LENGTH'' 5000,
       qcAlertPurchaseQueueLength = getEnvAsInt64 env ''QUEUE_ALERT_PURCHASE_QUEUE_LENGTH'' 5000,
       qcAlertBookingPending = getEnvAsInt64 env ''QUEUE_ALERT_BOOKING_PENDING'' 1000,
       qcAlertPurchasePending = getEnvAsInt64 env ''QUEUE_ALERT_PURCHASE_PENDING'' 1000,
       qcAlertBookingDLQ = getEnvAsInt64 env ''QUEUE_ALERT_BOOKING_DLQ'' 10,
       qcAlertPurchaseDLQ = getEnvAsInt64 env ''QUEUE_ALERT_PURCHASE_DLQ'' 10\<rparr>,
     cAllowedOrigins = getEnvAsStringSlice env ''WEBSOCKET_ALLOWED_ORIGINS'' [],
     cStripe = \<lparr>
       stSecretKey = getEnv env ''STRIPE_SECRET_KEY'' '''',
       stPublishableKey = getEnv env ''STRIPE_PUBLISHABLE_KEY'' '''',
       stWebhookSecret = getEnv env ''STRIPE_WEBHOOK_SECRET'' '''',
       stWebhookURL = getEnv env ''STRIPE_WEBHOOK_URL'' ''http://localhost:8080/api/webhooks/stripe'',
       stCurrency = getEnv env ''STRIPE_CURRENCY'' ''usd''\<rparr>\<rparr>"

definition Load :: "(string \<Rightarrow> string option) \<Rightarrow> environ \<Rightarrow> Config res" where
  "Load url_host env = (let config = load_config url_host env in
     ebind (ValidateSecurity (cKafka config)) (\<lambda>_. Inr config))"

section \<open>What a loaded configuration guarantees\<close>

definition sasl :: "KafkaConfig \<Rightarrow> bool" where
  "sasl k \<longleftrightarrow> KafkaSecurityProtocol k \<in> {''SASL_PLAINTEXT'', ''SASL_SSL''}"

lemma ValidateSecurity_Inr:
  assumes "ValidateSecurity k = Inr ()" "kBrokers k \<noteq> []"
  shows "KafkaSecurityProtocol k \<in> {''PLAINTEXT'', ''SSL'', ''SASL_PLAINTEXT'', ''SASL_SSL''} \<and>
    (sasl k \<longleftrightarrow> kSASLUsername k \<noteq> '''') \<and> (sasl k \<longleftrightarrow> kSASLPassword k \<noteq> '''')"
  using assms by (auto simp: ValidateSecurity_def sasl_def Let_def split: if_splits)

text \<open>
  A configuration that loads and names Kafka brokers uses one of the four known
  protocols, and it has a user name and a password exactly when the protocol is a SASL one:
  credentials are never silently dropped and SASL is never attempted without them.
\<close>

lemma Load_kafka_credentials:
  assumes "Load url_host env = Inr c" "kBrokers (cKafka c) \<noteq> []"
  shows "KafkaSecurityProtocol (cKafka c) \<in> {''PLAINTEXT'', ''SSL'', ''SASL_PLAINTEXT'', ''SASL_SSL''} \<and>
    (sasl (cKafka c) \<longleftrightarrow> kSASLUsername (cKafka c) \<noteq> '''') \<and>
    (sasl (cKafka c) \<longleftrightarrow> kSASLPassword (cKafka c) \<noteq> '''')"
  using assms by (intro ValidateSecurity_Inr) (auto simp: Load_def Let_def ebind_Inr_iff)

definition demo_environ :: environ where
  "demo_environ = (\<lambda>_. '''')(''KAFKA_BROKERS'' := ''k1:9092, k2:9092'', ''KAFKA_SASL_USERNAME'' := ''u'',
     ''KAFKA_SASL_PASSWORD'' := ''p'')"

lemma Load_kafka_credentials_witness:
  "sasl (cKafka (load_config (\<lambda>_. None) demo_environ))"
proof -
  let ?c = "load_config (\<lambda>_. None) demo_environ"
  have b: "kBrokers (cKafka ?c) = [''k1:9092'', ''k2:9092'']" by code_simp
  have "ValidateSecurity (cKafka ?c) = Inr ()" by code_simp
  then have l: "Load (\<lambda>_. None) demo_environ = Inr ?c" by (simp add: Load_def Let_def)
  have "kSASLUsername (cKafka ?c) = ''u''" by code_simp
  with Load_kafka_credentials [OF l] b show ?thesis by simp
qed

end
