(* ===== verification/Payment.thy ===== *)
theory Payment
  imports Models Config
begin

text \<open>
  internal/services/payment_service.go. Stripe is a parameter: its answers to the calls of
  one operation, and the calls made are returned as a list. Amounts are kept in cents; the
  conversion \<open>int64(booking.TotalAmount * 100)\<close> of a \<open>float64\<close> to cents is written out, with
  its roundings.
\<close>

section \<open>Third-party functions\<close>

text \<open>
  \<open>uuid.UUID.String\<close> and \<open>uuid.Parse\<close> of github.com/google/uuid. \<open>lib_ok\<close> is their
  documented behaviour: a printed UUID parses to itself.
\<close>

record lib =
  uuid_String :: "uuid \<Rightarrow> string"
  uuid_Parse :: "string \<Rightarrow> uuid option"

definition lib_ok :: "lib \<Rightarrow> bool" where
  "lib_ok L \<longleftrightarrow> (\<forall>u. uuid_Parse L (uuid_String L u) = Some u)"

definition demo_lib :: lib where
  "demo_lib = \<lparr>uuid_String = (\<lambda>u. Itoa_nat (unat u)),
     uuid_Parse = (\<lambda>s. map_option of_nat (parse_digits s))\<rparr>"

lemma demo_lib_ok: "lib_ok demo_lib"
  by (simp add: lib_ok_def demo_lib_def parse_Itoa_nat)

lemma uuid_String_inj: "lib_ok L \<Longrightarrow> uuid_String L u = uuid_String L v \<longleftrightarrow> u = v"
  unfolding lib_ok_def by (metis option.inject)

section \<open>float64\<close>

function log2 :: "int \<Rightarrow> int" where
  "log2 n = (if n < 2 then 0 else 1 + log2 (n div 2))"
  by auto
termination by (relation "measure nat") auto

declare log2.simps [simp del]

text \<open>
  A positive \<open>float64\<close> is \<open>m * 2 ^ e\<close> with a 53-bit significand \<open>m\<close>; \<open>float64_of a b\<close> is the
  one nearest to \<open>a / b\<close>, ties to even. Amounts of money are far from the format's limits.
\<close>

definition round_div :: "int \<Rightarrow> int \<Rightarrow> int" where
  "round_div a b = (let q = a div b; r = a mod b in
     if 2 * r < b then q else if b < 2 * r then q + 1 else if even q then q else q + 1)"

definition scale :: "int \<Rightarrow> int \<Rightarrow> int \<Rightarrow> int \<times> int" where
  "scale a b e = (if 0 \<le> e then (a, b * 2 ^ nat e) else (a * 2 ^ nat (- e), b))"

definition float64_of :: "int \<Rightarrow> int \<Rightarrow> int \<times> int" where
  "float64_of a b =
     (let k = log2 a - log2 b;
          (a', b') = scale a b k;
          e = (if b' \<le> a' then k - 52 else k - 53);
          (x, y) = scale a b e
      in (round_div x y, e))"

definition float64_mul :: "int \<times> int \<Rightarrow> int \<Rightarrow> int \<times> int" where
  "float64_mul x n = (case x of (m, e) \<Rightarrow>
     if 0 \<le> e then float64_of (m * n * 2 ^ nat e) 1 else float64_of (m * n) (2 ^ nat (- e)))"

definition float64_trunc :: "int \<times> int \<Rightarrow> int" where
  "float64_trunc x = (case x of (m, e) \<Rightarrow>
     if 0 \<le> e then m * 2 ^ nat e else m div 2 ^ nat (- e))"

text \<open>\<open>int64(x * 100)\<close> for the \<open>float64\<close> \<open>x\<close> read from a column that holds \<open>cents / 100\<close>\<close>

definition amount_in_cents :: "int \<Rightarrow> int" where
  "amount_in_cents cents = (if cents = 0 then 0 else
     sgn cents * float64_trunc (float64_mul (float64_of \<bar>cents\<bar> 100) 100))"

section \<open>Stripe\<close>

datatype stripe_err = CardDeclined | StripeOther string

record PaymentIntent =
  piID :: string
  piStatus :: string
  piAmount :: int
  piCurrency :: string
  piClientSecret :: string

record PaymentIntentParams =
  ppAmount :: int
  ppCurrency :: string
  ppMetadata :: "(string \<times> string) list"
  ppDescription :: string
  ppReceiptEmail :: "string option"
  ppIdempotencyKey :: "string option"

datatype stripe_call =
    PINew PaymentIntentParams
  | PIGet string
  | PIConfirm string string string
  | RefundNew string "int option"

record stripe_api =
  pi_New :: "PaymentIntentParams \<Rightarrow> stripe_err + PaymentIntent"
  pi_Get :: "string \<Rightarrow> stripe_err + PaymentIntent"
  pi_Confirm :: "string \<Rightarrow> string \<Rightarrow> string \<Rightarrow> stripe_err + PaymentIntent"
  refund_New :: "string \<Rightarrow> int option \<Rightarrow> stripe_err option"

text \<open>\<open>PaymentResult\<close>, its amount in cents.\<close>

record PaymentResult =
  prPaymentID :: string
  prStatus :: string
  prAmount :: int
  prCurrency :: string
  prClientSecret :: string

definition stripe_Error :: "stripe_err \<Rightarrow> string" where
  "stripe_Error e = (case e of CardDeclined \<Rightarrow> ''card_declined'' | StripeOther m \<Rightarrow> m)"

section \<open>PaymentService\<close>

definition IsEnabled :: "StripeConfig \<Rightarrow> bool" where
  "IsEnabled cfg \<longleftrightarrow> stSecretKey cfg \<noteq> ''''"

definition bookingPaymentIdempotencyKey :: "lib \<Rightarrow> uuid \<Rightarrow> string" where
  "bookingPaymentIdempotencyKey L bookingID = ''booking_'' @ uuid_String L bookingID"

definition newPaymentIntentParams :: "lib \<Rightarrow> StripeConfig \<Rightarrow> Booking \<Rightarrow> PaymentIntentParams" where
  "newPaymentIntentParams L cfg b = \<lparr>
     ppAmount = amount_in_cents (bTotalAmount b), ppCurrency = stCurrency cfg,
     ppMetadata = [(''booking_id'', uuid_String L (bID b)), (''event_id'', uuid_String L (bEventID b)),
       (''user_id'', uuid_String L (bUserID b)), (''seat_id'', uuid_String L (bSeatID b))],
     ppDescription = ''Event ticket booking: '' @ uuid_String L (bID b),
     ppReceiptEmail = None, ppIdempotencyKey = None\<rparr>"

definition mapStripePaymentError :: "stripe_err \<Rightarrow> err" where
  "mapStripePaymentError e = (case e of
       CardDeclined \<Rightarrow> PayErrPaymentDeclined
     | StripeOther m \<Rightarrow> Suffixed PayErrPaymentFailed m)"

definition simulatePayment :: "lib \<Rightarrow> Booking \<Rightarrow> PaymentResult" where
  "simulatePayment L b = \<lparr>prPaymentID = ''sim_'' @ uuid_String L (bID b), prStatus = ''succeeded'',
     prAmount = bTotalAmount b, prCurrency = ''usd'', prClientSecret = ''''\<rparr>"

definition paymentResultFromIntent :: "PaymentIntent \<Rightarrow> PaymentResult" where
  "paymentResultFromIntent p = \<lparr>prPaymentID = piID p, prStatus = piStatus p,
     prAmount = piAmount p, prCurrency = piCurrency p, prClientSecret = ''''\<rparr>"

definition intent_result :: "StripeConfig \<Rightarrow> Booking \<Rightarrow> PaymentIntent \<Rightarrow> PaymentResult" where
  "intent_result cfg b p = \<lparr>prPaymentID = piID p, prStatus = piStatus p,
     prAmount = bTotalAmount b, prCurrency = stCurrency cfg, prClientSecret = piClientSecret p\<rparr>"

definition CreatePaymentIntent ::
  "lib \<Rightarrow> stripe_api \<Rightarrow> StripeConfig \<Rightarrow> Booking \<Rightarrow> string \<Rightarrow> PaymentResult res \<times> stripe_call list" where
  "CreatePaymentIntent L S cfg b userEmail =
     (if \<not> IsEnabled cfg then (Inr (simulatePayment L b), []) else
      let p = newPaymentIntentParams L cfg b;
          p1 = (if userEmail \<noteq> '''' then p\<lparr>ppReceiptEmail := Some userEmail\<rparr> else p);
          p2 = p1\<lparr>ppIdempotencyKey := Some (bookingPaymentIdempotencyKey L (bID b))\<rparr>
      in (case pi_New S p2 of
            Inl e \<Rightarrow> Inl (Wrap ''create payment intent'' (Foreign (stripe_Error e)))
          | Inr i \<Rightarrow> Inr (intent_result cfg b i), [PINew p2]))"

definition PreparePaymentIntent ::
  "lib \<Rightarrow> stripe_api \<Rightarrow> StripeConfig \<Rightarrow> Booking \<Rightarrow> PaymentResult res \<times> stripe_call list" where
  "PreparePaymentIntent L S cfg b =
     (if \<not> IsEnabled cfg then (Inr (simulatePayment L b), []) else
      let p = (newPaymentIntentParams L cfg b)\<lparr>ppIdempotencyKey :=
                Some (bookingPaymentIdempotencyKey L (bID b))\<rparr>
      in (case pi_New S p of
            Inl e \<Rightarrow> Inl (mapStripePaymentError e)
          | Inr i \<Rightarrow> Inr (intent_result cfg b i), [PINew p]))"

definition ConfirmBookingPayment ::
  "stripe_api \<Rightarrow> StripeConfig \<Rightarrow> string \<Rightarrow> PaymentResult res \<times> stripe_call list" where
  "ConfirmBookingPayment S cfg paymentIntentID =
     (if paymentIntentID = '''' then (Inl PayErrPaymentIntentMissing, [])
      else if \<not> IsEnabled cfg then
        (Inr \<lparr>prPaymentID = paymentIntentID, prStatus = ''succeeded'', prAmount = 0,
              prCurrency = ''usd'', prClientSecret = ''''\<rparr>, [])
      else case pi_Get S paymentIntentID of
        Inl e \<Rightarrow> (Inl (Wrap ''get payment intent'' (Foreign (stripe_Error e))), [PIGet paymentIntentID])
      | Inr i \<Rightarrow>
          if piStatus i = ''succeeded'' then (Inr (paymentResultFromIntent i), [PIGet paymentIntentID])
          else (case pi_Confirm S paymentIntentID ''pm_card_visa'' (stWebhookURL cfg) of
              Inl e \<Rightarrow> Inl (mapStripePaymentError e)
            | Inr i' \<Rightarrow>
                if piStatus i' \<noteq> ''succeeded''
                then Inl (Suffixed PayErrPaymentFailed (''payment status is '' @ piStatus i'))
                else Inr (paymentResultFromIntent i'),
            [PIGet paymentIntentID, PIConfirm paymentIntentID ''pm_card_visa'' (stWebhookURL cfg)]))"

definition ConfirmPayment ::
  "stripe_api \<Rightarrow> StripeConfig \<Rightarrow> string \<Rightarrow> PaymentResult res \<times> stripe_call list" where
  "ConfirmPayment S cfg paymentIntentID = ConfirmBookingPayment S cfg paymentIntentID"

definition ProcessPayment ::
  "stripe_api \<Rightarrow> StripeConfig \<Rightarrow> Booking \<Rightarrow> PaymentResult res \<times> stripe_call list" where
  "ProcessPayment S cfg b = (case bPaymentIntentID b of
       None \<Rightarrow> (Inl PayErrPaymentIntentMissing, [])
     | Some i \<Rightarrow> if i = '''' then (Inl PayErrPaymentIntentMissing, [])
                 else ConfirmBookingPayment S cfg i)"

text \<open>\<open>RefundPayment\<close>; no caller in the program uses it.\<close>

definition RefundPayment ::
  "stripe_api \<Rightarrow> StripeConfig \<Rightarrow> string \<Rightarrow> int \<Rightarrow> unit res \<times> stripe_call list" where
  "RefundPayment S cfg paymentIntentID cents =
     (if \<not> IsEnabled cfg then (Inr (), []) else
      let a = (if 0 < cents then Some (amount_in_cents cents) else None)
      in (case refund_New S paymentIntentID a of
            Some e \<Rightarrow> Inl (Suffixed PayErrRefundFailed (stripe_Error e))
          | None \<Rightarrow> Inr (), [RefundNew paymentIntentID a]))"

section \<open>Amounts\<close>

lemmas float64_defs = amount_in_cents_def float64_trunc_def float64_mul_def float64_of_def
  scale_def round_div_def

lemma undercharge: "amount_in_cents 1999 = 1998" "amount_in_cents 2500 = 2500"
  by (simp_all add: float64_defs Let_def log2.simps)

end
