(* ===== verification/Rate_Limiter.thy ===== *)
theory Rate_Limiter
  imports Redis_Kv Payment
begin

text \<open>
  internal/middleware/rate_limiter.go: the three Lua scripts over Redis counters and sorted
  sets, the in-process limiters that stand in when Redis fails, and the middleware around
  them. golang.org/x/time/rate is a parameter: a limiter's state and its \<open>Allow\<close>.
\<close>

section \<open>State and environment\<close>

record 'l rate_lib =
  NewLimiter :: "duration \<Rightarrow> int \<Rightarrow> 'l"
  Allow :: "time \<Rightarrow> 'l \<Rightarrow> bool \<times> 'l"

text \<open>
  The fields of \<open>RateLimiter\<close> that change, and the keys \<open>admission:...\<close>,
  \<open>ratelimit:simple:...\<close> (counters) and \<open>ratelimit:...\<close> (sorted sets) in Redis.
\<close>

record 'l RateLimiter =
  rlCounters :: "int kv"
  rlWindows :: "zset kv"
  rlLimiter :: 'l
  rlEventLimiters :: "string \<Rightarrow> 'l option"

definition NewRateLimiter :: "'l rate_lib \<Rightarrow> int kv \<Rightarrow> zset kv \<Rightarrow> 'l RateLimiter" where
  "NewRateLimiter R counters windows =
     \<lparr>rlCounters = counters, rlWindows = windows,
      rlLimiter = NewLimiter R (go_div Second 10) 10, rlEventLimiters = (\<lambda>_. None)\<rparr>"

text \<open>
  One request: the server's time, whether a Redis client is set, how its call fares, the
  client's address, the authenticated user if any, and what decoding the body gives.
\<close>

record rl_request =
  rqNow :: time
  rqRedis :: bool
  rqFault :: redis_fault
  rqClientIP :: string
  rqUserID :: "uuid option"
  rqEventID :: "uuid res"

text \<open>A middleware passes the request on (\<open>c.Next()\<close>) or answers it and aborts.\<close>

datatype verdict = Next | Abort int string

section \<open>Lua scripts\<close>

definition incrWithTTL :: "time \<Rightarrow> int \<Rightarrow> string \<Rightarrow> int kv \<Rightarrow> int \<times> int kv" where
  "incrWithTTL now ttl_seconds key m =
     (let (count, m1) = kv_INCRBY now key 1 m
      in (count, if count = 1 \<or> kv_TTL now key m1 < 0 then kv_EXPIRE now key ttl_seconds m1
                 else m1))"

definition eventAdmissionScript ::
  "time \<Rightarrow> string \<Rightarrow> string \<Rightarrow> int \<Rightarrow> int \<Rightarrow> int \<Rightarrow> int kv \<Rightarrow> int \<times> int kv" where
  "eventAdmissionScript now event_counter client_counter ttl_seconds event_limit client_limit m =
     (let (event_count, m1) = incrWithTTL now ttl_seconds event_counter m in
      if event_count > event_limit then
        (0, kv_EXPIRE now event_counter ttl_seconds (snd (kv_INCRBY now event_counter (- 1) m1)))
      else
        let (client_count, m2) = incrWithTTL now ttl_seconds client_counter m1 in
        if client_count > client_limit then
          (0, kv_EXPIRE now client_counter ttl_seconds
               (kv_EXPIRE now event_counter ttl_seconds
                 (snd (kv_INCRBY now client_counter (- 1)
                   (snd (kv_INCRBY now event_counter (- 1) m2))))))
        else (1, m2))"

definition fixedWindowRateLimitScript ::
  "time \<Rightarrow> string \<Rightarrow> int \<Rightarrow> int \<Rightarrow> int kv \<Rightarrow> int \<times> int kv" where
  "fixedWindowRateLimitScript now key max_requests ttl_seconds m =
     (let (count, m1) = incrWithTTL now ttl_seconds key m in
      if count > max_requests then (0, kv_EXPIRE now key ttl_seconds m1) else (1, m1))"

text \<open>A sorted set that becomes empty is deleted with its key; scores are whole seconds.\<close>

definition zset_at :: "time \<Rightarrow> string \<Rightarrow> zset kv \<Rightarrow> zset" where
  "zset_at now key m = (case kv_GET now key m of None \<Rightarrow> [] | Some z \<Rightarrow> z)"

definition put_zset :: "time \<Rightarrow> string \<Rightarrow> zset \<Rightarrow> zset kv \<Rightarrow> zset kv" where
  "put_zset now key z m = (if z = [] then kv_DEL key m
     else m(key \<mapsto> (z, case kv_live now m key of None \<Rightarrow> None | Some (_, x) \<Rightarrow> x)))"

definition slidingWindowRateLimitScript ::
  "time \<Rightarrow> string \<Rightarrow> int \<Rightarrow> int \<Rightarrow> string \<Rightarrow> int \<Rightarrow> int \<Rightarrow> zset kv \<Rightarrow> int \<times> zset kv" where
  "slidingWindowRateLimitScript now key window_start now_s m max_requests ttl_seconds w =
     (let z = filter (\<lambda>(_, s). \<not> (0 \<le> s \<and> s \<le> window_start)) (zset_at now key w);
          w1 = put_zset now key z w;
          count = int (length (filter (\<lambda>(_, s). window_start \<le> s \<and> s \<le> now_s) z))
      in if count \<ge> max_requests then (0, kv_EXPIRE now key ttl_seconds w1)
         else (1, kv_EXPIRE now key ttl_seconds (put_zset now key (ZADD now_s m z) w1)))"

section \<open>Calls of the scripts\<close>

text \<open>\<open>int(window.Seconds())\<close>\<close>

definition seconds_of :: "duration \<Rightarrow> int" where
  "seconds_of window = go_div window Second"

definition event_key :: "string \<Rightarrow> string" where
  "event_key eventID = ''admission:event:'' @ eventID @ '':count''"

definition client_key :: "string \<Rightarrow> string \<Rightarrow> string" where
  "client_key eventID clientID = ''admission:event:'' @ eventID @ '':client:'' @ clientID @ '':count''"

definition checkRedisEventAdmission ::
  "time \<Rightarrow> redis_fault \<Rightarrow> string \<Rightarrow> string \<Rightarrow> int \<Rightarrow> int \<Rightarrow> duration \<Rightarrow>
   'l RateLimiter \<Rightarrow> bool res \<times> 'l RateLimiter" where
  "checkRedisEventAdmission now f eventID clientID maxEventRequests maxClientRequests window rl =
     (if maxEventRequests \<le> 0 \<or> maxClientRequests \<le> 0 then (Inr True, rl)
      else case redis_call f (eventAdmissionScript now (event_key eventID)
          (client_key eventID clientID) (seconds_of window) maxEventRequests maxClientRequests)
          (rlCounters rl) of
        (Inl e, m) \<Rightarrow> (Inl e, rl\<lparr>rlCounters := m\<rparr>)
      | (Inr result, m) \<Rightarrow> (Inr (result = 1), rl\<lparr>rlCounters := m\<rparr>))"

definition checkRedisSimpleLimit ::
  "time \<Rightarrow> redis_fault \<Rightarrow> string \<Rightarrow> int \<Rightarrow> duration \<Rightarrow> 'l RateLimiter \<Rightarrow>
   bool res \<times> 'l RateLimiter" where
  "checkRedisSimpleLimit now f key maxRequests window rl =
     (case redis_call f (fixedWindowRateLimitScript now (''ratelimit:simple:'' @ key) maxRequests
          (seconds_of window)) (rlCounters rl) of
        (Inl e, m) \<Rightarrow> (Inl e, rl\<lparr>rlCounters := m\<rparr>)
      | (Inr result, m) \<Rightarrow> (Inr (result = 1), rl\<lparr>rlCounters := m\<rparr>))"

definition checkRedisRateLimit ::
  "time \<Rightarrow> redis_fault \<Rightarrow> string \<Rightarrow> int \<Rightarrow> duration \<Rightarrow> 'l RateLimiter \<Rightarrow>
   bool res \<times> 'l RateLimiter" where
  "checkRedisRateLimit now f key maxRequests window rl =
     (case redis_call f (slidingWindowRateLimitScript now (''ratelimit:'' @ key)
          (Unix (now - window)) (Unix now) (Itoa now) maxRequests (seconds_of window))
          (rlWindows rl) of
        (Inl e, m) \<Rightarrow> (Inl e, rl\<lparr>rlWindows := m\<rparr>)
      | (Inr result, m) \<Rightarrow> (Inr (result = 1), rl\<lparr>rlWindows := m\<rparr>))"

section \<open>The in-process limiters\<close>

definition allowLocalEvent ::
  "'l rate_lib \<Rightarrow> time \<Rightarrow> string \<Rightarrow> int \<Rightarrow> duration \<Rightarrow> 'l RateLimiter \<Rightarrow> bool \<times> 'l RateLimiter" where
  "allowLocalEvent R now eventID maxEventRequests window rl =
     (if maxEventRequests \<le> 0 then (True, rl)
      else let limiter = (case rlEventLimiters rl eventID of
              None \<Rightarrow> NewLimiter R (go_div window maxEventRequests) maxEventRequests
            | Some l \<Rightarrow> l);
          (ok, l') = Allow R now limiter
        in (ok, rl\<lparr>rlEventLimiters := (rlEventLimiters rl)(eventID \<mapsto> l')\<rparr>))"

definition allowLocal :: "'l rate_lib \<Rightarrow> time \<Rightarrow> 'l RateLimiter \<Rightarrow> bool \<times> 'l RateLimiter" where
  "allowLocal R now rl = (let (ok, l') = Allow R now (rlLimiter rl) in (ok, rl\<lparr>rlLimiter := l'\<rparr>))"

section \<open>Middleware\<close>

definition readEventID :: "rl_request \<Rightarrow> uuid res" where
  "readEventID rq = ebind (rqEventID rq) (\<lambda>eventID.
     if eventID = uuid_Nil then Inl (Foreign ''missing event_id'') else Inr eventID)"

definition writeAdmissionRejected :: verdict where
  "writeAdmissionRejected = Abort 429 ''event admission limit reached''"

definition EventAdmissionControl ::
  "lib \<Rightarrow> 'l rate_lib \<Rightarrow> int \<Rightarrow> int \<Rightarrow> duration \<Rightarrow> rl_request \<Rightarrow> 'l RateLimiter \<Rightarrow>
   verdict \<times> 'l RateLimiter" where
  "EventAdmissionControl L R maxEventRequests maxClientRequests window rq rl =
     (case readEventID rq of
        Inl _ \<Rightarrow> (Abort 400 ''invalid event_id'', rl)
      | Inr eventID \<Rightarrow>
          let clientID = (case rqUserID rq of None \<Rightarrow> rqClientIP rq | Some u \<Rightarrow> uuid_String L u);
              local = (\<lambda>rl. case allowLocalEvent R (rqNow rq) (uuid_String L eventID)
                          maxEventRequests window rl of
                  (ok, rl') \<Rightarrow> (if \<not> ok then writeAdmissionRejected else Next, rl'))
          in if rqRedis rq then
               (case checkRedisEventAdmission (rqNow rq) (rqFault rq) (uuid_String L eventID)
                       clientID maxEventRequests maxClientRequests window rl of
                  (Inr allowed, rl') \<Rightarrow> (if \<not> allowed then writeAdmissionRejected else Next, rl')
                | (Inl _, rl') \<Rightarrow> local rl')
             else local rl)"

definition limited_by ::
  "'l rate_lib \<Rightarrow> (rl_request \<Rightarrow> 'l RateLimiter \<Rightarrow> bool res \<times> 'l RateLimiter) \<Rightarrow> string \<Rightarrow>
   rl_request \<Rightarrow> 'l RateLimiter \<Rightarrow> verdict \<times> 'l RateLimiter" where
  "limited_by R check message rq rl =
     (let local = (\<lambda>rl. case allowLocal R (rqNow rq) rl of
          (ok, rl') \<Rightarrow> (if \<not> ok then Abort 429 message else Next, rl'))
      in if rqRedis rq then
           (case check rq rl of
              (Inr allowed, rl') \<Rightarrow> (if \<not> allowed then Abort 429 message else Next, rl')
            | (Inl _, rl') \<Rightarrow> local rl')
         else local rl)"

definition SimpleRateLimit ::
  "'l rate_lib \<Rightarrow> rl_request \<Rightarrow> 'l RateLimiter \<Rightarrow> verdict \<times> 'l RateLimiter" where
  "SimpleRateLimit R = limited_by R
     (\<lambda>rq. checkRedisSimpleLimit (rqNow rq) (rqFault rq) (rqClientIP rq) 1000 Minute)
     ''rate limit exceeded''"

definition VirtualWaitingRoom ::
  "'l rate_lib \<Rightarrow> int \<Rightarrow> duration \<Rightarrow> rl_request \<Rightarrow> 'l RateLimiter \<Rightarrow> verdict \<times> 'l RateLimiter" where
  "VirtualWaitingRoom R maxRequests window = limited_by R
     (\<lambda>rq. checkRedisRateLimit (rqNow rq) (rqFault rq) (rqClientIP rq) maxRequests window)
     ''too many requests, please wait''"

section \<open>The admission script against a window counter\<close>

text \<open>
  The specification: within one window a request is admitted as long as fewer than
  \<open>event_limit\<close> requests have been admitted in all and fewer than \<open>client_limit\<close> of the same
  client. \<open>adm\<close> is the list of the clients admitted so far.
\<close>

fun window_spec :: "int \<Rightarrow> int \<Rightarrow> string list \<Rightarrow> string list \<Rightarrow> bool list" where
  "window_spec event_limit client_limit adm [] = []"
| "window_spec event_limit client_limit adm (c # cs) =
     (if int (length adm) < event_limit \<and> cnt ((=) c) adm < client_limit
      then True # window_spec event_limit client_limit (c # adm) cs
      else False # window_spec event_limit client_limit adm cs)"

text \<open>The script on the requests of one event: their times and clients.\<close>

fun admit_all :: "string \<Rightarrow> int \<Rightarrow> int \<Rightarrow> int \<Rightarrow> (time \<times> string) list \<Rightarrow> int kv \<Rightarrow> bool list" where
  "admit_all e ttl el cl [] m = []"
| "admit_all e ttl el cl ((t, c) # rs) m =
     (case eventAdmissionScript t (event_key e) (client_key e c) ttl el cl m of
        (r, m') \<Rightarrow> (r = 1) # admit_all e ttl el cl rs m')"

lemma key_simps [simp]:
  "event_key e \<noteq> client_key e c" "client_key e c \<noteq> event_key e"
  "client_key e c = client_key e c' \<longleftrightarrow> c = c'"
  by (auto simp: event_key_def client_key_def)

text \<open>
  \<open>counts t0 T n m k\<close>: from \<open>t0\<close> to \<open>T\<close> the key \<open>k\<close> counts \<open>n\<close>: it holds \<open>n\<close> and lives until
  \<open>T\<close> at least, or \<open>n\<close> is 0 and it is absent.
\<close>

definition counts :: "time \<Rightarrow> time \<Rightarrow> int \<Rightarrow> int kv \<Rightarrow> string \<Rightarrow> bool" where
  "counts t0 T n m k \<longleftrightarrow> (case m k of
     None \<Rightarrow> n = 0
   | Some (v, x) \<Rightarrow> (case x of None \<Rightarrow> False
       | Some e \<Rightarrow> (e \<le> t0 \<and> n = 0) \<or> (v = n \<and> T \<le> e)))"

lemma incr_counts:
  assumes "counts t0 T n m k" "t0 \<le> t" "t < T" "T \<le> t + ttl * Second" "0 < ttl"
    and "incrWithTTL t ttl k m = (v, m')"
  shows "v = n + 1" "counts t0 T (n + 1) m' k" "k' \<noteq> k \<Longrightarrow> m' k' = m k'"
proof -
  consider (new) "kv_live t m k = None" "n = 0"
    | (old) e where "m k = Some (n, Some e)" "T \<le> e"
    using assms(1-3) by (auto simp: counts_def kv_live_def split: option.splits if_splits)
  note cases = this
  have "v = n + 1 \<and> counts t0 T (n + 1) m' k \<and> (k' \<noteq> k \<longrightarrow> m' k' = m k')"
    using cases
  proof cases
    case new
    then show ?thesis using assms(2-6)
      by (auto simp: incrWithTTL_def kv_INCRBY_def kv_EXPIRE_def kv_live_def counts_def)
  next
    case old
    let ?m1 = "m(k \<mapsto> (n + 1, Some e))"
    have "kv_live t ?m1 k = Some (n + 1, Some e)"
      using old assms(3) by (simp add: kv_live_def)
    moreover have "kv_INCRBY t k 1 m = (n + 1, ?m1)"
      using old assms(3) by (simp add: kv_INCRBY_def kv_live_def)
    ultimately show ?thesis
      using old assms(2-6) kv_TTL_live [of t ?m1 k "n + 1" e]
      by (auto simp: incrWithTTL_def kv_EXPIRE_def counts_def split: if_splits)
  qed
  then show "v = n + 1" "counts t0 T (n + 1) m' k" "k' \<noteq> k \<Longrightarrow> m' k' = m k'" by auto
qed

text \<open>Taking a rejected request back: \<open>DECR\<close>, then \<open>EXPIRE\<close>.\<close>

lemma decr_counts:
  assumes "counts t0 T (n + 1) m k" "0 \<le> n" "t0 \<le> t" "t < T"
  shows "counts t0 T n (snd (kv_INCRBY t k (- 1) m)) k"
    and "k' \<noteq> k \<Longrightarrow> snd (kv_INCRBY t k (- 1) m) k' = m k'"
  using assms by (auto simp: counts_def kv_INCRBY_def kv_live_def split: option.splits if_splits)

lemma expire_counts:
  assumes "counts t0 T n m k" "t0 \<le> t" "t < T" "T \<le> t + ttl * Second" "0 < ttl"
  shows "counts t0 T n (kv_EXPIRE t k ttl m) k"
    and "k' \<noteq> k \<Longrightarrow> kv_EXPIRE t k ttl m k' = m k'"
  using assms by (auto simp: counts_def kv_EXPIRE_def kv_live_def split: option.splits if_splits)

lemma counts_cong: "counts t0 T n m k \<Longrightarrow> m' k = m k \<Longrightarrow> counts t0 T n m' k"
  by (simp add: counts_def)

text \<open>One run of the script, on the counters of its two keys; other keys are left alone.\<close>

lemma admission_step:
  assumes e: "counts t0 T n m (event_key E)" and c: "counts t0 T k m (client_key E C)"
    and t: "t0 \<le> t" "t < T" "T \<le> t + ttl * Second" "0 < ttl" and nk: "0 \<le> n" "0 \<le> k"
    and r: "eventAdmissionScript t (event_key E) (client_key E C) ttl el cl m = (r, m')"
  shows "(r = 1) \<longleftrightarrow> n < el \<and> k < cl"
    and "counts t0 T (if n < el \<and> k < cl then n + 1 else n) m' (event_key E)"
    and "counts t0 T (if n < el \<and> k < cl then k + 1 else k) m' (client_key E C)"
    and "\<And>key. key \<noteq> event_key E \<Longrightarrow> key \<noteq> client_key E C \<Longrightarrow> m' key = m key"
proof -
  let ?e = "event_key E" and ?c = "client_key E C"
  obtain v m1 where i1: "incrWithTTL t ttl ?e m = (v, m1)" by force
  note e1 = incr_counts [OF e t i1]
  have c1: "counts t0 T k m1 ?c" by (rule counts_cong [OF c]) (simp add: e1(3))
  obtain w m2 where i2: "incrWithTTL t ttl ?c m1 = (w, m2)" by force
  note c2 = incr_counts [OF c1 t i2]
  have e2: "counts t0 T (n + 1) m2 ?e" by (rule counts_cong [OF e1(2)]) (simp add: c2(3))
  define a1 where "a1 = snd (kv_INCRBY t ?e (- 1) m1)"
  define a2 where "a2 = kv_EXPIRE t ?e ttl a1"
  note d1 = decr_counts [OF e1(2) nk(1) t(1,2)]
  note d2 = expire_counts [OF d1(1) t]
  define b1 where "b1 = snd (kv_INCRBY t ?e (- 1) m2)"
  define b2 where "b2 = snd (kv_INCRBY t ?c (- 1) b1)"
  define b3 where "b3 = kv_EXPIRE t ?e ttl b2"
  define b4 where "b4 = kv_EXPIRE t ?c ttl b3"
  note f1 = decr_counts [OF e2 nk(1) t(1,2), folded b1_def]
  have f1c: "counts t0 T (k + 1) b1 ?c" by (rule counts_cong [OF c2(2)]) (simp add: f1(2))
  note f2 = decr_counts [OF f1c nk(2) t(1,2), folded b2_def]
  have f2e: "counts t0 T n b2 ?e" by (rule counts_cong [OF f1(1)]) (simp add: f2(2))
  note f3 = expire_counts [OF f2e t, folded b3_def]
  have f3c: "counts t0 T k b3 ?c" by (rule counts_cong [OF f2(1)]) (simp add: f3(2))
  note f4 = expire_counts [OF f3c t, folded b4_def]
  have f4e: "counts t0 T n b4 ?e" by (rule counts_cong [OF f3(1)]) (simp add: f4(2))
  consider (full) "\<not> n < el" "r = 0" "m' = a2" | (client) "n < el" "\<not> k < cl" "r = 0" "m' = b4"
    | (ok) "n < el" "k < cl" "r = 1" "m' = m2"
    using r by (auto simp: eventAdmissionScript_def i1 i2 e1(1) c2(1) Let_def a1_def a2_def
        b1_def b2_def b3_def b4_def split: if_splits)
  note cases = this
  have a2c: "counts t0 T k a2 ?c"
    by (rule counts_cong [OF c1]) (simp add: d1(2) d2(2) a1_def a2_def)
  have keep: "a2 key = m key" "b4 key = m key" "m2 key = m key" if "key \<noteq> ?e" "key \<noteq> ?c" for key
    using that e1(3) c2(3) d1(2) d2(2) f1(2) f2(2) f3(2) f4(2) by (simp_all add: a1_def a2_def)
  show "(r = 1) \<longleftrightarrow> n < el \<and> k < cl" using cases by cases auto
  show "counts t0 T (if n < el \<and> k < cl then n + 1 else n) m' ?e"
    using cases d2(1) f4e e2 by cases (auto simp: a1_def a2_def)
  show "counts t0 T (if n < el \<and> k < cl then k + 1 else k) m' ?c"
    using cases a2c f4(1) c2(2) by cases auto
  show "m' key = m key" if "key \<noteq> ?e" "key \<noteq> ?c" for key
    using cases keep that by cases auto
qed

lemma admit_all_spec:
  assumes "counts t0 T (int (length adm)) m (event_key E)"
    and "\<And>c. counts t0 T (cnt ((=) c) adm) m (client_key E c)"
    and "\<forall>(t, c) \<in> set rs. t0 \<le> t \<and> t < T" "T \<le> t0 + ttl * Second" "0 < ttl"
  shows "admit_all E ttl el cl rs m = window_spec el cl adm (map snd rs)"
  using assms
proof (induction rs arbitrary: adm m)
  case Nil
  show ?case by simp
next
  case (Cons tc rs)
  obtain t c where tc: "tc = (t, c)" by force
  obtain r m' where r: "eventAdmissionScript t (event_key E) (client_key E c) ttl el cl m = (r, m')"
    by force
  let ?ok = "int (length adm) < el \<and> cnt ((=) c) adm < cl"
  let ?adm = "if ?ok then c # adm else adm"
  have t: "t0 \<le> t" "t < T" "T \<le> t + ttl * Second" "0 < ttl"
    using Cons.prems(3-5) tc by auto
  note s = admission_step [OF Cons.prems(1) Cons.prems(2) t _ _ r, simplified]
  have e: "counts t0 T (int (length ?adm)) m' (event_key E)"
    using s(2) by (cases ?ok) (auto simp: add.commute)
  have k: "counts t0 T (cnt ((=) c') ?adm) m' (client_key E c')" for c'
  proof (cases "c' = c")
    case True
    then show ?thesis using s(3) by (cases ?ok) (auto simp: add.commute)
  next
    case False
    then have "m' (client_key E c') = m (client_key E c')" using s(4) by simp
    with Cons.prems(2) [of c'] have "counts t0 T (cnt ((=) c') adm) m' (client_key E c')"
      by (rule counts_cong)
    then show ?thesis using False by simp
  qed
  have "admit_all E ttl el cl rs m' = window_spec el cl ?adm (map snd rs)"
    using Cons.IH [OF e k] Cons.prems(3-5) by auto
  then show ?case using s(1) by (auto simp: tc r)
qed

lemma window_spec_total:
  "int (length adm) \<le> el \<Longrightarrow> int (length adm) + cnt (\<lambda>b. b) (window_spec el cl adm cs) \<le> el"
proof (induction cs arbitrary: adm)
  case (Cons d cs)
  from Cons.IH [of "d # adm"] Cons.IH [of adm] Cons.prems show ?case by auto
qed simp

lemma window_spec_client:
  "cnt ((=) c) adm \<le> cl \<Longrightarrow>
   cnt ((=) c) adm + cnt (\<lambda>(d, b). b \<and> d = c) (zip cs (window_spec el cl adm cs)) \<le> cl"
proof (induction cs arbitrary: adm)
  case (Cons d cs)
  from Cons.IH [of "d # adm"] Cons.IH [of adm] Cons.prems show ?case by auto
qed simp

lemma fresh_counts: "kv_live t0 m k = None \<Longrightarrow> counts t0 T 0 m k"
  by (auto simp: counts_def kv_live_def split: option.splits if_splits)

section \<open>The middleware in one window\<close>

definition client_of :: "lib \<Rightarrow> rl_request \<Rightarrow> string" where
  "client_of L rq = (case rqUserID rq of None \<Rightarrow> rqClientIP rq | Some u \<Rightarrow> uuid_String L u)"

fun admissions ::
  "lib \<Rightarrow> 'l rate_lib \<Rightarrow> int \<Rightarrow> int \<Rightarrow> duration \<Rightarrow> rl_request list \<Rightarrow> 'l RateLimiter \<Rightarrow> verdict list" where
  "admissions L R el cl window [] rl = []"
| "admissions L R el cl window (rq # rqs) rl =
     (case EventAdmissionControl L R el cl window rq rl of
        (v, rl') \<Rightarrow> v # admissions L R el cl window rqs rl')"

definition admission_request :: "uuid \<Rightarrow> rl_request \<Rightarrow> bool" where
  "admission_request eventID rq \<longleftrightarrow>
     rqRedis rq \<and> rqFault rq = None \<and> rqEventID rq = Inr eventID \<and> eventID \<noteq> uuid_Nil"

definition verdict_of :: "bool \<Rightarrow> verdict" where
  "verdict_of ok = (if ok then Next else writeAdmissionRejected)"

lemma EventAdmissionControl_redis:
  assumes "admission_request E rq" "0 < el" "0 < cl"
    and "eventAdmissionScript (rqNow rq) (event_key (uuid_String L E))
           (client_key (uuid_String L E) (client_of L rq)) (seconds_of window) el cl
           (rlCounters rl) = (r, m')"
  shows "EventAdmissionControl L R el cl window rq rl =
           (verdict_of (r = 1), rl\<lparr>rlCounters := m'\<rparr>)"
  using assms
  by (simp add: EventAdmissionControl_def readEventID_def admission_request_def client_of_def
      checkRedisEventAdmission_def redis_call_def verdict_of_def Let_def)

lemma admissions_script:
  assumes "\<forall>rq \<in> set rqs. admission_request E rq" "0 < el" "0 < cl"
  shows "admissions L R el cl window rqs rl =
    map verdict_of (admit_all (uuid_String L E) (seconds_of window) el cl
      (map (\<lambda>rq. (rqNow rq, client_of L rq)) rqs) (rlCounters rl))"
  using assms
proof (induction rqs arbitrary: rl)
  case (Cons rq rqs)
  obtain r m' where r: "eventAdmissionScript (rqNow rq) (event_key (uuid_String L E))
      (client_key (uuid_String L E) (client_of L rq)) (seconds_of window) el cl
      (rlCounters rl) = (r, m')" by force
  have "EventAdmissionControl L R el cl window rq rl = (verdict_of (r = 1), rl\<lparr>rlCounters := m'\<rparr>)"
    using EventAdmissionControl_redis [OF _ _ _ r] Cons.prems by simp
  then show ?case using Cons.IH [of "rl\<lparr>rlCounters := m'\<rparr>"] Cons.prems by (simp add: r)
qed simp

definition no_admission_keys :: "time \<Rightarrow> string \<Rightarrow> int kv \<Rightarrow> bool" where
  "no_admission_keys t0 eventID m \<longleftrightarrow> kv_live t0 m (event_key eventID) = None \<and>
     (\<forall>c. kv_live t0 m (client_key eventID c) = None)"

lemma verdict_of_eq [simp]: "verdict_of b = Next \<longleftrightarrow> b"
  by (simp add: verdict_of_def writeAdmissionRejected_def)

text \<open>
  C33. Admission control does what a window counter does. While Redis answers, the verdicts
  on the requests for one event in the window that starts when the event has no counters
  are those of the specification \<open>window_spec\<close>: at most \<open>maxEventRequests\<close> of them are let
  through, at most \<open>maxClientRequests\<close> of any one client (the authenticated user, or the
  address), and a request is rejected only when one of the two limits is used up.
\<close>

theorem admission_window:
  assumes "\<forall>rq \<in> set rqs. admission_request E rq \<and>
      t0 \<le> rqNow rq \<and> rqNow rq < t0 + seconds_of window * Second"
    and "0 < el" "0 < cl" "0 < seconds_of window"
    and "no_admission_keys t0 (uuid_String L E) (rlCounters rl)"
  shows "admissions L R el cl window rqs rl =
      map verdict_of (window_spec el cl [] (map (client_of L) rqs)) \<and>
    cnt (\<lambda>v. v = Next) (admissions L R el cl window rqs rl) \<le> el \<and>
    cnt (\<lambda>(c, v). v = Next \<and> c = client)
      (zip (map (client_of L) rqs) (admissions L R el cl window rqs rl)) \<le> cl"
proof -
  let ?rs = "map (\<lambda>rq. (rqNow rq, client_of L rq)) rqs"
  let ?spec = "window_spec el cl [] (map (client_of L) rqs)"
  have "admit_all (uuid_String L E) (seconds_of window) el cl ?rs (rlCounters rl) =
      window_spec el cl [] (map snd ?rs)"
    using assms by (intro admit_all_spec [where ?t0.0 = t0 and T = "t0 + seconds_of window * Second"])
      (auto simp: no_admission_keys_def intro: fresh_counts)
  then have 1: "admissions L R el cl window rqs rl = map verdict_of ?spec"
    using assms by (subst admissions_script [where E = E]) (simp_all add: comp_def)
  have 2: "cnt (\<lambda>b. b) ?spec \<le> el"
    using window_spec_total [where adm = "[]"] assms(2) by fastforce
  have 3: "cnt (\<lambda>(d, b). b \<and> d = client) (zip (map (client_of L) rqs) ?spec) \<le> cl"
    using window_spec_client [where adm = "[]" and c = client] assms(3) by fastforce
  show ?thesis using 2 3
    by (simp add: 1 zip_map2 cnt_map comp_def split_def)
qed

text \<open>A machine for the witnesses: a limiter that always allows.\<close>

definition open_rates :: "unit rate_lib" where
  "open_rates = \<lparr>NewLimiter = (\<lambda>_ _. ()), Allow = (\<lambda>_ _. (True, ()))\<rparr>"

definition demo_request :: "time \<Rightarrow> uuid \<Rightarrow> rl_request" where
  "demo_request t u = \<lparr>rqNow = t, rqRedis = True, rqFault = None, rqClientIP = ''10.0.0.1'',
     rqUserID = Some u, rqEventID = Inr 7\<rparr>"

definition demo_requests :: "rl_request list" where
  "demo_requests = map (\<lambda>(t, u). demo_request (t * Second) u)
     [(0, 1), (10, 1), (20, 1), (30, 2), (40, 3), (50, 2)]"

text \<open>Six requests in a minute, three admitted in all and at most two per client.\<close>

lemma admission_window_witness:
  "admissions demo_lib open_rates 3 2 Minute demo_requests
     (NewRateLimiter open_rates (\<lambda>_. None) (\<lambda>_. None)) =
   map verdict_of [True, True, False, True, False, False]"
proof -
  have "admissions demo_lib open_rates 3 2 Minute demo_requests
      (NewRateLimiter open_rates (\<lambda>_. None) (\<lambda>_. None)) =
    map verdict_of (window_spec 3 2 [] (map (client_of demo_lib) demo_requests))"
    by (rule conjunct1 [OF admission_window [where E = 7 and ?t0.0 = 0]])
      (auto simp: demo_requests_def demo_request_def admission_request_def uuid_Nil_def
        duration_defs seconds_of_def go_div_def no_admission_keys_def kv_live_def NewRateLimiter_def)
  also have "\<dots> = map verdict_of [True, True, False, True, False, False]"
    by (simp add: demo_requests_def demo_request_def client_of_def demo_lib_def Itoa_nat.simps digit_def)
  finally show ?thesis .
qed

section \<open>What the extended expiry does\<close>

text \<open>
  A rejected request renews the expiry of the event's counter. Once \<open>event_limit\<close> requests
  have been admitted, requests that keep coming less than a window apart are all rejected,
  however long that goes on: no new window begins while there is demand.
\<close>

fun closer_than :: "int \<Rightarrow> time \<Rightarrow> time list \<Rightarrow> bool" where
  "closer_than d t [] \<longleftrightarrow> True"
| "closer_than d t (u # us) \<longleftrightarrow> t \<le> u \<and> u < t + d \<and> closer_than d u us"

lemma full_event_step:
  assumes "kv_live t m (event_key E) = Some (el, Some e)" "0 < ttl"
  shows "eventAdmissionScript t (event_key E) k ttl el cl m =
    (0, m(event_key E \<mapsto> (el, Some (t + ttl * Second))))"
proof -
  let ?m = "m(event_key E \<mapsto> (el + 1, Some e))"
  from assms(1) have t: "t < e" by (auto simp: kv_live_def split: option.splits if_splits)
  then have l: "kv_live t ?m (event_key E) = Some (el + 1, Some e)" by (simp add: kv_live_def)
  have i: "kv_INCRBY t (event_key E) 1 m = (el + 1, ?m)" using assms(1) by (simp add: kv_INCRBY_def)
  show ?thesis
    using t l assms kv_TTL_live [OF l]
    by (auto simp: eventAdmissionScript_def incrWithTTL_def i Let_def kv_INCRBY_def kv_EXPIRE_def
        kv_live_def Second_def split: if_splits)
qed

lemma admission_lockout:
  assumes "0 < ttl" "m (event_key E) = Some (el, Some (t + ttl * Second))"
    and "closer_than (ttl * Second) t (map fst rs)"
  shows "admit_all E ttl el cl rs m = map (\<lambda>_. False) rs"
  using assms(2-3)
proof (induction rs arbitrary: t m)
  case (Cons r rs)
  obtain u c where r: "r = (u, c)" by force
  with Cons.prems have "kv_live u m (event_key E) = Some (el, Some (t + ttl * Second))"
    by (simp add: kv_live_def)
  note step = full_event_step [OF this assms(1)]
  show ?case using Cons.IH [of "m(event_key E \<mapsto> (el, Some (u + ttl * Second)))" u]
      Cons.prems by (simp add: r step del: fun_upd_apply) (simp add: fun_upd_def)
qed simp

end
