(* ===== verification/Idempotency.thy ===== *)
theory Idempotency
  imports Redis_Kv
begin

text \<open>
  internal/middleware/idempotency.go: a response is cached under the request's
  \<open>Idempotency-Key\<close>, and a lock keeps a second request with the key out while the first one
  runs. The middleware is split at its four calls of Redis and where the handler runs: requests
  interleave between any two of these steps. How the calls of Redis fare is given by a fault
  per call.
\<close>

section \<open>State\<close>

record response =
  rsStatus :: int
  rsHeader :: "(string \<times> string list) list"
  rsBody :: string

record CachedResponse =
  crStatusCode :: int
  crHeaders :: "(string \<times> string) list"
  crBody :: string

text \<open>The keys \<open>idempotency:<key>\<close> and \<open>idempotency:lock:<key>\<close> of Redis, by the key alone.\<close>

record idem =
  imCache :: "CachedResponse kv"
  imLock :: "unit kv"

definition no_idem :: idem where
  "no_idem = \<lparr>imCache = (\<lambda>_. None), imLock = (\<lambda>_. None)\<rparr>"

definition idempotencyTTL :: duration where "idempotencyTTL = 24 * Hour"
definition idempotencyLockTTL :: duration where "idempotencyLockTTL = 30 * Second"

datatype idem_call = CacheGet | LockSetNX | CacheSet | LockDel

text \<open>The method and the header of a request; whether Redis is there and how its calls fare.\<close>

record idem_request =
  iqMethod :: string
  iqKey :: string

record idem_env =
  ieRedis :: bool
  ieFault :: "idem_call \<Rightarrow> redis_fault"

section \<open>The steps of the middleware\<close>

text \<open>
  \<open>Pass\<close>: the middleware does nothing; \<open>Replay\<close>: it answers from the cache; \<open>Conflict\<close>: 409;
  \<open>Handle l\<close>: the handler runs, with the lock acquired or not.
\<close>

datatype idem_start = Pass | Replay CachedResponse | Conflict | Handle bool

text \<open>The guards and \<open>GET\<close>: an answer, or none and the request goes on.\<close>

definition idem_lookup :: "idem_env \<Rightarrow> time \<Rightarrow> idem_request \<Rightarrow> idem \<Rightarrow> idem_start option" where
  "idem_lookup env now rq s =
     (if iqMethod rq \<notin> {''POST'', ''PUT'', ''PATCH''} \<or> iqKey rq = '''' then Some Pass
      else if \<not> ieRedis env then None
      else case fst (redis_call (ieFault env CacheGet) (\<lambda>m. (kv_GET now (iqKey rq) m, m)) (imCache s)) of
          Inr (Some r) \<Rightarrow> Some (Replay r)
        | _ \<Rightarrow> None)"

text \<open>\<open>SETNX\<close>, and whether the handler runs.\<close>

definition idem_lock :: "idem_env \<Rightarrow> time \<Rightarrow> idem_request \<Rightarrow> idem \<Rightarrow> idem_start \<times> idem" where
  "idem_lock env now rq s =
     (if \<not> ieRedis env then (Handle False, s)
      else case redis_call (ieFault env LockSetNX)
          (kv_SETNX now (iqKey rq) () idempotencyLockTTL) (imLock s) of
        (Inr locked, m) \<Rightarrow> (if locked then Handle True else Conflict, s\<lparr>imLock := m\<rparr>)
      | (Inl _, m) \<Rightarrow> (Handle False, s\<lparr>imLock := m\<rparr>))"

definition cached_of :: "response \<Rightarrow> CachedResponse" where
  "cached_of r = \<lparr>crStatusCode = rsStatus r,
     crHeaders = map (\<lambda>(k, v). (k, hd v)) (filter (\<lambda>(_, v). 0 < length v) (rsHeader r)),
     crBody = rsBody r\<rparr>"

definition success :: "response \<Rightarrow> bool" where
  "success r \<longleftrightarrow> \<not> (rsStatus r < 200 \<or> rsStatus r \<ge> 300)"

text \<open>After the handler: \<open>SET\<close> caches a success; only then the lock is to be released.\<close>

definition idem_store ::
  "idem_env \<Rightarrow> time \<Rightarrow> idem_request \<Rightarrow> bool \<Rightarrow> response \<Rightarrow> idem \<Rightarrow> bool \<times> idem" where
  "idem_store env now rq lockAcquired r s =
     (if \<not> ieRedis env \<or> \<not> lockAcquired then (False, s)
      else if \<not> success r then (False, s)
      else case redis_call (ieFault env CacheSet)
          (\<lambda>m. ((), kv_SET now (iqKey rq) (cached_of r) idempotencyTTL m)) (imCache s) of
        (Inl _, m) \<Rightarrow> (False, s\<lparr>imCache := m\<rparr>)
      | (Inr _, m) \<Rightarrow> (True, s\<lparr>imCache := m\<rparr>))"

definition idem_unlock :: "idem_env \<Rightarrow> idem_request \<Rightarrow> idem \<Rightarrow> idem" where
  "idem_unlock env rq s =
     s\<lparr>imLock := snd (redis_call (ieFault env LockDel) (\<lambda>m. ((), kv_DEL (iqKey rq) m)) (imLock s))\<rparr>"

text \<open>
  The middleware around a handler. The handler is a function on the rest of the program's
  state; \<open>at c\<close> is the time of the call \<open>c\<close> and \<open>other c\<close> what the other requests have done
  when it is made, since the call before.
\<close>

definition IdempotencyKey ::
  "idem_env \<Rightarrow> (idem_call \<Rightarrow> time) \<Rightarrow> (idem_call \<Rightarrow> idem \<times> 'w \<Rightarrow> idem \<times> 'w) \<Rightarrow> idem_request \<Rightarrow>
   ('w \<Rightarrow> response \<times> 'w) \<Rightarrow> idem \<times> 'w \<Rightarrow> (CachedResponse + response) \<times> idem \<times> 'w" where
  "IdempotencyKey env at other rq handler sw =
     (case idem_lookup env (at CacheGet) rq (fst sw) of
        Some (Replay c) \<Rightarrow> (Inl c, sw)
      | Some _ \<Rightarrow> (case handler (snd sw) of (r, w) \<Rightarrow> (Inr r, fst sw, w))
      | None \<Rightarrow> (case other LockSetNX sw of (s1, w1) \<Rightarrow>
          (case idem_lock env (at LockSetNX) rq s1 of
             (Handle l, s2) \<Rightarrow> (case handler w1 of (r, w2) \<Rightarrow>
               (case other CacheSet (s2, w2) of (s3, w3) \<Rightarrow>
                 (case idem_store env (at CacheSet) rq l r s3 of
                    (False, s4) \<Rightarrow> (Inr r, s4, w3)
                  | (True, s4) \<Rightarrow> (case other LockDel (s4, w3) of (s5, w5) \<Rightarrow>
                      (Inr r, idem_unlock env rq s5, w5)))))
           | (_, s2) \<Rightarrow> (Inr \<lparr>rsStatus = 409, rsHeader = [],
               rsBody = ''request with this idempotency key is already in progress''\<rparr>, s2, w1))))"

section \<open>Interleaved requests\<close>

text \<open>
  A request's own position in the middleware, with the time it took the lock. Requests make
  their steps at given times, in any order; a step that a request is not at does nothing.
\<close>

datatype idem_phase = RqFresh | RqMissed | RqRunning bool time | RqStored time | RqDone

datatype idem_event =
    Lookup time nat
  | TakeLock time nat
  | Respond time nat response
  | Unlock time nat

fun event_time :: "idem_event \<Rightarrow> time" where
  "event_time (Lookup t _) = t"
| "event_time (TakeLock t _) = t"
| "event_time (Respond t _ _) = t"
| "event_time (Unlock t _) = t"

fun event_request :: "idem_event \<Rightarrow> nat" where
  "event_request (Lookup _ q) = q"
| "event_request (TakeLock _ q) = q"
| "event_request (Respond _ q _) = q"
| "event_request (Unlock _ q) = q"

text \<open>What the middleware has answered each request, or that it runs its handler, is kept.\<close>

record idem_run =
  irState :: idem
  irPhase :: "nat \<Rightarrow> idem_phase"
  irAnswer :: "nat \<Rightarrow> idem_start option"

definition idem_initial :: idem_run where
  "idem_initial = \<lparr>irState = no_idem, irPhase = (\<lambda>_. RqFresh), irAnswer = (\<lambda>_. None)\<rparr>"

type_synonym idem_requests = "nat \<Rightarrow> idem_env \<times> idem_request"

fun idem_exec :: "idem_requests \<Rightarrow> idem_event \<Rightarrow> idem_run \<Rightarrow> idem_run" where
  "idem_exec reqs (Lookup t q) s =
     (if irPhase s q \<noteq> RqFresh then s
      else case idem_lookup (fst (reqs q)) t (snd (reqs q)) (irState s) of
          Some a \<Rightarrow> s\<lparr>irPhase := (irPhase s)(q := RqDone), irAnswer := (irAnswer s)(q \<mapsto> a)\<rparr>
        | None \<Rightarrow> s\<lparr>irPhase := (irPhase s)(q := RqMissed)\<rparr>)"
| "idem_exec reqs (TakeLock t q) s =
     (if irPhase s q \<noteq> RqMissed then s
      else case idem_lock (fst (reqs q)) t (snd (reqs q)) (irState s) of
          (a, st) \<Rightarrow> s\<lparr>irState := st, irAnswer := (irAnswer s)(q \<mapsto> a),
            irPhase := (irPhase s)(q := (case a of Handle l \<Rightarrow> RqRunning l t | _ \<Rightarrow> RqDone))\<rparr>)"
| "idem_exec reqs (Respond t q resp) s =
     (case irPhase s q of
        RqRunning l t0 \<Rightarrow> (case idem_store (fst (reqs q)) t (snd (reqs q)) l resp (irState s) of
          (stored, st) \<Rightarrow> s\<lparr>irState := st,
            irPhase := (irPhase s)(q := (if stored then RqStored t0 else RqDone))\<rparr>)
      | _ \<Rightarrow> s)"
| "idem_exec reqs (Unlock t q) s =
     (case irPhase s q of
        RqStored _ \<Rightarrow> s\<lparr>irState := idem_unlock (fst (reqs q)) (snd (reqs q)) (irState s),
          irPhase := (irPhase s)(q := RqDone)\<rparr>
      | _ \<Rightarrow> s)"

text \<open>Which requests hold the lock, and since when.\<close>

fun holding :: "idem_phase \<Rightarrow> time option" where
  "holding (RqRunning True t) = Some t"
| "holding (RqStored t) = Some t"
| "holding _ = None"

definition holds :: "idem_requests \<Rightarrow> string \<Rightarrow> idem_run \<Rightarrow> nat \<Rightarrow> bool" where
  "holds reqs k s q \<longleftrightarrow> iqKey (snd (reqs q)) = k \<and> holding (irPhase s q) \<noteq> None"

text \<open>
  The traces of \<open>n\<close> requests: time does not go back, and whoever holds the lock for \<open>k\<close> has
  held it for less than its 30 seconds at every event.
\<close>

fun timely :: "idem_requests \<Rightarrow> nat \<Rightarrow> string \<Rightarrow> time \<Rightarrow> idem_event list \<Rightarrow> idem_run \<Rightarrow> bool" where
  "timely reqs n k now [] s \<longleftrightarrow> True"
| "timely reqs n k now (e # es) s \<longleftrightarrow> now \<le> event_time e \<and> event_request e < n \<and>
     (\<forall>q<n. holds reqs k s q \<longrightarrow> event_time e < the (holding (irPhase s q)) + idempotencyLockTTL) \<and>
     timely reqs n k (event_time e) es (idem_exec reqs e s)"

section \<open>One handler at a time\<close>

text \<open>What a step does to the cache entry and the lock of a key.\<close>

lemma idem_lock_effect:
  assumes "idem_lock env t rq s = (a, s')"
  shows "imCache s' = imCache s \<and> (k \<noteq> iqKey rq \<longrightarrow> imLock s' k = imLock s k) \<and>
    (a = Handle True \<longrightarrow> kv_live t (imLock s) (iqKey rq) = None \<and>
       imLock s' (iqKey rq) = Some ((), Some (t + idempotencyLockTTL))) \<and>
    (kv_live t (imLock s) (iqKey rq) \<noteq> None \<longrightarrow> s' = s) \<and>
    (a = Handle False \<longrightarrow> \<not> ieRedis env \<or> ieFault env LockSetNX \<noteq> None) \<and> (a = Pass \<or> (\<exists>c. a = Replay c) \<longrightarrow> False)"
  using assms
  by (auto simp: idem_lock_def redis_call_def kv_SETNX_def kv_SET_def split: if_splits option.splits)

lemma idem_store_effect:
  assumes "idem_store env t rq l r s = (stored, s')"
  shows "imLock s' = imLock s \<and>
    (\<forall>k. imCache s' k = imCache s k \<or>
       k = iqKey rq \<and> l \<and> success r \<and> imCache s' k = Some (cached_of r, Some (t + idempotencyTTL))) \<and>
    (stored \<longrightarrow> l)"
  using assms
  by (auto simp: idem_store_def redis_call_def kv_SET_def split: if_splits option.splits)

lemma idem_unlock_effect:
  "imCache (idem_unlock env rq s) = imCache s \<and>
   (k \<noteq> iqKey rq \<longrightarrow> imLock (idem_unlock env rq s) k = imLock s k)"
  by (auto simp: idem_unlock_def redis_call_def kv_DEL_def split: option.splits)

text \<open>At most one request holds the lock for a key, and it is in Redis for its time.\<close>

definition lock_inv :: "idem_requests \<Rightarrow> nat \<Rightarrow> string \<Rightarrow> idem_run \<Rightarrow> bool" where
  "lock_inv reqs n k s \<longleftrightarrow>
     (\<forall>q. holds reqs k s q \<longrightarrow> q < n \<and>
        imLock (irState s) k = Some ((), Some (the (holding (irPhase s q)) + idempotencyLockTTL))) \<and>
     (\<forall>q q'. holds reqs k s q \<and> holds reqs k s q' \<longrightarrow> q = q')"

lemma lock_invI:
  "(\<And>q. holds reqs k s q \<Longrightarrow> q = p) \<Longrightarrow>
   (holds reqs k s p \<Longrightarrow> p < n \<and> imLock (irState s) k = Some ((), Some (the (holding (irPhase s p)) + idempotencyLockTTL))) \<Longrightarrow>
   lock_inv reqs n k s"
  unfolding lock_inv_def by metis

text \<open>A step after which nobody new holds the lock, and who does still has it.\<close>

lemma lock_inv_less:
  assumes "lock_inv reqs n k s"
    and "\<And>q. holds reqs k s' q \<Longrightarrow> holds reqs k s q \<and> holding (irPhase s' q) = holding (irPhase s q)"
    and "(\<exists>q. holds reqs k s' q) \<Longrightarrow> imLock (irState s') k = imLock (irState s) k"
  shows "lock_inv reqs n k s'"
  using assms unfolding lock_inv_def by (metis (no_types, lifting))

lemma exec_lock_inv:
  assumes inv: "lock_inv reqs n k s" and n: "event_request e < n"
    and t: "\<forall>q<n. holds reqs k s q \<longrightarrow> event_time e < the (holding (irPhase s q)) + idempotencyLockTTL"
  shows "lock_inv reqs n k (idem_exec reqs e s)"
proof (cases e)
  case (Lookup u q)
  show ?thesis
    by (rule lock_inv_less [OF inv]) (auto simp: Lookup holds_def split: if_splits option.splits)
next
  case (TakeLock u q)
  show ?thesis
  proof (cases "irPhase s q = RqMissed")
    case True
    obtain a st where l: "idem_lock (fst (reqs q)) u (snd (reqs q)) (irState s) = (a, st)" by fastforce
    note eff = idem_lock_effect [OF l, of k]
    show ?thesis
    proof (cases "iqKey (snd (reqs q)) = k")
      case False
      then show ?thesis using eff
        by (intro lock_inv_less [OF inv]) (auto simp: TakeLock True l holds_def split: if_splits)
    next
      case k: True
      show ?thesis
      proof (cases "\<exists>p. holds reqs k s p")
        case held: True
        then obtain p where p: "holds reqs k s p" "p < n"
          "imLock (irState s) k = Some ((), Some (the (holding (irPhase s p)) + idempotencyLockTTL))"
          using inv by (auto simp: lock_inv_def)
        then have "kv_live u (imLock (irState s)) k \<noteq> None"
          using t TakeLock by (auto simp: kv_live_def)
        then have "st = irState s" "\<forall>u'. a \<noteq> Handle True" using eff k by auto
        then show ?thesis
          by (intro lock_inv_less [OF inv])
            (auto simp: TakeLock True l holds_def split: if_splits idem_start.splits elim: holding.elims)
      next
        case False
        then show ?thesis using eff k n
          by (intro lock_invI [where p = q])
            (auto simp: TakeLock True l holds_def split: if_splits idem_start.splits elim: holding.elims)
      qed
    qed
  qed (simp add: TakeLock inv)
next
  case (Respond u q r)
  show ?thesis
  proof (cases "irPhase s q")
    case (RqRunning l t0)
    obtain b st where r: "idem_store (fst (reqs q)) u (snd (reqs q)) l r (irState s) = (b, st)" by fastforce
    from idem_store_effect [OF r] show ?thesis
      by (intro lock_inv_less [OF inv])
        (auto simp: Respond RqRunning r holds_def split: if_splits)
  qed (simp_all add: Respond inv)
next
  case (Unlock u q)
  show ?thesis
  proof (cases "irPhase s q")
    case (RqStored t0)
    show ?thesis
    proof (rule lock_inv_less [OF inv])
      assume "\<exists>p. holds reqs k (idem_exec reqs e s) p"
      then obtain p where "holds reqs k s p" "p \<noteq> q"
        by (auto simp: Unlock RqStored holds_def split: if_splits)
      moreover have "holds reqs k s q" if "iqKey (snd (reqs q)) = k" using that RqStored by (simp add: holds_def)
      ultimately have "iqKey (snd (reqs q)) \<noteq> k" using inv unfolding lock_inv_def by blast
      then show "imLock (irState (idem_exec reqs e s)) k = imLock (irState s) k"
        using idem_unlock_effect by (simp add: Unlock RqStored)
    qed (auto simp: Unlock RqStored holds_def split: if_splits)
  qed (simp_all add: Unlock inv)
qed

lemma run_lock_inv:
  "lock_inv reqs n k s \<Longrightarrow> timely reqs n k now es s \<Longrightarrow> lock_inv reqs n k (run (idem_exec reqs) es s)"
  by (induction es arbitrary: now s) (auto intro: exec_lock_inv)

lemma initial_lock_inv: "lock_inv reqs n k idem_initial"
  by (simp add: lock_inv_def holds_def idem_initial_def)

lemma timely_split:
  "timely reqs n k now (es1 @ e # es2) s \<Longrightarrow> timely reqs n k now es1 s \<and>
     timely reqs n k (event_time e) es2 (idem_exec reqs e (run (idem_exec reqs) es1 s))"
  by (induction es1 arbitrary: now s) auto

lemma timely_from: "timely reqs n k now es s \<Longrightarrow> e \<in> set es \<Longrightarrow> now \<le> event_time e"
  by (induction es arbitrary: now s) force+

text \<open>A handler runs without the lock only if Redis is missing or the \<open>SETNX\<close> has failed.\<close>

lemma lockless:
  "(\<forall>q. irAnswer s q = Some (Handle False) \<longrightarrow>
      \<not> ieRedis (fst (reqs q)) \<or> ieFault (fst (reqs q)) LockSetNX \<noteq> None) \<Longrightarrow>
   irAnswer (run (idem_exec reqs) es s) q = Some (Handle False) \<Longrightarrow>
   \<not> ieRedis (fst (reqs q)) \<or> ieFault (fst (reqs q)) LockSetNX \<noteq> None"
proof (induction es arbitrary: s)
  case (Cons e es)
  have "\<forall>q. irAnswer (idem_exec reqs e s) q = Some (Handle False) \<longrightarrow>
      \<not> ieRedis (fst (reqs q)) \<or> ieFault (fst (reqs q)) LockSetNX \<noteq> None"
  proof (cases e)
    case (Lookup u q)
    then show ?thesis using Cons.prems(1)
      by (auto simp: idem_lookup_def split: if_splits option.splits sum.splits)
  next
    case (TakeLock u q)
    obtain a st where l: "idem_lock (fst (reqs q)) u (snd (reqs q)) (irState s) = (a, st)" by fastforce
    from idem_lock_effect [OF l] show ?thesis using Cons.prems(1) by (auto simp: TakeLock l)
  next
    case (Respond u q r)
    then show ?thesis using Cons.prems(1) by (auto split: idem_phase.splits prod.splits)
  next
    case (Unlock u q)
    then show ?thesis using Cons.prems(1) by (auto split: idem_phase.splits)
  qed
  from Cons.IH [OF this] Cons.prems(2) show ?case by simp
qed simp

section \<open>A cached success answers\<close>

definition keyed :: "idem_requests \<Rightarrow> string \<Rightarrow> nat \<Rightarrow> bool" where
  "keyed reqs k q \<longleftrightarrow> iqMethod (snd (reqs q)) \<in> {''POST'', ''PUT'', ''PATCH''} \<and> iqKey (snd (reqs q)) = k"

definition reads_cache :: "idem_requests \<Rightarrow> nat \<Rightarrow> bool" where
  "reads_cache reqs q \<longleftrightarrow> ieRedis (fst (reqs q)) \<and> ieFault (fst (reqs q)) CacheGet = None"

text \<open>The handler of \<open>q\<close> responds with a success, and that is cached.\<close>

definition caches :: "idem_requests \<Rightarrow> string \<Rightarrow> idem_run \<Rightarrow> nat \<Rightarrow> response \<Rightarrow> bool" where
  "caches reqs k s q r \<longleftrightarrow> iqKey (snd (reqs q)) = k \<and> (\<exists>t. irPhase s q = RqRunning True t) \<and> success r \<and>
     ieRedis (fst (reqs q)) \<and> ieFault (fst (reqs q)) CacheSet = None"

definition successes :: "idem_requests \<Rightarrow> string \<Rightarrow> idem_event list \<Rightarrow> CachedResponse set" where
  "successes reqs k es = {cached_of r | r t q. Respond t q r \<in> set es \<and> success r \<and> iqKey (snd (reqs q)) = k}"

lemma lookup_hits:
  assumes "keyed reqs k q" "k \<noteq> ''''" "reads_cache reqs q" "imCache st k = Some (c, Some y)" "t < y"
  shows "idem_lookup (fst (reqs q)) t (snd (reqs q)) st = Some (Replay c)"
  using assms by (auto simp: keyed_def reads_cache_def idem_lookup_def redis_call_def kv_GET_def kv_live_def)

text \<open>
  From some moment on: the cache holds a response of \<open>R\<close> until \<open>x\<close> at least, and the requests
  of \<open>F\<close>, which had not begun at that moment, are answered from it.
\<close>

definition served :: "idem_requests \<Rightarrow> string \<Rightarrow> CachedResponse set \<Rightarrow> time \<Rightarrow> nat set \<Rightarrow> idem_run \<Rightarrow> bool" where
  "served reqs k R x F s \<longleftrightarrow>
     (\<exists>c\<in>R. \<exists>y\<ge>x. imCache (irState s) k = Some (c, Some y)) \<and>
     (\<forall>q\<in>F. irPhase s q \<noteq> RqFresh \<longrightarrow>
        irPhase s q = RqDone \<and> (\<exists>c\<in>R. irAnswer s q = Some (Replay c)))"

lemma exec_served:
  assumes "served reqs k R x F s" "k \<noteq> ''''" "\<forall>q\<in>F. keyed reqs k q \<and> reads_cache reqs q"
    and t: "event_time e < x" "x \<le> event_time e + idempotencyTTL" and R: "successes reqs k [e] \<subseteq> R"
  shows "served reqs k R x F (idem_exec reqs e s)"
proof -
  obtain c y where c: "c \<in> R" "x \<le> y" "imCache (irState s) k = Some (c, Some y)"
    and F: "\<forall>q\<in>F. irPhase s q \<noteq> RqFresh \<longrightarrow> irPhase s q = RqDone \<and> (\<exists>c\<in>R. irAnswer s q = Some (Replay c))"
    using assms(1) unfolding served_def by blast
  show ?thesis
  proof (cases e)
    case (Lookup u q)
    show ?thesis
    proof (cases "irPhase s q = RqFresh \<and> q \<in> F")
      case True
      then have "idem_lookup (fst (reqs q)) u (snd (reqs q)) (irState s) = Some (Replay c)"
        using assms(2,3) c t Lookup by (intro lookup_hits [where k = k and y = y]) auto
      then have step: "idem_exec reqs e s =
          s\<lparr>irPhase := (irPhase s)(q := RqDone), irAnswer := (irAnswer s)(q \<mapsto> Replay c)\<rparr>"
        using True by (simp add: Lookup)
      have "\<exists>c\<in>R. \<exists>y\<ge>x. imCache (irState (idem_exec reqs e s)) k = Some (c, Some y)"
        using c unfolding step by auto
      then show ?thesis using c(1) F unfolding served_def by (simp add: step)
    next
      case False
      with c F show ?thesis by (auto simp: Lookup served_def split: option.splits)
    qed
  next
    case (TakeLock u q)
    obtain a st where l: "idem_lock (fst (reqs q)) u (snd (reqs q)) (irState s) = (a, st)" by fastforce
    from idem_lock_effect [OF l] c F show ?thesis by (auto simp: TakeLock l served_def)
  next
    case (Respond u q r)
    show ?thesis
    proof (cases "irPhase s q")
      case (RqRunning l t0)
      obtain b st where r: "idem_store (fst (reqs q)) u (snd (reqs q)) l r (irState s) = (b, st)" by fastforce
      have "iqKey (snd (reqs q)) = k \<and> success r \<Longrightarrow> cached_of r \<in> R"
        using R by (auto simp: successes_def Respond)
      then have "imCache st k = Some (c, Some y) \<or> cached_of r \<in> R \<and> imCache st k = Some (cached_of r, Some (u + idempotencyTTL))"
        using idem_store_effect [OF r] c(3) by metis
      then have "\<exists>c\<in>R. \<exists>y\<ge>x. imCache st k = Some (c, Some y)" using c t Respond by auto
      then show ?thesis using F RqRunning by (auto simp: Respond r served_def)
    qed (use assms(1) in \<open>simp_all add: Respond\<close>)
  next
    case (Unlock u q)
    then show ?thesis using c F
      by (auto simp: served_def idem_unlock_effect split: idem_phase.splits)
  qed
qed

lemma run_served:
  assumes "k \<noteq> ''''" "\<forall>q\<in>F. keyed reqs k q \<and> reads_cache reqs q"
  shows "served reqs k R x F s \<Longrightarrow> \<forall>e\<in>set es. event_time e < x \<and> x \<le> event_time e + idempotencyTTL \<Longrightarrow>
    successes reqs k es \<subseteq> R \<Longrightarrow> served reqs k R x F (run (idem_exec reqs) es s)"
proof (induction es arbitrary: s)
  case (Cons e es)
  have "successes reqs k [e] \<subseteq> R" "successes reqs k es \<subseteq> R" using Cons.prems(3) by (auto simp: successes_def)
  with Cons exec_served [OF Cons.prems(1) assms] show ?case by simp
qed simp

text \<open>
  When no request is between its lookup and the lock at that moment, and no lookup fails, the
  cached response stays the same.
\<close>

definition settled :: "idem_requests \<Rightarrow> string \<Rightarrow> CachedResponse \<Rightarrow> time \<Rightarrow> nat set \<Rightarrow> idem_run \<Rightarrow> bool" where
  "settled reqs k c x F s \<longleftrightarrow> imCache (irState s) k = Some (c, Some x) \<and>
     (\<forall>q. iqKey (snd (reqs q)) = k \<longrightarrow> irPhase s q \<noteq> RqMissed \<and> (\<forall>t. irPhase s q \<noteq> RqRunning True t)) \<and>
     (\<forall>q\<in>F. irPhase s q \<noteq> RqFresh \<longrightarrow> irPhase s q = RqDone \<and> irAnswer s q = Some (Replay c)) \<and>
     (\<forall>q. keyed reqs k q \<and> irPhase s q = RqFresh \<longrightarrow> q \<in> F)"

lemma settled_other:
  assumes "settled reqs k c x F s" "q \<notin> F" "imCache (irState s') k = imCache (irState s) k"
    and "irPhase s' = (irPhase s)(q := p)" "\<forall>q'. q' \<noteq> q \<longrightarrow> irAnswer s' q' = irAnswer s q'"
    and "iqKey (snd (reqs q)) = k \<Longrightarrow> p \<noteq> RqMissed \<and> (\<forall>t. p \<noteq> RqRunning True t)" "p \<noteq> RqFresh"
  shows "settled reqs k c x F s'"
proof -
  have "iqKey (snd (reqs q')) = k \<Longrightarrow> irPhase s' q' \<noteq> RqMissed \<and> (\<forall>t. irPhase s' q' \<noteq> RqRunning True t)" for q'
    using assms(1,4,6) by (cases "q' = q") (simp_all add: settled_def)
  moreover have "q' \<in> F \<Longrightarrow> irPhase s' q' \<noteq> RqFresh \<Longrightarrow> irPhase s' q' = RqDone \<and> irAnswer s' q' = Some (Replay c)" for q'
    using assms(1,2,4,5) by (cases "q' = q") (simp_all add: settled_def)
  moreover have "keyed reqs k q' \<Longrightarrow> irPhase s' q' = RqFresh \<Longrightarrow> q' \<in> F" for q'
    using assms(1,4,7) by (cases "q' = q") (simp_all add: settled_def)
  ultimately show ?thesis using assms(1,3) by (simp add: settled_def)
qed

lemma exec_settled:
  assumes s: "settled reqs k c x F s" and k: "k \<noteq> ''''" and F: "\<forall>q\<in>F. keyed reqs k q \<and> reads_cache reqs q"
    and t: "event_time e < x"
  shows "settled reqs k c x F (idem_exec reqs e s)"
proof (cases e)
  case (Lookup u q)
  show ?thesis
  proof (cases "irPhase s q = RqFresh \<and> iqKey (snd (reqs q)) = k")
    case True
    have "idem_lookup (fst (reqs q)) u (snd (reqs q)) (irState s) = Some (if keyed reqs k q then Replay c else Pass)"
    proof (cases "keyed reqs k q")
      case keyed: True
      with s True F have "reads_cache reqs q" "imCache (irState s) k = Some (c, Some x)" by (auto simp: settled_def)
      from lookup_hits [OF keyed k this] t Lookup keyed show ?thesis by simp
    next
      case False
      with True show ?thesis by (simp add: keyed_def idem_lookup_def)
    qed
    then have step: "idem_exec reqs e s = s\<lparr>irPhase := (irPhase s)(q := RqDone),
        irAnswer := (irAnswer s)(q \<mapsto> (if keyed reqs k q then Replay c else Pass))\<rparr>"
      using True by (simp add: Lookup)
    show ?thesis unfolding step using s F by (auto simp: settled_def)
  next
    case False
    have notF: "irPhase s q = RqFresh \<Longrightarrow> q \<notin> F" using False F by (auto simp: keyed_def)
    consider "idem_exec reqs e s = s" | a where "irPhase s q = RqFresh"
        "idem_exec reqs e s = s\<lparr>irPhase := (irPhase s)(q := RqDone), irAnswer := (irAnswer s)(q \<mapsto> a)\<rparr>"
      | "irPhase s q = RqFresh" "idem_exec reqs e s = s\<lparr>irPhase := (irPhase s)(q := RqMissed)\<rparr>"
      by (cases "irPhase s q = RqFresh"; cases "idem_lookup (fst (reqs q)) u (snd (reqs q)) (irState s)")
        (simp_all add: Lookup)
    then show ?thesis
    proof cases
      case (2 a)
      show ?thesis by (rule settled_other [OF s notF [OF 2(1)], where p = RqDone]) (simp_all add: 2(2))
    next
      case 3
      show ?thesis
        by (rule settled_other [OF s notF [OF 3(1)], where p = RqMissed]) (use False 3(1) in \<open>simp_all add: 3(2)\<close>)
    qed (simp add: s)
  qed
next
  case (TakeLock u q)
  show ?thesis
  proof (cases "irPhase s q = RqMissed")
    case True
    obtain a st where l: "idem_lock (fst (reqs q)) u (snd (reqs q)) (irState s) = (a, st)" by fastforce
    have "iqKey (snd (reqs q)) \<noteq> k" using s True unfolding settled_def by blast
    moreover from this F have "q \<notin> F" unfolding keyed_def by blast
    ultimately show ?thesis
    proof (intro settled_other [OF s, where q = q and p = "case a of Handle l \<Rightarrow> RqRunning l u | _ \<Rightarrow> RqDone"])
      show "imCache (irState (idem_exec reqs e s)) k = imCache (irState s) k"
        using idem_lock_effect [OF l] by (simp add: TakeLock l True)
    qed (simp_all add: TakeLock l True split: idem_start.splits)
  qed (simp add: TakeLock s)
next
  case (Respond u q r)
  show ?thesis
  proof (cases "irPhase s q")
    case (RqRunning l t0)
    obtain b st where r: "idem_store (fst (reqs q)) u (snd (reqs q)) l r (irState s) = (b, st)" by fastforce
    have l: "iqKey (snd (reqs q)) = k \<longrightarrow> \<not> l" and "q \<notin> F"
      using s RqRunning by (cases l; auto simp: settled_def)+
    note eff = idem_store_effect [OF r]
    from eff l have "b \<longrightarrow> iqKey (snd (reqs q)) \<noteq> k" by blast
    moreover from eff l have "imCache st k = imCache (irState s) k" by blast
    ultimately show ?thesis using \<open>q \<notin> F\<close>
      by (intro settled_other [OF s, where q = q and p = "if b then RqStored t0 else RqDone"])
        (simp_all add: Respond RqRunning r)
  qed (use s in \<open>simp_all add: Respond\<close>)
next
  case (Unlock u q)
  then show ?thesis using s
    by (auto simp: settled_def idem_unlock_effect split: idem_phase.splits)
qed

lemma run_settled:
  assumes "k \<noteq> ''''" "\<forall>q\<in>F. keyed reqs k q \<and> reads_cache reqs q"
  shows "settled reqs k c x F s \<Longrightarrow> \<forall>e\<in>set es. event_time e < x \<Longrightarrow>
    settled reqs k c x F (run (idem_exec reqs) es s)"
  by (induction es arbitrary: s) (use assms in \<open>auto intro: exec_settled\<close>)

text \<open>The moment a success is cached.\<close>

lemma caches_now:
  assumes "caches reqs k s q r"
  shows "imCache (irState (idem_exec reqs (Respond t q r) s)) k = Some (cached_of r, Some (t + idempotencyTTL)) \<and>
    (\<exists>t0. irPhase (idem_exec reqs (Respond t q r) s) = (irPhase s)(q := RqStored t0))"
  using assms by (auto simp: caches_def idem_store_def redis_call_def kv_SET_def)

text \<open>
  C34. Idempotency keys, however the steps of requests with any keys interleave and whichever
  calls of Redis fail, as long as whoever holds the lock for \<open>k\<close> is done before its 30 seconds
  are over. At most one request with key \<open>k\<close> holds the lock at a time, from its \<open>SETNX\<close> to its
  \<open>DEL\<close> and so while its handler runs; a handler runs without the lock only where Redis is
  missing or the request's own \<open>SETNX\<close> failed. Once a 2xx response has been cached, a request
  that begins in the following 24 hours, and whose \<open>GET\<close> does not fail, is answered from the
  cache, with a 2xx response given under this key. It is exactly that response, for every such
  request, if at that moment no request with the key is between its \<open>GET\<close> and its \<open>SETNX\<close> and no
  later \<open>GET\<close> fails. A request that is between the two can run its handler again: see
  \<open>handler_runs_twice\<close>.
\<close>

theorem idempotent_requests:
  assumes "k \<noteq> ''''" "timely reqs n k now es idem_initial" "s = run (idem_exec reqs) es idem_initial"
  shows "(\<forall>q q'. holds reqs k s q \<and> holds reqs k s q' \<longrightarrow> q = q') \<and>
    (\<forall>q. irAnswer s q = Some (Handle False) \<longrightarrow>
       \<not> ieRedis (fst (reqs q)) \<or> ieFault (fst (reqs q)) LockSetNX \<noteq> None) \<and>
    (\<forall>es1 t r resp es2 s1. es = es1 @ Respond t r resp # es2 \<longrightarrow>
       caches reqs k (run (idem_exec reqs) es1 idem_initial) r resp \<longrightarrow>
       s1 = idem_exec reqs (Respond t r resp) (run (idem_exec reqs) es1 idem_initial) \<longrightarrow>
       (\<forall>e \<in> set es2. event_time e < t + idempotencyTTL) \<longrightarrow>
       (\<forall>q. keyed reqs k q \<and> reads_cache reqs q \<and> irPhase s1 q = RqFresh \<and> irPhase s q \<noteq> RqFresh \<longrightarrow>
          (\<exists>c\<in>successes reqs k es. irAnswer s q = Some (Replay c))) \<and>
       ((\<forall>q. keyed reqs k q \<longrightarrow> reads_cache reqs q) \<and>
        (\<forall>q. iqKey (snd (reqs q)) = k \<longrightarrow> irPhase s1 q \<noteq> RqMissed) \<longrightarrow>
          (\<forall>q. keyed reqs k q \<and> irPhase s1 q = RqFresh \<and> irPhase s q \<noteq> RqFresh \<longrightarrow>
             irAnswer s q = Some (Replay (cached_of resp)))))"
proof (intro conjI)
  show "\<forall>q q'. holds reqs k s q \<and> holds reqs k s q' \<longrightarrow> q = q'"
    using run_lock_inv [OF initial_lock_inv assms(2)] unfolding assms(3) lock_inv_def by blast
  show "\<forall>q. irAnswer s q = Some (Handle False) \<longrightarrow>
      \<not> ieRedis (fst (reqs q)) \<or> ieFault (fst (reqs q)) LockSetNX \<noteq> None"
    using lockless [of idem_initial reqs es] unfolding assms(3) by (simp add: idem_initial_def)
next
  have "(\<forall>q. keyed reqs k q \<and> reads_cache reqs q \<and> irPhase s1 q = RqFresh \<and> irPhase s q \<noteq> RqFresh \<longrightarrow>
          (\<exists>c\<in>successes reqs k es. irAnswer s q = Some (Replay c))) \<and>
       ((\<forall>q. keyed reqs k q \<longrightarrow> reads_cache reqs q) \<and>
        (\<forall>q. iqKey (snd (reqs q)) = k \<longrightarrow> irPhase s1 q \<noteq> RqMissed) \<longrightarrow>
          (\<forall>q. keyed reqs k q \<and> irPhase s1 q = RqFresh \<and> irPhase s q \<noteq> RqFresh \<longrightarrow>
             irAnswer s q = Some (Replay (cached_of resp))))"
    if es: "es = es1 @ Respond t r resp # es2" and c: "caches reqs k (run (idem_exec reqs) es1 idem_initial) r resp"
      and s1: "s1 = idem_exec reqs (Respond t r resp) (run (idem_exec reqs) es1 idem_initial)"
      and times: "\<forall>e \<in> set es2. event_time e < t + idempotencyTTL" for es1 t r resp es2 s1
  proof -
    let ?s0 = "run (idem_exec reqs) es1 idem_initial" and ?x = "t + idempotencyTTL"
    have s: "s = run (idem_exec reqs) es2 s1" by (simp add: assms(3) es run_append s1)
    note split = timely_split [OF assms(2) [unfolded es]]
    have later: "\<forall>e\<in>set es2. t \<le> event_time e" using timely_from split by fastforce
    obtain t0 where now: "imCache (irState s1) k = Some (cached_of resp, Some ?x)"
        "irPhase s1 = (irPhase ?s0)(r := RqStored t0)" using caches_now [OF c] unfolding s1 by blast
    show ?thesis
    proof (intro conjI impI)
      let ?F = "{q. keyed reqs k q \<and> reads_cache reqs q \<and> irPhase s1 q = RqFresh}"
      have "cached_of resp \<in> successes reqs k es" using c by (auto simp: successes_def caches_def es)
      with now(1) have "served reqs k (successes reqs k es) ?x ?F s1" by (auto simp: served_def)
      then have "served reqs k (successes reqs k es) ?x ?F s"
        unfolding s by (rule run_served [OF assms(1), rotated]) (use times later in \<open>auto simp: successes_def es\<close>)
      then show "\<forall>q. keyed reqs k q \<and> reads_cache reqs q \<and> irPhase s1 q = RqFresh \<and> irPhase s q \<noteq> RqFresh \<longrightarrow>
          (\<exists>c\<in>successes reqs k es. irAnswer s q = Some (Replay c))" by (simp add: served_def)
    next
      assume h: "(\<forall>q. keyed reqs k q \<longrightarrow> reads_cache reqs q) \<and>
        (\<forall>q. iqKey (snd (reqs q)) = k \<longrightarrow> irPhase s1 q \<noteq> RqMissed)"
      let ?F = "{q. keyed reqs k q \<and> irPhase s1 q = RqFresh}"
      have "lock_inv reqs n k ?s0" using run_lock_inv [OF initial_lock_inv] split by blast
      moreover have "holds reqs k ?s0 r" using c by (auto simp: caches_def holds_def)
      moreover have "holds reqs k ?s0 q" if "iqKey (snd (reqs q)) = k" "irPhase ?s0 q = RqRunning True u" for q u
        using that by (simp add: holds_def)
      ultimately have "irPhase s1 q \<noteq> RqRunning True u" if "iqKey (snd (reqs q)) = k" for q u
        using that unfolding now(2) lock_inv_def by auto
      with now(1) h have "settled reqs k (cached_of resp) ?x ?F s1" by (simp add: settled_def)
      then have "settled reqs k (cached_of resp) ?x ?F s"
        unfolding s by (rule run_settled [OF assms(1), rotated]) (use times h in auto)
      then show "\<forall>q. keyed reqs k q \<and> irPhase s1 q = RqFresh \<and> irPhase s q \<noteq> RqFresh \<longrightarrow>
          irAnswer s q = Some (Replay (cached_of resp))" by (simp add: settled_def)
    qed
  qed
  then show "\<forall>es1 t r resp es2 s1. es = es1 @ Respond t r resp # es2 \<longrightarrow>
       caches reqs k (run (idem_exec reqs) es1 idem_initial) r resp \<longrightarrow>
       s1 = idem_exec reqs (Respond t r resp) (run (idem_exec reqs) es1 idem_initial) \<longrightarrow>
       (\<forall>e \<in> set es2. event_time e < t + idempotencyTTL) \<longrightarrow>
       (\<forall>q. keyed reqs k q \<and> reads_cache reqs q \<and> irPhase s1 q = RqFresh \<and> irPhase s q \<noteq> RqFresh \<longrightarrow>
          (\<exists>c\<in>successes reqs k es. irAnswer s q = Some (Replay c))) \<and>
       ((\<forall>q. keyed reqs k q \<longrightarrow> reads_cache reqs q) \<and>
        (\<forall>q. iqKey (snd (reqs q)) = k \<longrightarrow> irPhase s1 q \<noteq> RqMissed) \<longrightarrow>
          (\<forall>q. keyed reqs k q \<and> irPhase s1 q = RqFresh \<and> irPhase s q \<noteq> RqFresh \<longrightarrow>
             irAnswer s q = Some (Replay (cached_of resp))))"
    by blast
qed

definition demo_response :: response where
  "demo_response = \<lparr>rsStatus = 200, rsHeader = [(''Content-Type'', [''application/json''])],
     rsBody = ''{}''\<rparr>"

definition demo_requests :: idem_requests where
  "demo_requests = (\<lambda>_. (\<lparr>ieRedis = True, ieFault = (\<lambda>_. None)\<rparr>, \<lparr>iqMethod = ''POST'', iqKey = ''k''\<rparr>))"

text \<open>A second request meets the lock, a third one the cache.\<close>

definition demo_before :: "idem_event list" where
  "demo_before = [Lookup 0 1, TakeLock 0 1, Lookup Second 2, TakeLock Second 2]"

definition demo_after :: "idem_event list" where
  "demo_after = [Unlock (2 * Second) 1, Lookup (3 * Second) 3]"

lemmas demo_idem = demo_requests_def demo_before_def demo_after_def demo_response_def idem_initial_def
  no_idem_def idem_lookup_def idem_lock_def idem_store_def idem_unlock_def redis_call_def kv_GET_def
  kv_live_def kv_SET_def kv_SETNX_def kv_DEL_def success_def idempotencyLockTTL_def idempotencyTTL_def duration_defs

lemma idempotent_requests_witness:
  "irAnswer (run (idem_exec demo_requests) (demo_before @ Respond (2 * Second) 1 demo_response # demo_after)
     idem_initial) 3 = Some (Replay (cached_of demo_response)) \<and>
   irAnswer (run (idem_exec demo_requests) demo_before idem_initial) 2 = Some Conflict"
proof -
  let ?es = "demo_before @ Respond (2 * Second) 1 demo_response # demo_after"
  let ?before = "run (idem_exec demo_requests) demo_before idem_initial"
  let ?cached = "idem_exec demo_requests (Respond (2 * Second) 1 demo_response) ?before"
  let ?final = "run (idem_exec demo_requests) ?es idem_initial"
  have t: "timely demo_requests 4 ''k'' 0 ?es idem_initial"
    by (simp add: demo_idem holds_def numeral_eq_Suc All_less_Suc)
  have p0: "irPhase ?before = (\<lambda>_. RqFresh)(1 := RqRunning True 0, 2 := RqDone)" "irAnswer ?before 2 = Some Conflict"
    by (simp add: demo_idem fun_eq_iff) (simp add: demo_idem)
  have c: "caches demo_requests ''k'' ?before 1 demo_response"
    unfolding caches_def p0 by (simp add: demo_requests_def success_def demo_response_def)
  have p1: "irPhase ?cached = (\<lambda>_. RqFresh)(1 := RqStored 0, 2 := RqDone)"
    unfolding idem_exec.simps p0 by (simp add: demo_idem fun_eq_iff)
  have p: "irPhase ?final 3 \<noteq> RqFresh" by (simp add: demo_idem)
  have times: "\<forall>e \<in> set demo_after. event_time e < 2 * Second + idempotencyTTL" by (simp add: demo_idem)
  have works: "keyed demo_requests ''k'' q" "reads_cache demo_requests q" for q
    by (simp_all add: keyed_def reads_cache_def demo_requests_def)
  have "\<forall>q. irPhase ?cached q \<noteq> RqMissed" "irPhase ?cached 3 = RqFresh" unfolding p1 by simp_all
  then have "irAnswer ?final 3 = Some (Replay (cached_of demo_response))"
    using idempotent_requests [OF _ t refl, THEN conjunct2, THEN conjunct2, THEN spec, THEN spec, THEN spec,
        THEN spec, THEN spec, THEN spec, THEN mp, OF _ refl, THEN mp, OF _ c, THEN mp, OF _ refl, THEN mp, OF _ times]
      works p by simp
  with p0 show ?thesis by blast
qed

text \<open>
  Working calls only, and every handler is done within three nanoseconds: the second request
  looks up the cache before the first one's response is in it, and takes the lock after the
  first has given it back. Its handler runs although the response is cached.
\<close>

lemma handler_runs_twice:
  "timely demo_requests 2 ''k'' 0
     [Lookup 0 0, TakeLock 0 0, Lookup 1 1, Respond 2 0 demo_response, Unlock 3 0, TakeLock 4 1] idem_initial \<and>
   irAnswer (run (idem_exec demo_requests)
     [Lookup 0 0, TakeLock 0 0, Lookup 1 1, Respond 2 0 demo_response, Unlock 3 0, TakeLock 4 1] idem_initial) 0 =
     Some (Handle True) \<and>
   irAnswer (run (idem_exec demo_requests)
     [Lookup 0 0, TakeLock 0 0, Lookup 1 1, Respond 2 0 demo_response, Unlock 3 0, TakeLock 4 1] idem_initial) 1 =
     Some (Handle True)"
  by (simp add: demo_idem holds_def numeral_eq_Suc All_less_Suc)

end
