(* ===== verification/Event_Service.thy ===== *)
theory Event_Service
  imports Redis_Kv Booking_Specs Payment
begin

text \<open>
  internal/services/event_service.go, venue_service.go and internal/database/
  seat_read_routing.go: the event catalogue with its cache in Redis, the seat listing, venues,
  and which database a seat listing reads. JSON is the identity on events
  (\<open>json.Unmarshal\<close> undoes \<open>json.Marshal\<close>).
\<close>

section \<open>State and environment\<close>

text \<open>
  The primary database and the keys \<open>event:<id>\<close>. Between two steps of a call other requests
  commit transactions and drop cached events.
\<close>

record estate =
  esDB :: db
  esCache :: "Event kv"

record eenv =
  evLib :: lib
  evTx :: "nat \<Rightarrow> tenv"
  evReadDB :: "db option"
  evRedis :: bool
  evNow :: "nat \<Rightarrow> time"
  evFault :: "nat \<Rightarrow> redis_fault"
  evOthers :: "nat \<Rightarrow> txop list"
  evDropped :: "nat \<Rightarrow> uuid list"

type_synonym 'a esvc = "estate \<Rightarrow> 'a res \<times> estate"

definition event_cache_key :: "eenv \<Rightarrow> uuid \<Rightarrow> string" where
  "event_cache_key env eid = ''event:'' @ uuid_String (evLib env) eid"

definition eventCacheTTL :: duration where
  "eventCacheTTL = Hour"

text \<open>What other requests do before step \<open>k\<close>, and a repository call as step \<open>k\<close>.\<close>

definition meanwhile :: "eenv \<Rightarrow> nat \<Rightarrow> estate \<Rightarrow> estate" where
  "meanwhile env k s = s\<lparr>esDB := run exec_tx (evOthers env k) (esDB s),
     esCache := fold (\<lambda>u. kv_DEL (event_cache_key env u)) (evDropped env k) (esCache s)\<rparr>"

definition erepo :: "eenv \<Rightarrow> nat \<Rightarrow> (tenv \<Rightarrow> db \<Rightarrow> 'a res \<times> db) \<Rightarrow> 'a esvc" where
  "erepo env k f s = (let s1 = meanwhile env k s in
     case f (evTx env k) (esDB s1) of (r, d') \<Rightarrow> (r, s1\<lparr>esDB := d'\<rparr>))"

definition eread :: "(tenv \<Rightarrow> db \<Rightarrow> 'a res) \<Rightarrow> tenv \<Rightarrow> db \<Rightarrow> 'a res \<times> db" where
  "eread f t d = (f t d, d)"

definition ehandle :: "'a esvc \<Rightarrow> ('a res \<Rightarrow> 'b esvc) \<Rightarrow> 'b esvc" where
  "ehandle m k s = (case m s of (r, s') \<Rightarrow> k r s')"

definition eret :: "'a res \<Rightarrow> 'a esvc" where
  "eret r s = (r, s)"

section \<open>The cache\<close>

definition getEventFromCache :: "eenv \<Rightarrow> nat \<Rightarrow> uuid \<Rightarrow> estate \<Rightarrow> Event option" where
  "getEventFromCache env k eid s = (if \<not> evRedis env then None else
     case fst (redis_call (evFault env k) (\<lambda>m. (kv_GET (evNow env k) (event_cache_key env eid) m, m)) (esCache s)) of
       Inl _ \<Rightarrow> None
     | Inr r \<Rightarrow> r)"

definition cacheEvent :: "eenv \<Rightarrow> nat \<Rightarrow> Event \<Rightarrow> estate \<Rightarrow> estate" where
  "cacheEvent env k event s = (if \<not> evRedis env then s else
     s\<lparr>esCache := snd (redis_call (evFault env k) (\<lambda>m. ((), kv_SET (evNow env k)
       (event_cache_key env (eID event)) event eventCacheTTL m)) (esCache s))\<rparr>)"

definition invalidateEventCache :: "eenv \<Rightarrow> nat \<Rightarrow> uuid \<Rightarrow> estate \<Rightarrow> estate" where
  "invalidateEventCache env k eid s = (if \<not> evRedis env then s else
     s\<lparr>esCache := snd (redis_call (evFault env k) (\<lambda>m. ((), kv_DEL (event_cache_key env eid) m))
       (esCache s))\<rparr>)"

definition InvalidateEventCache :: "eenv \<Rightarrow> nat \<Rightarrow> uuid \<Rightarrow> estate \<Rightarrow> estate" where
  "InvalidateEventCache env k eid = invalidateEventCache env k eid"

section \<open>Events\<close>

record CreateEventRequest =
  ceVenueID :: uuid
  ceTitle :: string
  ceDescription :: string
  ceEventDate :: time
  ceTicketPrice :: int
  ceTotalSeats :: int

definition find_event_error :: "err \<Rightarrow> err" where
  "find_event_error e = (if errors_Is e RepoErrEventNotFound then SvcErrEventNotFound
     else Wrap ''find event'' e)"

definition CreateEvent :: "eenv \<Rightarrow> CreateEventRequest \<Rightarrow> uuid \<Rightarrow> Event esvc" where
  "CreateEvent env req createdBy =
     ehandle (erepo env 0 (eread (\<lambda>t d. venue_FindByID t (evReadDB env) d (ceVenueID req)))) (\<lambda>r.
     case r of
       Inl e \<Rightarrow> eret (Inl (if errors_Is e RepoErrVenueNotFound then SvcErrVenueNotFound
                         else Wrap ''find venue'' e))
     | Inr _ \<Rightarrow>
         ehandle (erepo env 1 (\<lambda>t d. event_Create t d \<lparr>eID = uuid_Nil, eVenueID = ceVenueID req,
           eTitle = ceTitle req, eDescription = ceDescription req, eEventDate = ceEventDate req,
           eTicketPrice = ceTicketPrice req, eTotalSeats = ceTotalSeats req, eAvailableSeats = 0,
           eCreatedBy = createdBy, eCreatedAt = 0, eUpdatedAt = 0\<rparr>)) (\<lambda>r.
         case r of
           Inl e \<Rightarrow> eret (Inl (Wrap ''create event'' e))
         | Inr event \<Rightarrow>
             ehandle (erepo env 2 (\<lambda>t d. CreateBulkSeats t d (eID event) (ceTotalSeats req))) (\<lambda>r.
             case r of
               Inl e \<Rightarrow> eret (Inl (Wrap ''create seats'' e))
             | Inr _ \<Rightarrow> (\<lambda>s. eret (Inr event) (invalidateEventCache env 3 (eID event) (meanwhile env 3 s))))))"

definition GetEventByID :: "eenv \<Rightarrow> uuid \<Rightarrow> Event esvc" where
  "GetEventByID env eid s =
     (case getEventFromCache env 0 eid s of
        Some cached \<Rightarrow> (Inr cached, s)
      | None \<Rightarrow>
          ehandle (erepo env 1 (eread (\<lambda>t d. event_FindByID t (evReadDB env) d eid))) (\<lambda>r.
          case r of
            Inl e \<Rightarrow> eret (Inl (find_event_error e))
          | Inr event \<Rightarrow> (\<lambda>s. eret (Inr event) (cacheEvent env 2 event (meanwhile env 2 s)))) s)"

definition ListEvents :: "eenv \<Rightarrow> Event list esvc" where
  "ListEvents env =
     ehandle (erepo env 0 (eread (\<lambda>t d. event_ListAll t (evReadDB env) d))) (\<lambda>r.
     eret (case r of Inl e \<Rightarrow> Inl (Wrap ''list events'' e) | Inr es \<Rightarrow> Inr es))"

section \<open>Seats\<close>

record SeatsSummary =
  smTotal :: int
  smAvailable :: int
  smReserved :: int
  smSold :: int

record SeatsResponse =
  srEventID :: uuid
  srSummary :: SeatsSummary
  srSeats :: "Seat list"

definition count_seat :: "Seat \<Rightarrow> SeatsSummary \<Rightarrow> SeatsSummary" where
  "count_seat seat summary = (case sStatus seat of
     SeatStatusAvailable \<Rightarrow> summary\<lparr>smAvailable := smAvailable summary + 1\<rparr>
   | SeatStatusReserved \<Rightarrow> summary\<lparr>smReserved := smReserved summary + 1\<rparr>
   | SeatStatusSold \<Rightarrow> summary\<lparr>smSold := smSold summary + 1\<rparr>)"

definition calculateSeatsSummary :: "Seat list \<Rightarrow> SeatsSummary" where
  "calculateSeatsSummary ss = fold count_seat ss
     \<lparr>smTotal = int (length ss), smAvailable = 0, smReserved = 0, smSold = 0\<rparr>"

definition GetEventSeats :: "eenv \<Rightarrow> bool \<Rightarrow> uuid \<Rightarrow> string \<Rightarrow> SeatsResponse esvc" where
  "GetEventSeats env usePrimary eventID statusFilter =
     ehandle (erepo env 0 (eread (\<lambda>t d. event_FindByID t (evReadDB env) d eventID))) (\<lambda>r.
     case r of
       Inl e \<Rightarrow> eret (Inl (find_event_error e))
     | Inr _ \<Rightarrow>
         ehandle (erepo env 1 (eread (\<lambda>t d. seat_FindByEventID t usePrimary (evReadDB env) d eventID ''''))) (\<lambda>r.
         case r of
           Inl e \<Rightarrow> eret (Inl (Wrap ''find all seats'' e))
         | Inr allSeats \<Rightarrow>
             let summary = calculateSeatsSummary allSeats;
                 answer = (\<lambda>ss. \<lparr>srEventID = eventID, srSummary = summary, srSeats = ss\<rparr>)
             in if statusFilter \<noteq> '''' then
                  ehandle (erepo env 2 (eread (\<lambda>t d. seat_FindByEventID t usePrimary (evReadDB env) d eventID statusFilter)))
                  (\<lambda>r. case r of
                     Inl e \<Rightarrow> eret (Inl (Wrap ''find filtered seats'' e))
                   | Inr ss \<Rightarrow> eret (Inr (answer ss)))
                else eret (Inr (answer allSeats))))"

section \<open>Venues\<close>

record CreateVenueRequest =
  cvName :: string
  cvAddress :: string
  cvCapacity :: int
  cvSeatLayout :: string

definition CreateVenue :: "eenv \<Rightarrow> CreateVenueRequest \<Rightarrow> Venue esvc" where
  "CreateVenue env req = erepo env 0 (\<lambda>t d. venue_Create t d \<lparr>vID = uuid_Nil, vName = cvName req,
     vAddress = cvAddress req, vCapacity = cvCapacity req, vSeatLayout = cvSeatLayout req,
     vCreatedAt = 0, vUpdatedAt = 0\<rparr>)"

definition GetVenueByID :: "eenv \<Rightarrow> string \<Rightarrow> Venue esvc" where
  "GetVenueByID env idStr =
     (case uuid_Parse (evLib env) idStr of
        None \<Rightarrow> eret (Inl (Foreign ''invalid venue ID''))
      | Some vid \<Rightarrow>
          ehandle (erepo env 0 (eread (\<lambda>t d. venue_FindByID t (evReadDB env) d vid))) (\<lambda>r.
          eret (case r of
             Inl e \<Rightarrow> Inl (if e = RepoErrVenueNotFound then Foreign ''venue not found'' else e)
           | Inr v \<Rightarrow> Inr v)))"

definition ListVenues :: "eenv \<Rightarrow> Venue list esvc" where
  "ListVenues env = erepo env 0 (eread (\<lambda>t d. venue_ListAll t (evReadDB env) d))"

end
