(* ===== verification/Seat_Routing.thy ===== *)
theory Seat_Routing
  imports Redis_Kv Payment
begin

text \<open>
  internal/database/seat_read_routing.go: after a user has changed a seat of an event, the
  user's seat listings of that event read the primary database for a while. The flag in the
  request's context is a \<open>bool\<close>; the marks are the keys \<open>seat_read_primary:<user>:<event>\<close>.
\<close>

definition seatReadPrimaryTTL :: duration where
  "seatReadPrimaryTTL = 30 * Second"

definition seatReadPrimaryRedisKey :: "lib \<Rightarrow> uuid \<Rightarrow> uuid \<Rightarrow> string" where
  "seatReadPrimaryRedisKey L userID eventID =
     ''seat_read_primary:'' @ uuid_String L userID @ '':'' @ uuid_String L eventID"

text \<open>\<open>redis\<close> says whether \<open>seatReadRedis\<close> is set; errors of Redis are logged only.\<close>

definition MarkSeatReadPrimary ::
  "lib \<Rightarrow> bool \<Rightarrow> time \<Rightarrow> redis_fault \<Rightarrow> uuid \<Rightarrow> uuid \<Rightarrow> unit kv \<Rightarrow> unit kv" where
  "MarkSeatReadPrimary L redis now f userID eventID m =
     (if userID = uuid_Nil \<or> eventID = uuid_Nil then m
      else if redis then snd (redis_call f (\<lambda>m. ((), kv_SET now
        (seatReadPrimaryRedisKey L userID eventID) () seatReadPrimaryTTL m)) m)
      else m)"

definition WithReadPrimarySeats :: "bool \<Rightarrow> bool" where
  "WithReadPrimarySeats ctx = True"

definition UsePrimaryForSeatReads :: "bool \<Rightarrow> bool" where
  "UsePrimaryForSeatReads ctx = ctx"

definition ContextForSeatReads ::
  "lib \<Rightarrow> bool \<Rightarrow> time \<Rightarrow> redis_fault \<Rightarrow> bool \<Rightarrow> uuid \<Rightarrow> uuid \<Rightarrow> unit kv \<Rightarrow> bool" where
  "ContextForSeatReads L redis now f ctx userID eventID m =
     (if UsePrimaryForSeatReads ctx then ctx
      else if userID = uuid_Nil \<or> eventID = uuid_Nil then ctx
      else if \<not> redis then ctx
      else case fst (redis_call f (\<lambda>m. (kv_GET now (seatReadPrimaryRedisKey L userID eventID) m \<noteq> None, m)) m) of
          Inl _ \<Rightarrow> ctx
        | Inr exists \<Rightarrow> if \<not> exists then ctx else WithReadPrimarySeats ctx)"

text \<open>Marks of other users and events are other keys.\<close>

definition plain_uuids :: "lib \<Rightarrow> bool" where
  "plain_uuids L \<longleftrightarrow> lib_ok L \<and> (\<forall>u. CHR '':'' \<notin> set (uuid_String L u))"

lemma seat_key_inj:
  assumes "plain_uuids L" "seatReadPrimaryRedisKey L u e = seatReadPrimaryRedisKey L u' e'"
  shows "u = u' \<and> e = e'"
proof -
  have "uuid_String L u @ CHR '':'' # uuid_String L e = uuid_String L u' @ CHR '':'' # uuid_String L e'"
    using assms(2) by (simp add: seatReadPrimaryRedisKey_def)
  from append_sep_inj [OF _ _ this] show ?thesis
    using assms(1) by (auto simp: plain_uuids_def uuid_String_inj)
qed

text \<open>
  The mark of a user and an event routes exactly that user's listings of that event to the
  primary, for thirty seconds.
\<close>

lemma mark_routes:
  assumes "plain_uuids L" "u \<noteq> uuid_Nil" "e \<noteq> uuid_Nil" "u' \<noteq> uuid_Nil" "e' \<noteq> uuid_Nil"
  shows "ContextForSeatReads L True t None False u' e' (MarkSeatReadPrimary L True now None u e m) =
    (if u' = u \<and> e' = e then t < now + seatReadPrimaryTTL
     else ContextForSeatReads L True t None False u' e' m)"
proof (cases "u' = u \<and> e' = e")
  case False
  then have "seatReadPrimaryRedisKey L u' e' \<noteq> seatReadPrimaryRedisKey L u e"
    using seat_key_inj [OF assms(1)] by blast
  then show ?thesis using False assms
    by (auto simp: ContextForSeatReads_def MarkSeatReadPrimary_def redis_call_def UsePrimaryForSeatReads_def)
qed (simp add: assms ContextForSeatReads_def MarkSeatReadPrimary_def redis_call_def
    UsePrimaryForSeatReads_def WithReadPrimarySeats_def)

lemma demo_plain_uuids: "plain_uuids demo_lib"
  using demo_lib_ok Itoa_nat_chars
  by (fastforce simp: plain_uuids_def demo_lib_def is_digit_def)

end
