(* ===== verification/Event_Theorems.thy ===== *)
theory Event_Theorems
  imports Event_Service Seat_Routing Demo
begin

text \<open>
  The properties of the event catalogue: what a seat listing adds up to, and what the event
  cache can serve.
\<close>

section \<open>Seats and bookings of an event, counted\<close>

lemma cnt_card: "distinct xs \<Longrightarrow> cnt P xs = int (card {x \<in> set xs. P x})"
  by (metis cnt_def distinct_card distinct_filter set_filter)

lemma active_cases: "active b \<longleftrightarrow> bStatus b = BookingStatusReserved \<or> bStatus b = BookingStatusPurchased"
  by (cases "bStatus b") (simp_all add: active_def)

text \<open>The seats of an event in status \<open>X\<close> are those of its bookings in status \<open>Y\<close>.\<close>

lemma seats_of_bookings:
  assumes inv: "db_inv d"
    and XY: "(X, Y) \<in> {(SeatStatusReserved, BookingStatusReserved), (SeatStatusSold, BookingStatusPurchased)}"
  shows "bSeatID ` {b \<in> set (bookings d). bEventID b = ev \<and> bStatus b = Y} =
         sID ` {s \<in> set (seats d). sEventID s = ev \<and> sStatus s = X}" (is "?L = ?R")
proof (intro equalityI subsetI)
  fix i assume "i \<in> ?L"
  then obtain b where b: "b \<in> set (bookings d)" "bEventID b = ev" "bStatus b = Y" "i = bSeatID b" by blast
  obtain s where s: "s \<in> set (seats d)" "sID s = bSeatID b" "sEventID s = bEventID b"
    using booking_seat [OF inv b(1)] .
  have "active b" using b(3) XY by (auto simp: active_cases)
  then have "seat_fits b s" using active_seat_fits [OF inv b(1)] s by simp
  then have "sStatus s = X" using b(3) XY by (auto simp: seat_fits_def)
  then show "i \<in> ?R" using s b by force
next
  fix i assume "i \<in> ?R"
  then obtain s where s: "s \<in> set (seats d)" "sEventID s = ev" "sStatus s = X" "i = sID s" by blast
  have "\<not> free s" using s(3) XY by (auto simp: free_def)
  then obtain b where b: "b \<in> set (bookings d)" "active b" "bSeatID b = sID s"
    using db_invD(4) [OF inv] s(1) unfolding seats_ok_def by blast
  obtain s' where s': "s' \<in> set (seats d)" "sID s' = bSeatID b" "sEventID s' = bEventID b"
    using booking_seat [OF inv b(1)] .
  have "s' = s" using key_inj [OF keys_okD(2) [OF inv] s'(1) s(1)] s'(2) b(3) by simp
  moreover have "seat_fits b s" using active_seat_fits [OF inv b(1,2) s(1)] b(3) by simp
  ultimately have "bStatus b = Y" "bEventID b = ev"
    using XY s s'(3) b(2) by (auto simp: seat_fits_def active_cases)
  then show "i \<in> ?L" using b s(4) by force
qed

lemma count_seats_bookings:
  assumes inv: "db_inv d"
    and XY: "(X, Y) \<in> {(SeatStatusReserved, BookingStatusReserved), (SeatStatusSold, BookingStatusPurchased)}"
  shows "cnt (\<lambda>s. sEventID s = ev \<and> sStatus s = X) (seats d) =
         cnt (\<lambda>b. bEventID b = ev \<and> bStatus b = Y) (bookings d)"
proof -
  let ?B = "{b \<in> set (bookings d). bEventID b = ev \<and> bStatus b = Y}"
  let ?S = "{s \<in> set (seats d). sEventID s = ev \<and> sStatus s = X}"
  have "inj_on sID ?S" using key_inj [OF keys_okD(2) [OF inv]] by (auto intro: inj_onI)
  moreover have "inj_on bSeatID ?B"
  proof (rule inj_onI)
    fix b b' assume b: "b \<in> ?B" "b' \<in> ?B" "bSeatID b = bSeatID b'"
    then have in': "b \<in> set (bookings d)" "b' \<in> set (bookings d)" by simp_all
    have "active b" "active b'" using b XY by (auto simp: active_cases)
    then have "bID b = bID b'"
      using in' b(3) db_invD(3) [OF inv] unfolding unique_active_def one_per_seat_def by blast
    then show "b = b'" by (rule key_inj [OF keys_okD(1) [OF inv] in'])
  qed
  ultimately have "card (sID ` ?S) = card ?S" "card (bSeatID ` ?B) = card ?B"
    by (simp_all only: card_image)
  then have "card ?S = card ?B" using seats_of_bookings [OF inv XY, of ev] by simp
  moreover have "distinct (seats d)" "distinct (bookings d)"
    using keys_okD(1,2) [OF inv] by (simp_all add: distinct_map)
  ultimately show ?thesis by (simp add: cnt_card)
qed

section \<open>The summary\<close>

lemma fold_count_seat:
  "smTotal (fold count_seat ss s) = smTotal s \<and>
   smAvailable (fold count_seat ss s) = smAvailable s + cnt (\<lambda>x. sStatus x = SeatStatusAvailable) ss \<and>
   smReserved (fold count_seat ss s) = smReserved s + cnt (\<lambda>x. sStatus x = SeatStatusReserved) ss \<and>
   smSold (fold count_seat ss s) = smSold s + cnt (\<lambda>x. sStatus x = SeatStatusSold) ss"
  by (induction ss arbitrary: s) (auto simp: count_seat_def split: SeatStatus.splits)

lemma cnt_sort_key: "cnt P (sort_key f xs) = cnt P xs"
proof (induction xs)
  case (Cons x xs)
  have "cnt P (insort_key f x ys) = (if P x then 1 else 0) + cnt P ys" for ys
    by (induction ys) auto
  then show ?case using Cons by simp
qed simp

lemma cnt_active:
  "cnt (active_on ev) bs = cnt (\<lambda>b. bEventID b = ev \<and> bStatus b = BookingStatusReserved) bs +
     cnt (\<lambda>b. bEventID b = ev \<and> bStatus b = BookingStatusPurchased) bs"
  by (induction bs) (auto simp: active_on_def active_cases)

lemma cnt_filter: "cnt P (filter Q xs) = cnt (\<lambda>x. Q x \<and> P x) xs"
  by (simp add: cnt_def conj_commute)

lemma cnt_statuses:
  "int (length xs) = cnt (\<lambda>x. sStatus x = SeatStatusAvailable) xs +
     cnt (\<lambda>x. sStatus x = SeatStatusReserved) xs + cnt (\<lambda>x. sStatus x = SeatStatusSold) xs"
proof (induction xs)
  case (Cons x xs)
  then show ?case by (cases "sStatus x") simp_all
qed simp

lemma listing_length:
  "int (length (filter (\<lambda>s. sEventID s = ev \<and> (st \<noteq> '''' \<longrightarrow> seat_status_of st = Some (sStatus s))) ss)) =
   (if st = '''' then cnt (\<lambda>s. sEventID s = ev) ss
    else case seat_status_of st of None \<Rightarrow> 0
      | Some X \<Rightarrow> cnt (\<lambda>s. sEventID s = ev \<and> sStatus s = X) ss)"
proof (induction ss)
  case (Cons s ss)
  then show ?case by (cases "st = ''''"; cases "seat_status_of st") (auto simp del: seat_status_of.simps)
qed (simp split: option.splits)

lemma summary_counts:
  fixes ss :: "Seat list" and ev :: uuid
  defines "c \<equiv> \<lambda>X. cnt (\<lambda>s. sEventID s = ev \<and> sStatus s = X) ss"
  assumes "sm = calculateSeatsSummary (map scan_seat (sort_key sSeatNumber (sql_select (\<lambda>s. sEventID s = ev) ss)))"
  shows "smAvailable sm = c SeatStatusAvailable" "smReserved sm = c SeatStatusReserved"
    "smSold sm = c SeatStatusSold" "smTotal sm = cnt (\<lambda>s. sEventID s = ev) ss" "smTotal sm = smAvailable sm + smReserved sm + smSold sm"
  using assms(2) cnt_statuses [of "map scan_seat (sort_key sSeatNumber (sql_select (\<lambda>s. sEventID s = ev) ss))"]
  by (simp_all add: c_def calculateSeatsSummary_def fold_count_seat cnt_map comp_def cnt_sort_key
      sql_select_def cnt_filter cnt_def [of "\<lambda>s. sEventID s = ev"])

text \<open>
  C37. A seat listing adds up: in every state the program reaches, the listing of an event (of
  the primary, nothing else committing between its queries) counts as reserved and as sold
  exactly the event's reserved and purchased bookings, its counts sum to the number of seats,
  and the seats it calls taken are those the event's counter calls taken; a status filter
  lists as many seats as the summary counts.
\<close>

theorem seat_listing_adds_up:
  assumes "db_inv (esDB s)" "\<forall>k. fault_free (evTx env k)" "evReadDB env = None"
    and "d = run exec_tx (evOthers env 0) (esDB s)" "evOthers env 1 = []" "evOthers env 2 = []"
    and "e \<in> set (events d)"
  shows "\<exists>sm ss s'. GetEventSeats env p (eID e) status s =
      (Inr \<lparr>srEventID = eID e, srSummary = sm, srSeats = ss\<rparr>, s') \<and> esDB s' = d \<and>
    smReserved sm = cnt (\<lambda>b. bEventID b = eID e \<and> bStatus b = BookingStatusReserved) (bookings d) \<and>
    smSold sm = cnt (\<lambda>b. bEventID b = eID e \<and> bStatus b = BookingStatusPurchased) (bookings d) \<and>
    smTotal sm = smAvailable sm + smReserved sm + smSold sm \<and>
    smTotal sm - smAvailable sm = eTotalSeats e - eAvailableSeats e \<and>
    int (length ss) = (if status = '''' then smTotal sm
      else if status = ''available'' then smAvailable sm
      else if status = ''reserved'' then smReserved sm
      else if status = ''sold'' then smSold sm else 0)"
proof -
  have inv: "db_inv d" unfolding assms(4) by (rule db_run.run_inv [OF assms(1)])
  let ?q = "\<lambda>st. map scan_seat (sort_key sSeatNumber (sql_select (\<lambda>s. sEventID s = eID e \<and>
      (st \<noteq> '''' \<longrightarrow> seat_status_of st = Some (sStatus s))) (seats d)))"
  define sm where "sm = calculateSeatsSummary (?q '''')"
  have e: "query_row (sql_select (\<lambda>x. eID x = eID e) (events d)) = Inr e"
    using assms(7) key_inj [OF keys_okD(3) [OF inv]] by (intro query_row_unique) auto
  have g: "\<exists>s'. GetEventSeats env p (eID e) status s =
      (Inr \<lparr>srEventID = eID e, srSummary = sm, srSeats = ?q status\<rparr>, s') \<and> esDB s' = d"
    using assms(2,3,5,6) e
    by (simp add: GetEventSeats_def ehandle_def erepo_def eread_def eret_def meanwhile_def
        assms(4) [symmetric] event_FindByID_def seat_FindByEventID_def GetReadDB_def
        DBForSeatRead_def no_rows_as_def sm_def Let_def)
  have sm: "smAvailable sm = cnt (\<lambda>s. sEventID s = eID e \<and> sStatus s = SeatStatusAvailable) (seats d)"
    "smReserved sm = cnt (\<lambda>s. sEventID s = eID e \<and> sStatus s = SeatStatusReserved) (seats d)"
    "smSold sm = cnt (\<lambda>s. sEventID s = eID e \<and> sStatus s = SeatStatusSold) (seats d)"
    "smTotal sm = cnt (\<lambda>s. sEventID s = eID e) (seats d)"
    "smTotal sm = smAvailable sm + smReserved sm + smSold sm"
    using summary_counts [of sm "eID e" "seats d"] by (simp_all add: sm_def)
  have rb: "smReserved sm = cnt (\<lambda>b. bEventID b = eID e \<and> bStatus b = BookingStatusReserved) (bookings d)"
    unfolding sm(2) by (rule count_seats_bookings [OF inv]) simp
  have sb: "smSold sm = cnt (\<lambda>b. bEventID b = eID e \<and> bStatus b = BookingStatusPurchased) (bookings d)"
    unfolding sm(3) by (rule count_seats_bookings [OF inv]) simp
  have ab: "cnt (active_on (eID e)) (bookings d) = smReserved sm + smSold sm"
    unfolding rb sb by (rule cnt_active)
  have "eAvailableSeats e = eTotalSeats e - cnt (active_on (eID e)) (bookings d)"
    using db_invD(5) [OF inv] assms(7) by (auto simp: counts_ok_def event_ok_def)
  moreover have "int (length (?q status)) = (if status = '''' then smTotal sm
      else if status = ''available'' then smAvailable sm
      else if status = ''reserved'' then smReserved sm
      else if status = ''sold'' then smSold sm else 0)"
    by (simp add: sql_select_def listing_length sm(1-4) del: seat_status_of.simps) simp
  ultimately show ?thesis using g rb sb ab sm(5) by fastforce
qed

definition quiet_eenv :: "time \<Rightarrow> eenv" where
  "quiet_eenv t = \<lparr>evLib = demo_lib, evTx = (\<lambda>_. quiet_env t 40), evReadDB = None, evRedis = True,
     evNow = (\<lambda>_. t), evFault = (\<lambda>_. None), evOthers = (\<lambda>_. []), evDropped = (\<lambda>_. [])\<rparr>"

definition demo_estate :: estate where
  "demo_estate = \<lparr>esDB = demo_db, esCache = (\<lambda>_. None)\<rparr>"

lemma seat_listing_adds_up_witness:
  "\<exists>sm ss s'. GetEventSeats (quiet_eenv 50) False 3 ''sold'' demo_estate =
     (Inr \<lparr>srEventID = 3, srSummary = sm, srSeats = ss\<rparr>, s') \<and>
   smReserved sm = 1 \<and> smSold sm = 1 \<and> smTotal sm - smAvailable sm = 2 \<and> length ss = 1"
proof -
  let ?e = "demo_event\<lparr>eID := 3, eAvailableSeats := 1, eCreatedAt := 10, eUpdatedAt := 20\<rparr>"
  have e: "eID ?e = 3" "eTotalSeats ?e - eAvailableSeats ?e = 2" by (simp_all add: demo_event_def)
  have c: "cnt (\<lambda>b. bEventID b = 3 \<and> bStatus b = BookingStatusReserved) (bookings demo_db) = 1"
    "cnt (\<lambda>b. bEventID b = 3 \<and> bStatus b = BookingStatusPurchased) (bookings demo_db) = 1"
    by (simp_all add: demo_db_def demo_booking_def)
  show ?thesis
    using seat_listing_adds_up [of demo_estate "quiet_eenv 50" demo_db ?e False "''sold''"] demo_inv c
    by (simp add: e demo_estate_def quiet_eenv_def)
      (fastforce simp: demo_db_def demo_event_def)
qed

section \<open>The event cache\<close>

definition quiet_calls :: "eenv \<Rightarrow> bool" where
  "quiet_calls env \<longleftrightarrow> evRedis env \<and> evReadDB env = None \<and>
     (\<forall>k. fault_free (evTx env k) \<and> evFault env k = None)"

definition alone :: "eenv \<Rightarrow> bool" where
  "alone env \<longleftrightarrow> (\<forall>k. evOthers env k = [] \<and> evDropped env k = [])"

lemma get_event_spec:
  assumes "quiet_calls env"
  shows "GetEventByID env eid s = (case kv_GET (evNow env 0) (event_cache_key env eid) (esCache s) of
      Some c \<Rightarrow> (Inr c, s)
    | None \<Rightarrow> (case find_event (run exec_tx (evOthers env 1) (esDB s)) eid of
          None \<Rightarrow> (Inl SvcErrEventNotFound, meanwhile env 1 s)
        | Some e \<Rightarrow> (Inr e, cacheEvent env 2 e (meanwhile env 2 (meanwhile env 1 s)))))"
  using assms
  by (simp add: GetEventByID_def getEventFromCache_def redis_call_def quiet_calls_def ehandle_def
      erepo_def eread_def eret_def event_FindByID_def GetReadDB_def no_rows_as_def find_event_def
      find_event_error_def meanwhile_def query_row_find Let_def split: option.splits)

text \<open>A call that misses, and a later one, with or without an invalidation in between.\<close>

lemma event_cache_calls:
  assumes "quiet_calls env" "kv_GET (evNow env 0) (event_cache_key env eid) (esCache s) = None"
    and "find_event (run exec_tx (evOthers env 1) (esDB s)) eid = Some e"
    and "GetEventByID env eid s = (r, s1)"
    and "quiet_calls env'" "alone env'" "evLib env' = evLib env" "quiet_calls env2" "evLib env2 = evLib env"
  shows "r = Inr e \<and>
    fst (GetEventByID env' eid (s1\<lparr>esDB := d\<rparr>)) =
      (if evNow env' 0 < evNow env 2 + eventCacheTTL then Inr e
       else case find_event d eid of None \<Rightarrow> Inl SvcErrEventNotFound | Some x \<Rightarrow> Inr x) \<and>
    fst (GetEventByID env' eid (InvalidateEventCache env2 k eid (s1\<lparr>esDB := d\<rparr>))) =
      (case find_event d eid of None \<Rightarrow> Inl SvcErrEventNotFound | Some x \<Rightarrow> Inr x)"
proof -
  have id: "eID e = eid" using assms(3) by (auto simp: find_event_def find_Some_iff)
  have r: "r = Inr e" "s1 = cacheEvent env 2 e (meanwhile env 2 (meanwhile env 1 s))"
    using assms(4) by (simp_all add: get_event_spec [OF assms(1)] assms(2,3) del: One_nat_def)
  have key: "event_cache_key env' eid = event_cache_key env eid"
    "event_cache_key env2 eid = event_cache_key env eid"
    by (simp_all add: event_cache_key_def assms(7,9))
  obtain m where c: "esCache s1 = kv_SET (evNow env 2) (event_cache_key env eid) e eventCacheTTL m"
    using assms(1) by (simp add: r(2) cacheEvent_def quiet_calls_def redis_call_def id)
  have db: "run exec_tx (evOthers env' 1) d' = d'" for d' using assms(6) by (simp add: alone_def)
  show ?thesis using assms(8)
    by (auto simp: r(1) get_event_spec [OF assms(5)] key c db redis_keys.get_set redis_keys.get_del
        InvalidateEventCache_def invalidateEventCache_def quiet_calls_def redis_call_def
        simp del: kv_GET_SET kv_GET_DEL One_nat_def split: option.splits)
qed

text \<open>
  C38. What the cache of an event can serve: a call that misses answers with the event's row
  in the database and caches it; from then on, whatever becomes of the database, calls get
  this row until an hour after it was cached, or until the event is invalidated, and then the
  row the database has.
\<close>

theorem event_cache:
  assumes "quiet_calls env" "kv_GET (evNow env 0) (event_cache_key env eid) (esCache s) = None"
    and "find_event (run exec_tx (evOthers env 1) (esDB s)) eid = Some e"
    and "GetEventByID env eid s = (r, s1)"
    and "quiet_calls env'" "alone env'" "evLib env' = evLib env" "quiet_calls env2" "evLib env2 = evLib env"
  shows "r = Inr e \<and>
    fst (GetEventByID env' eid (s1\<lparr>esDB := d\<rparr>)) =
      (if evNow env' 0 < evNow env 2 + eventCacheTTL then Inr e
       else case find_event d eid of None \<Rightarrow> Inl SvcErrEventNotFound | Some x \<Rightarrow> Inr x) \<and>
    fst (GetEventByID env' eid (InvalidateEventCache env2 k eid (s1\<lparr>esDB := d\<rparr>))) =
      (case find_event d eid of None \<Rightarrow> Inl SvcErrEventNotFound | Some x \<Rightarrow> Inr x)"
  using assms by (rule event_cache_calls)

definition stored_event :: Event where
  "stored_event = demo_event\<lparr>eID := 3, eAvailableSeats := 1, eCreatedAt := 10, eUpdatedAt := 20\<rparr>"

lemma quiet_eenv_simps [simp]:
  "quiet_calls (quiet_eenv t)" "alone (quiet_eenv t)" "evLib (quiet_eenv t) = demo_lib"
  "evNow (quiet_eenv t) k = t" "evOthers (quiet_eenv t) k = []"
  by (simp_all add: quiet_calls_def alone_def quiet_eenv_def)

lemma demo_find_event: "find_event demo_db 3 = Some stored_event" "find_event empty_db 3 = None"
  by (simp_all add: find_event_def demo_db_def stored_event_def demo_event_def empty_db_def)

text \<open>A listing at time 50, read again after the database lost the event: cached, dropped.\<close>

lemma event_cache_witness:
  "fst (GetEventByID (quiet_eenv 60) 3 ((snd (GetEventByID (quiet_eenv 50) 3 demo_estate))\<lparr>esDB := empty_db\<rparr>)) =
     Inr stored_event \<and>
   fst (GetEventByID (quiet_eenv (2 * Hour)) 3 ((snd (GetEventByID (quiet_eenv 50) 3 demo_estate))\<lparr>esDB := empty_db\<rparr>)) =
     Inl SvcErrEventNotFound"
proof -
  have m: "kv_GET (evNow (quiet_eenv 50) 0) (event_cache_key (quiet_eenv 50) 3) (esCache demo_estate) = None"
    by (simp add: demo_estate_def kv_GET_def kv_live_def)
  have f: "find_event (run exec_tx (evOthers (quiet_eenv 50) 1) (esDB demo_estate)) 3 = Some stored_event"
    by (simp add: demo_estate_def demo_find_event)
  note c = event_cache [OF quiet_eenv_simps(1) m f prod.collapse [symmetric] quiet_eenv_simps(1,2) _ quiet_eenv_simps(1)]
  show ?thesis
    using c [of 60 50 empty_db 0] c [of "2 * Hour" 50 empty_db 0]
    by (simp add: demo_find_event eventCacheTTL_def duration_defs)
qed

text \<open>
  A booking that invalidates the event between a reader's database query and its write to the
  cache has no effect: the reader caches the old row, and it is served although the database
  has another one since before the invalidation.
\<close>

lemma stale_fill:
  "\<exists>s1 old. GetEventByID ((quiet_eenv 50)\<lparr>evOthers := (\<lambda>k. if k = 2 then [TxCancel (quiet_env 50 0) 21] else []),
       evDropped := (\<lambda>k. if k = 2 then [3] else [])\<rparr>) 3 demo_estate = (Inr old, s1) \<and>
     find_event (esDB s1) 3 = Some (old\<lparr>eAvailableSeats := 2, eUpdatedAt := 50\<rparr>) \<and> eAvailableSeats old = 1 \<and>
     fst (GetEventByID (quiet_eenv 60) 3 s1) = Inr old"
proof -
  let ?env = "(quiet_eenv 50)\<lparr>evOthers := (\<lambda>k. if k = 2 then [TxCancel (quiet_env 50 0) 21] else []),
       evDropped := (\<lambda>k. if k = 2 then [3] else [])\<rparr>"
  have q: "quiet_calls ?env" by (simp add: quiet_calls_def quiet_eenv_def)
  have d: "find_event (exec_tx (TxCancel (quiet_env 50 0) 21) demo_db) 3 =
      Some (stored_event\<lparr>eAvailableSeats := 2, eUpdatedAt := 50\<rparr>)"
    by (simp add: CancelReservation_def releaseReservation_def releaseReservationTx_def Let_def
        findBookingForUpdateTx_def no_rows_as_def run_tx_def commit_def query_row_def sql_select_def
        rows_affected_def increment_available_def int4_def sql_update_def find_event_def demo_db_def
        demo_booking_def demo_event_def stored_event_def)
  let ?s1 = "cacheEvent ?env 2 stored_event (meanwhile ?env 2 (meanwhile ?env 1 demo_estate))"
  have "kv_GET (evNow ?env 0) (event_cache_key ?env 3) (esCache demo_estate) = None"
    "find_event (run exec_tx (evOthers ?env 1) (esDB demo_estate)) 3 = Some stored_event"
    by (simp_all add: demo_estate_def kv_GET_def kv_live_def demo_find_event)
  then have g: "GetEventByID ?env 3 demo_estate = (Inr stored_event, ?s1)"
    by (simp add: get_event_spec [OF q] del: One_nat_def)
  have k: "event_cache_key ?env u = event_cache_key (quiet_eenv 60) u" for u
    by (simp add: event_cache_key_def)
  have r: "fst (GetEventByID (quiet_eenv 60) 3 ?s1) = Inr stored_event"
    using event_cache_calls [OF q _ _ g quiet_eenv_simps(1,2) _ q, of stored_event 60 "esDB ?s1" 0]
    by (simp add: demo_estate_def kv_GET_def kv_live_def demo_find_event eventCacheTTL_def
        duration_defs del: One_nat_def)
  have "esDB ?s1 = exec_tx (TxCancel (quiet_env 50 0) 21) demo_db"
    by (simp add: cacheEvent_def meanwhile_def demo_estate_def del: exec_tx.simps)
  with d g r show ?thesis
    by (intro exI [of _ ?s1] exI [of _ stored_event]) (simp add: stored_event_def demo_event_def)
qed

end
