(* ===== verification/Command_Queue.thy ===== *)
theory Command_Queue
  imports Payment Expiry_Queue
begin

text \<open>
  internal/queue/queue.go: jobs in Kafka topics with retries and dead letters, the status of
  a job in Redis (or in memory without Redis), depth counters, and the consumer loop with
  its offsets. A topic is the list of the messages written to it; a message carries its job
  (\<open>json.Unmarshal\<close> undoes \<open>json.Marshal\<close>).
\<close>

section \<open>Jobs and their status\<close>

record BookingJob =
  bjID :: uuid
  bjUserID :: uuid
  bjEventID :: uuid
  bjSeatNumber :: string
  bjAttempt :: int
  bjCreatedAt :: time

record PurchaseJob =
  pjID :: uuid
  pjUserID :: uuid
  pjBookingID :: uuid
  pjIdempotencyKey :: string
  pjAttempt :: int
  pjCreatedAt :: time

datatype job_state =
    JobStatusPending
  | JobStatusRetrying
  | JobStatusCompleted
  | JobStatusFailed
  | JobStatusDeadLetter

record JobStatus =
  jsJobID :: uuid
  jsStatus :: job_state
  jsBookingID :: "uuid option"
  jsAttempt :: int
  jsError :: string
  jsCreatedAt :: time
  jsUpdatedAt :: time

text \<open>Go's zero \<open>time.Time\<close>: the first of January of the year 1.\<close>

definition zero_time :: time where
  "zero_time = - 62135596800 * Second"

definition jobStatusTTL :: duration where
  "jobStatusTTL = 24 * Hour"

definition defaultMaxRetries :: int where
  "defaultMaxRetries = 3"

definition bookingDepthKey :: string where "bookingDepthKey = ''kafka:queue:booking:depth''"
definition purchaseDepthKey :: string where "purchaseDepthKey = ''kafka:queue:purchase:depth''"
definition bookingDLQKey :: string where "bookingDLQKey = ''kafka:queue:booking:dlq:depth''"
definition purchaseDLQKey :: string where "purchaseDLQKey = ''kafka:queue:purchase:dlq:depth''"

lemmas depth_keys = bookingDepthKey_def purchaseDepthKey_def bookingDLQKey_def purchaseDLQKey_def

section \<open>State and environment\<close>

text \<open>
  The four topics as lists of keyed messages, the status entries with the time Redis drops
  them (never, without Redis), the counters.
\<close>

record qstate =
  qBooking :: "(string \<times> BookingJob) list"
  qPurchase :: "(string \<times> PurchaseJob) list"
  qBookingDLQ :: "(string \<times> BookingJob) list"
  qPurchaseDLQ :: "(string \<times> PurchaseJob) list"
  qStatus :: "string \<Rightarrow> (JobStatus \<times> time option) option"
  qCounter :: "string \<Rightarrow> int"

definition empty_queue :: qstate where
  "empty_queue = \<lparr>qBooking = [], qPurchase = [], qBookingDLQ = [], qPurchaseDLQ = [],
     qStatus = (\<lambda>_. None), qCounter = (\<lambda>_. 0)\<rparr>"

datatype qstep = SetStatus | WriteMessage | Bump | BumpReset | Get string

record qenv =
  qLib :: lib
  qEnabled :: bool
  qRedis :: bool
  qMaxRetries :: int
  qNewID :: uuid
  qNow :: time
  qFault :: "qstep \<Rightarrow> redis_fault"

definition kafka_call :: "redis_fault \<Rightarrow> (qstate \<Rightarrow> qstate) \<Rightarrow> qstate \<Rightarrow> unit res \<times> qstate" where
  "kafka_call f cmd = redis_call f (\<lambda>q. ((), cmd q))"

definition SetMaxRetries :: "int \<Rightarrow> int" where
  "SetMaxRetries maxRetries = (if maxRetries < 0 then 0 else maxRetries)"

definition status_key :: "qenv \<Rightarrow> uuid \<Rightarrow> string" where
  "status_key env jobID = ''job:status:'' @ uuid_String (qLib env) jobID"

definition setJobStatus :: "qenv \<Rightarrow> JobStatus \<Rightarrow> qstate \<Rightarrow> unit res \<times> qstate" where
  "setJobStatus env status q =
     (let s1 = status\<lparr>jsUpdatedAt := qNow env\<rparr>;
          s2 = (if jsCreatedAt s1 = zero_time then s1\<lparr>jsCreatedAt := jsUpdatedAt s1\<rparr> else s1);
          key = status_key env (jsJobID s2)
      in if qRedis env then
        (case kafka_call (qFault env SetStatus)
             (qStatus_update (\<lambda>m. m(key \<mapsto> (s2, Some (qNow env + jobStatusTTL))))) q of
           (Inl e, q') \<Rightarrow> (Inl (Wrap ''set job status'' e), q')
         | (Inr _, q') \<Rightarrow> (Inr (), q'))
      else (Inr (), qStatus_update (\<lambda>m. m(key \<mapsto> (s2, None))) q))"

text \<open>Counter errors are ignored; a counter below zero is set back to zero.\<close>

definition bumpCounter :: "qenv \<Rightarrow> string \<Rightarrow> int \<Rightarrow> qstate \<Rightarrow> qstate" where
  "bumpCounter env key delta q =
     (if \<not> qRedis env then q
      else let bump = qCounter_update (\<lambda>c. c(key := c key + delta)) in
        if 0 \<le> delta then snd (kafka_call (qFault env Bump) bump q)
        else case kafka_call (qFault env Bump) bump q of
            (Inl _, q') \<Rightarrow> q'
          | (Inr _, q') \<Rightarrow>
              if qCounter q' key < 0
              then snd (kafka_call (qFault env BumpReset) (qCounter_update (\<lambda>c. c(key := 0))) q')
              else q')"

definition readCounter :: "qenv \<Rightarrow> string \<Rightarrow> qstate \<Rightarrow> int" where
  "readCounter env key q =
     (if \<not> qRedis env then 0
      else case qFault env (Get key) of Some _ \<Rightarrow> 0 | None \<Rightarrow> qCounter q key)"

section \<open>Enqueueing\<close>

text \<open>What follows \<open>setJobStatus\<close> in every operation: write the message, count it.\<close>

definition write_and_count ::
  "qenv \<Rightarrow> string \<Rightarrow> (qstate \<Rightarrow> qstate) \<Rightarrow> string \<Rightarrow> qstate \<Rightarrow> unit res \<times> qstate" where
  "write_and_count env msg push key q =
     (case kafka_call (qFault env WriteMessage) push q of
        (Inl e, q') \<Rightarrow> (Inl (Wrap msg e), q')
      | (Inr _, q') \<Rightarrow> (Inr (), bumpCounter env key 1 q'))"

definition EnqueueBookingJob ::
  "qenv \<Rightarrow> BookingJob \<Rightarrow> qstate \<Rightarrow> BookingJob res \<times> qstate" where
  "EnqueueBookingJob env job0 q =
     (if \<not> qEnabled env then (Inl QueueErrKafkaUnavailable, q) else
      let job = job0\<lparr>bjID := qNewID env, bjAttempt := 0, bjCreatedAt := qNow env\<rparr>;
          status = \<lparr>jsJobID = bjID job, jsStatus = JobStatusPending, jsBookingID = None,
            jsAttempt = 0, jsError = '''', jsCreatedAt = bjCreatedAt job, jsUpdatedAt = bjCreatedAt job\<rparr>
      in case setJobStatus env status q of
           (Inl e, q1) \<Rightarrow> (Inl (Wrap ''set initial booking job status'' e), q1)
         | (Inr _, q1) \<Rightarrow>
             (case write_and_count env ''write booking command''
                (qBooking_update (\<lambda>t. t @ [(uuid_String (qLib env) (bjEventID job), job)]))
                bookingDepthKey q1 of
                (Inl e, q2) \<Rightarrow> (Inl e, q2) | (Inr _, q2) \<Rightarrow> (Inr job, q2)))"

definition EnqueuePurchaseJob ::
  "qenv \<Rightarrow> PurchaseJob \<Rightarrow> qstate \<Rightarrow> PurchaseJob res \<times> qstate" where
  "EnqueuePurchaseJob env job0 q =
     (if \<not> qEnabled env then (Inl QueueErrKafkaUnavailable, q) else
      let job = job0\<lparr>pjID := qNewID env, pjAttempt := 0, pjCreatedAt := qNow env\<rparr>;
          status = \<lparr>jsJobID = pjID job, jsStatus = JobStatusPending,
            jsBookingID = Some (pjBookingID job), jsAttempt = 0, jsError = '''',
            jsCreatedAt = pjCreatedAt job, jsUpdatedAt = pjCreatedAt job\<rparr>
      in case setJobStatus env status q of
           (Inl e, q1) \<Rightarrow> (Inl (Wrap ''set initial purchase job status'' e), q1)
         | (Inr _, q1) \<Rightarrow>
             (case write_and_count env ''write purchase command''
                (qPurchase_update (\<lambda>t. t @ [(uuid_String (qLib env) (pjID job), job)]))
                purchaseDepthKey q1 of
                (Inl e, q2) \<Rightarrow> (Inl e, q2) | (Inr _, q2) \<Rightarrow> (Inr job, q2)))"

section \<open>Status of a job\<close>

definition GetJobStatus :: "qenv \<Rightarrow> uuid \<Rightarrow> qstate \<Rightarrow> JobStatus res" where
  "GetJobStatus env jobID q =
     (let key = status_key env jobID in
      if qRedis env then
        (case qFault env (Get key) of
           Some (e, _) \<Rightarrow> Inl (Wrap ''get job status'' e)
         | None \<Rightarrow> (case qStatus q key of
             Some (s, exp) \<Rightarrow>
               if (case exp of None \<Rightarrow> True | Some t \<Rightarrow> qNow env < t) then Inr s
               else Inl QueueErrJobNotFound
           | None \<Rightarrow> Inl QueueErrJobNotFound))
      else (case qStatus q key of Some (s, _) \<Rightarrow> Inr s | None \<Rightarrow> Inl QueueErrJobNotFound))"

definition CompleteJob :: "qenv \<Rightarrow> uuid \<Rightarrow> uuid \<Rightarrow> qstate \<Rightarrow> unit res \<times> qstate" where
  "CompleteJob env jobID bookingID = setJobStatus env
     \<lparr>jsJobID = jobID, jsStatus = JobStatusCompleted, jsBookingID = Some bookingID, jsAttempt = 0,
      jsError = '''', jsCreatedAt = zero_time, jsUpdatedAt = zero_time\<rparr>"

definition FailJob :: "qenv \<Rightarrow> uuid \<Rightarrow> string \<Rightarrow> qstate \<Rightarrow> unit res \<times> qstate" where
  "FailJob env jobID errMsg = setJobStatus env
     \<lparr>jsJobID = jobID, jsStatus = JobStatusFailed, jsBookingID = None, jsAttempt = 0,
      jsError = errMsg, jsCreatedAt = zero_time, jsUpdatedAt = zero_time\<rparr>"

section \<open>Failed jobs\<close>

definition HandleBookingJobFailure ::
  "qenv \<Rightarrow> BookingJob \<Rightarrow> string \<Rightarrow> qstate \<Rightarrow> unit res \<times> qstate" where
  "HandleBookingJobFailure env job errMsg q =
     (if \<not> qEnabled env then (Inl QueueErrKafkaUnavailable, q)
      else if bjAttempt job < qMaxRetries env then
        let job' = job\<lparr>bjAttempt := bjAttempt job + 1\<rparr> in
        (case setJobStatus env \<lparr>jsJobID = bjID job', jsStatus = JobStatusRetrying, jsBookingID = None,
             jsAttempt = bjAttempt job', jsError = errMsg, jsCreatedAt = zero_time,
             jsUpdatedAt = zero_time\<rparr> q of
           (Inl e, q1) \<Rightarrow> (Inl e, q1)
         | (Inr _, q1) \<Rightarrow> write_and_count env ''write booking retry''
             (qBooking_update (\<lambda>t. t @ [(uuid_String (qLib env) (bjEventID job'), job')]))
             bookingDepthKey q1)
      else
        (case setJobStatus env \<lparr>jsJobID = bjID job, jsStatus = JobStatusDeadLetter, jsBookingID = None,
             jsAttempt = bjAttempt job, jsError = errMsg, jsCreatedAt = zero_time,
             jsUpdatedAt = zero_time\<rparr> q of
           (Inl e, q1) \<Rightarrow> (Inl e, q1)
         | (Inr _, q1) \<Rightarrow> write_and_count env ''write booking dlq''
             (qBookingDLQ_update (\<lambda>t. t @ [(uuid_String (qLib env) (bjEventID job), job)]))
             bookingDLQKey q1))"

definition HandlePurchaseJobFailure ::
  "qenv \<Rightarrow> PurchaseJob \<Rightarrow> string \<Rightarrow> qstate \<Rightarrow> unit res \<times> qstate" where
  "HandlePurchaseJobFailure env job errMsg q =
     (if \<not> qEnabled env then (Inl QueueErrKafkaUnavailable, q)
      else if pjAttempt job < qMaxRetries env then
        let job' = job\<lparr>pjAttempt := pjAttempt job + 1\<rparr> in
        (case setJobStatus env \<lparr>jsJobID = pjID job', jsStatus = JobStatusRetrying, jsBookingID = None,
             jsAttempt = pjAttempt job', jsError = errMsg, jsCreatedAt = zero_time,
             jsUpdatedAt = zero_time\<rparr> q of
           (Inl e, q1) \<Rightarrow> (Inl e, q1)
         | (Inr _, q1) \<Rightarrow> write_and_count env ''write purchase retry''
             (qPurchase_update (\<lambda>t. t @ [(uuid_String (qLib env) (pjID job'), job')]))
             purchaseDepthKey q1)
      else
        (case setJobStatus env \<lparr>jsJobID = pjID job, jsStatus = JobStatusDeadLetter, jsBookingID = None,
             jsAttempt = pjAttempt job, jsError = errMsg, jsCreatedAt = zero_time,
             jsUpdatedAt = zero_time\<rparr> q of
           (Inl e, q1) \<Rightarrow> (Inl e, q1)
         | (Inr _, q1) \<Rightarrow> write_and_count env ''write purchase dlq''
             (qPurchaseDLQ_update (\<lambda>t. t @ [(uuid_String (qLib env) (pjID job), job)]))
             purchaseDLQKey q1))"

section \<open>Metrics and message ids\<close>

record QueueMetrics =
  qmBookingQueueLength :: int
  qmPurchaseQueueLength :: int
  qmBookingDLQLength :: int
  qmPurchaseDLQLength :: int
  qmBookingPending :: int
  qmPurchasePending :: int
  qmMaxRetries :: int
  qmBookingReaders :: int
  qmPurchaseReaders :: int

text \<open>\<open>bg\<close> and \<open>pg\<close> say whether the consumer groups exist.\<close>

definition GetMetrics :: "qenv \<Rightarrow> bool \<Rightarrow> bool \<Rightarrow> qstate \<Rightarrow> QueueMetrics res" where
  "GetMetrics env bg pg q =
     (if \<not> qEnabled env then Inl QueueErrKafkaUnavailable else Inr \<lparr>
        qmBookingQueueLength = readCounter env bookingDepthKey q,
        qmPurchaseQueueLength = readCounter env purchaseDepthKey q,
        qmBookingDLQLength = readCounter env bookingDLQKey q,
        qmPurchaseDLQLength = readCounter env purchaseDLQKey q,
        qmBookingPending = 0, qmPurchasePending = 0, qmMaxRetries = qMaxRetries env,
        qmBookingReaders = (if bg then 1 else 0), qmPurchaseReaders = (if pg then 1 else 0)\<rparr>)"

text \<open>\<open>fmt.Sprintf("%d:%d", msg.Partition, msg.Offset)\<close> and its parser.\<close>

definition message_id :: "int \<Rightarrow> int \<Rightarrow> string" where
  "message_id part offset = Itoa part @ '':'' @ Itoa offset"

definition parseMessageID :: "string \<Rightarrow> (int \<times> int) res" where
  "parseMessageID messageID =
     (case Split messageID (CHR '':'') of
        [p, off] \<Rightarrow>
          (case ParseInt p of
             None \<Rightarrow> Inl (Wrap ''invalid partition in message id'' (Foreign ''invalid syntax''))
           | Some part \<Rightarrow>
               (case ParseInt off of
                  None \<Rightarrow> Inl (Wrap ''invalid offset in message id'' (Foreign ''invalid syntax''))
                | Some offset \<Rightarrow> Inr (part, offset)))
      | _ \<Rightarrow> Inl (Foreign (''invalid message id: '' @ messageID)))"

section \<open>The consumer loop\<close>

text \<open>
  The loop of \<open>runConsumerGroup\<close> and \<open>runPurchaseConsumerGroup\<close> for one assigned partition.
  A partition is the list of its messages, \<open>None\<close> for one that does not decode. Each read
  returns the next message, some other error, the end of the generation or a cancelled
  context; \<open>pos\<close> is the offset of the next message. The result is the offset committed, if
  any, and the state.
\<close>

datatype read = ReadMessage | ReadError | GenerationEnded | Canceled

fun consume ::
  "('j \<Rightarrow> string \<Rightarrow> 's \<Rightarrow> bool \<times> 's) \<Rightarrow> ('s \<Rightarrow> 's) \<Rightarrow> int \<Rightarrow> 'j option list \<Rightarrow> read list \<Rightarrow> nat \<Rightarrow> int \<Rightarrow> 's \<Rightarrow>
   int option \<times> 's" where
  "consume handler bump part msgs [] pos currentOffset s = (None, s)"
| "consume handler bump part msgs (GenerationEnded # rs) pos currentOffset s = (Some (currentOffset + 1), s)"
| "consume handler bump part msgs (Canceled # rs) pos currentOffset s = (None, s)"
| "consume handler bump part msgs (ReadError # rs) pos currentOffset s =
     consume handler bump part msgs rs pos currentOffset s"
| "consume handler bump part msgs (ReadMessage # rs) pos currentOffset s =
     (if length msgs \<le> pos then consume handler bump part msgs rs pos currentOffset s else
      case msgs ! pos of
        None \<Rightarrow> consume handler bump part msgs rs (Suc pos) (int pos) s
      | Some job \<Rightarrow>
          (case handler job (message_id part (int pos)) s of
             (False, s') \<Rightarrow> consume handler bump part msgs rs (Suc pos) currentOffset s'
           | (True, s') \<Rightarrow> consume handler bump part msgs rs (Suc pos) (int pos) (bump s')))"

text \<open>
  A partition assigned at \<open>offset\<close> is read from there, and that is the current offset. Kafka-go
  assigns the configured start offset, by default \<open>FirstOffset\<close>, to a partition without a
  committed one; reading then begins with the first message.
\<close>

definition FirstOffset :: int where "FirstOffset = -2"

definition assigned_offset :: "int \<Rightarrow> int" where
  "assigned_offset committed = (if committed < 0 then FirstOffset else committed)"

definition run_partition ::
  "('j \<Rightarrow> string \<Rightarrow> 's \<Rightarrow> bool \<times> 's) \<Rightarrow> ('s \<Rightarrow> 's) \<Rightarrow> int \<Rightarrow> 'j option list \<Rightarrow> read list \<Rightarrow> int \<Rightarrow> 's \<Rightarrow>
   int option \<times> 's" where
  "run_partition handler bump part msgs rs offset s = consume handler bump part msgs rs (nat offset) offset s"

section \<open>Deprecated operations\<close>

definition DequeueBookingJob :: "(BookingJob \<times> string) res" where
  "DequeueBookingJob = Inl (Foreign ''DequeueBookingJob deprecated: use StartBookingConsumer with handler'')"

definition DequeuePurchaseJob :: "(PurchaseJob \<times> string) res" where
  "DequeuePurchaseJob = Inl (Foreign ''DequeuePurchaseJob deprecated: use StartPurchaseConsumer with handler'')"

definition AckBookingJob :: "string \<Rightarrow> unit res" where
  "AckBookingJob messageID = Inr ()"

definition AckPurchaseJob :: "string \<Rightarrow> unit res" where
  "AckPurchaseJob messageID = Inr ()"

end
