(* ===== verification/Monitoring.thy ===== *)
theory Monitoring
  imports Command_Queue
begin

text \<open>
  internal/services/queue_monitor.go with internal/telemetry/prometheus.go: gauges and
  counters of the command queue and the alerts a check raises. Counters are 64-bit words.
\<close>

section \<open>prometheus.go\<close>

record telemetry =
  tBookingQueueLength :: int
  tPurchaseQueueLength :: int
  tBookingDLQLength :: int
  tPurchaseDLQLength :: int
  tBookingPending :: int
  tPurchasePending :: int
  tQueueMonitorErrors :: "64 word"
  tAlertBookingQueue :: "64 word"
  tAlertPurchaseQueue :: "64 word"
  tAlertBookingPend :: "64 word"
  tAlertPurchasePend :: "64 word"
  tAlertBookingDLQ :: "64 word"
  tAlertPurchaseDLQ :: "64 word"

definition UpdateQueueMetrics :: "QueueMetrics option \<Rightarrow> telemetry \<Rightarrow> telemetry" where
  "UpdateQueueMetrics m t = (case m of None \<Rightarrow> t
     | Some m \<Rightarrow> t\<lparr>tBookingQueueLength := qmBookingQueueLength m,
         tPurchaseQueueLength := qmPurchaseQueueLength m,
         tBookingDLQLength := qmBookingDLQLength m, tPurchaseDLQLength := qmPurchaseDLQLength m,
         tBookingPending := qmBookingPending m, tPurchasePending := qmPurchasePending m\<rparr>)"

definition IncQueueMonitorError :: "telemetry \<Rightarrow> telemetry" where
  "IncQueueMonitorError = tQueueMonitorErrors_update (\<lambda>n. n + 1)"

definition IncQueueAlert :: "string \<Rightarrow> telemetry \<Rightarrow> telemetry" where
  "IncQueueAlert signal t =
     (if signal = ''booking_queue_lag'' then tAlertBookingQueue_update (\<lambda>n. n + 1) t
      else if signal = ''purchase_queue_lag'' then tAlertPurchaseQueue_update (\<lambda>n. n + 1) t
      else if signal = ''booking_pending'' then tAlertBookingPend_update (\<lambda>n. n + 1) t
      else if signal = ''purchase_pending'' then tAlertPurchasePend_update (\<lambda>n. n + 1) t
      else if signal = ''booking_dlq'' then tAlertBookingDLQ_update (\<lambda>n. n + 1) t
      else if signal = ''purchase_dlq'' then tAlertPurchaseDLQ_update (\<lambda>n. n + 1) t
      else t)"

definition LF :: string where "LF = [CHR 0x0A]"

text \<open>A metric's two comment lines and its value, as the code writes them.\<close>

definition metric :: "string \<Rightarrow> string \<Rightarrow> string \<Rightarrow> string" where
  "metric name kind help = ''# HELP '' @ name @ '' '' @ help @ LF @ ''# TYPE '' @ name @ '' '' @ kind @ LF"

definition sample :: "string \<Rightarrow> string \<Rightarrow> string" where
  "sample name v = name @ '' '' @ v @ LF"

definition RenderPrometheus :: "telemetry \<Rightarrow> string" where
  "RenderPrometheus t =
     metric ''ticketmaster_queue_booking_length'' ''gauge'' ''Current booking queue stream length.'' @
     sample ''ticketmaster_queue_booking_length'' (Itoa (tBookingQueueLength t)) @
     metric ''ticketmaster_queue_purchase_length'' ''gauge'' ''Current purchase queue stream length.'' @
     sample ''ticketmaster_queue_purchase_length'' (Itoa (tPurchaseQueueLength t)) @
     metric ''ticketmaster_queue_booking_pending'' ''gauge'' ''Current booking pending entries for consumer group.'' @
     sample ''ticketmaster_queue_booking_pending'' (Itoa (tBookingPending t)) @
     metric ''ticketmaster_queue_purchase_pending'' ''gauge'' ''Current purchase pending entries for consumer group.'' @
     sample ''ticketmaster_queue_purchase_pending'' (Itoa (tPurchasePending t)) @
     metric ''ticketmaster_queue_booking_dlq_length'' ''gauge'' ''Current booking DLQ stream length.'' @
     sample ''ticketmaster_queue_booking_dlq_length'' (Itoa (tBookingDLQLength t)) @
     metric ''ticketmaster_queue_purchase_dlq_length'' ''gauge'' ''Current purchase DLQ stream length.'' @
     sample ''ticketmaster_queue_purchase_dlq_length'' (Itoa (tPurchaseDLQLength t)) @
     metric ''ticketmaster_queue_monitor_errors_total'' ''counter'' ''Total queue monitor metric collection errors.'' @
     sample ''ticketmaster_queue_monitor_errors_total'' (Itoa_nat (unat (tQueueMonitorErrors t))) @
     metric ''ticketmaster_queue_alerts_total'' ''counter'' ''Total threshold alert evaluations by signal.'' @
     sample ''ticketmaster_queue_alerts_total{signal=\"booking_queue_lag\"}'' (Itoa_nat (unat (tAlertBookingQueue t))) @
     sample ''ticketmaster_queue_alerts_total{signal=\"purchase_queue_lag\"}'' (Itoa_nat (unat (tAlertPurchaseQueue t))) @
     sample ''ticketmaster_queue_alerts_total{signal=\"booking_pending\"}'' (Itoa_nat (unat (tAlertBookingPend t))) @
     sample ''ticketmaster_queue_alerts_total{signal=\"purchase_pending\"}'' (Itoa_nat (unat (tAlertPurchasePend t))) @
     sample ''ticketmaster_queue_alerts_total{signal=\"booking_dlq\"}'' (Itoa_nat (unat (tAlertBookingDLQ t))) @
     sample ''ticketmaster_queue_alerts_total{signal=\"purchase_dlq\"}'' (Itoa_nat (unat (tAlertPurchaseDLQ t)))"

section \<open>queue_monitor.go\<close>

text \<open>The signals of one check, in the order the code evaluates them; logging is left out.\<close>

definition alerts :: "QueueConfig \<Rightarrow> QueueMetrics \<Rightarrow> string list" where
  "alerts cfg m =
     (if qcAlertBookingQueueLength cfg \<le> qmBookingQueueLength m then [''booking_queue_lag''] else []) @
     (if qcAlertPurchaseQueueLength cfg \<le> qmPurchaseQueueLength m then [''purchase_queue_lag''] else []) @
     (if qcAlertBookingPending cfg \<le> qmBookingPending m then [''booking_pending''] else []) @
     (if qcAlertPurchasePending cfg \<le> qmPurchasePending m then [''purchase_pending''] else []) @
     (if qcAlertBookingDLQ cfg \<le> qmBookingDLQLength m then [''booking_dlq''] else []) @
     (if qcAlertPurchaseDLQ cfg \<le> qmPurchaseDLQLength m then [''purchase_dlq''] else [])"

definition checkOnce :: "QueueConfig \<Rightarrow> qenv \<Rightarrow> bool \<Rightarrow> bool \<Rightarrow> qstate \<Rightarrow> telemetry \<Rightarrow> telemetry" where
  "checkOnce cfg env bg pg q t =
     (case GetMetrics env bg pg q of
        Inl _ \<Rightarrow> IncQueueMonitorError t
      | Inr metrics \<Rightarrow> fold IncQueueAlert (alerts cfg metrics) (UpdateQueueMetrics (Some metrics) t))"

text \<open>\<open>Run\<close>: one check at the start and one per tick; its interval.\<close>

definition monitor_interval :: "QueueConfig \<Rightarrow> duration" where
  "monitor_interval cfg = (let interval = wrap64 (qcMonitorIntervalSec cfg * Second)
     in if interval \<le> 0 then 15 * Second else interval)"

definition monitor_run :: "QueueConfig \<Rightarrow> bool \<Rightarrow> bool \<Rightarrow> (qenv \<times> qstate) list \<Rightarrow> telemetry \<Rightarrow> telemetry" where
  "monitor_run cfg bg pg rounds = fold (\<lambda>(env, q). checkOnce cfg env bg pg q) rounds"

section \<open>What a check does\<close>

lemma monitor_interval_pos: "0 < monitor_interval cfg"
  by (simp add: monitor_interval_def Let_def Second_def)

text \<open>
  With a positive threshold the alerts on pending entries are never raised: the metrics report
  zero for both, whatever the state of the queue.
\<close>

lemma pending_alerts_silent:
  assumes "0 < qcAlertBookingPending cfg" "0 < qcAlertPurchasePending cfg"
  shows "tAlertBookingPend (checkOnce cfg env bg pg q t) = tAlertBookingPend t"
    "tAlertPurchasePend (checkOnce cfg env bg pg q t) = tAlertPurchasePend t"
  using assms by (auto simp: checkOnce_def GetMetrics_def alerts_def UpdateQueueMetrics_def
      IncQueueMonitorError_def IncQueueAlert_def split: sum.splits)

text \<open>A check raises the booking lag alert exactly when the depth counter is at its threshold.\<close>

lemma booking_lag_alert:
  assumes "qEnabled env" "qRedis env" "\<forall>k. qFault env k = None"
  shows "tAlertBookingQueue (checkOnce cfg env bg pg q t) = tAlertBookingQueue t +
    (if qcAlertBookingQueueLength cfg \<le> qCounter q bookingDepthKey then 1 else 0)"
  using assms by (auto simp: checkOnce_def GetMetrics_def alerts_def UpdateQueueMetrics_def
      IncQueueAlert_def readCounter_def)

end
