(* ===== verification/Event_Stream.thy ===== *)
theory Event_Stream
  imports Command_Queue
begin

text \<open>
  Domain events: internal/services/kafka_event_publisher.go and internal/kafka (client.go,
  topics.go, producer.go, consumer.go) on the way out, internal/services/
  booking_event_consumer.go on the way in. A message of a partition carries its raw value
  and what \<open>json.Unmarshal\<close> makes of it; JSON is the identity on events that were marshalled.
\<close>

section \<open>client.go, topics.go\<close>

record Client =
  clSASL :: "(string \<times> string) option"
  clTLS :: bool

definition NewClient :: "KafkaConfig \<Rightarrow> Client res" where
  "NewClient cfg =
     ebind (ValidateSecurity cfg) (\<lambda>_.
       let protocol = KafkaSecurityProtocol cfg in
       Inr \<lparr>clSASL = (if HasPrefix protocol ''SASL_'' then Some (kSASLUsername cfg, kSASLPassword cfg)
                      else None),
            clTLS = (protocol = ''SSL'' \<or> protocol = ''SASL_SSL'')\<rparr>)"

datatype RequiredAcks = RequireNone | RequireOne | RequireAll

definition kafkaRequiredAcks :: "string \<Rightarrow> RequiredAcks" where
  "kafkaRequiredAcks value =
     (let v = ToLower value in
      if v = ''all'' then RequireAll else if v = ''none'' then RequireNone else RequireOne)"

record TopicConfig =
  tcTopic :: string
  tcNumPartitions :: int
  tcReplicationFactor :: int

fun missing_topics :: "int \<Rightarrow> int \<Rightarrow> string set \<Rightarrow> string list \<Rightarrow> string list \<Rightarrow> TopicConfig list" where
  "missing_topics parts repl existing seen [] = []"
| "missing_topics parts repl existing seen (name # names) =
     (if name = '''' \<or> name \<in> set seen then missing_topics parts repl existing seen names
      else if name \<in> existing then missing_topics parts repl existing (name # seen) names
      else \<lparr>tcTopic = name, tcNumPartitions = parts, tcReplicationFactor = repl\<rparr> #
        missing_topics parts repl existing (name # seen) names)"

definition topic_names :: "KafkaConfig \<Rightarrow> string list" where
  "topic_names k = [kBookingEventsTopic k, kBookingEventsDLQTopic k, kBookingCommandsTopic k,
     kPurchaseCommandsTopic k, kBookingDLQTopic k, kPurchaseDLQTopic k]"

definition missingTopicConfigs :: "KafkaConfig \<Rightarrow> string set \<Rightarrow> TopicConfig list" where
  "missingTopicConfigs k existingTopics =
     missing_topics (if kTopicPartitions k \<le> 0 then 6 else kTopicPartitions k)
       (if kTopicReplicationFactor k \<le> 0 then 1 else kTopicReplicationFactor k)
       existingTopics [] (topic_names k)"

text \<open>
  What the broker does: whether it can be dialled, the topics of its partitions, whether the
  creation succeeds. The result is the error and the topics there are afterwards.
\<close>

record broker =
  bkDial :: "err option"
  bkRead :: "string list res"
  bkCreate :: "err option"

definition EnsureTopics :: "KafkaConfig option \<Rightarrow> broker \<Rightarrow> unit res \<times> string set" where
  "EnsureTopics cfg bk =
     (case cfg of None \<Rightarrow> (Inr (), {})
      | Some k \<Rightarrow>
          if kBrokers k = [] then (Inr (), {}) else
          case NewClient k of Inl e \<Rightarrow> (Inl e, {})
          | Inr _ \<Rightarrow>
          (case bkDial bk of
             Some e \<Rightarrow> (Inl (Wrap (''dial kafka broker '' @ hd (kBrokers k)) e), {})
           | None \<Rightarrow> (case bkRead bk of
               Inl e \<Rightarrow> (Inl (Wrap ''read kafka topics'' e), {})
             | Inr parts \<Rightarrow>
                 let topics = set parts; missing = missingTopicConfigs k topics in
                 if length missing = 0 then (Inr (), topics)
                 else (case bkCreate bk of
                     Some e \<Rightarrow> (Inl (Wrap ''create kafka topics'' e), topics)
                   | None \<Rightarrow> (Inr (), topics \<union> set (map tcTopic missing))))))"

section \<open>Publishing\<close>

record BookingEvent =
  bvEventType :: string
  bvBookingID :: string
  bvUserID :: string
  bvEventID :: string
  bvSeatID :: string
  bvStatus :: BookingStatus
  bvTotalAmount :: int
  bvOccurredAt :: time
  bvMetadata :: "(string \<times> string) list"

record kafka_message =
  kmKey :: string
  kmValue :: BookingEvent
  kmTime :: time
  kmHeaders :: "(string \<times> string) list"

record Producer =
  pdEnabled :: bool
  pdAcks :: RequiredAcks
  pdAsync :: bool
  pdTopic :: string

definition disabled_producer :: Producer where
  "disabled_producer = \<lparr>pdEnabled = False, pdAcks = RequireOne, pdAsync = False, pdTopic = ''''\<rparr>"

definition NewProducer :: "KafkaConfig option \<Rightarrow> Producer res" where
  "NewProducer cfg =
     (case cfg of None \<Rightarrow> Inr disabled_producer
      | Some k \<Rightarrow>
          if kBrokers k = [] then Inr disabled_producer
          else ebind (NewClient k) (\<lambda>_. Inr \<lparr>pdEnabled = True,
            pdAcks = kafkaRequiredAcks (kRequiredAcks k), pdAsync = kAsync k, pdTopic = kBookingEventsTopic k\<rparr>))"

text \<open>
  \<open>writer.WriteMessages\<close> appends to the topic; \<open>f\<close> says how the write fares. An asynchronous
  writer reports no error.
\<close>

definition publish_event ::
  "Producer \<Rightarrow> redis_fault \<Rightarrow> BookingEvent option \<Rightarrow> kafka_message list \<Rightarrow> unit res \<times> kafka_message list" where
  "publish_event p f event topic =
     (if \<not> pdEnabled p then (Inr (), topic)
      else case event of None \<Rightarrow> (Inl (Foreign ''booking event is nil''), topic)
      | Some ev \<Rightarrow>
          (case redis_call f (\<lambda>t. ((), t @ [\<lparr>kmKey = bvEventID ev, kmValue = ev, kmTime = bvOccurredAt ev,
               kmHeaders = [(''event_type'', bvEventType ev), (''topic'', pdTopic p)]\<rparr>])) topic of
             (Inl e, t) \<Rightarrow> (if pdAsync p then Inr () else Inl (Wrap ''write kafka message'' e), t)
           | (Inr _, t) \<Rightarrow> (Inr (), t)))"

definition event_of_booking ::
  "lib \<Rightarrow> time \<Rightarrow> string \<Rightarrow> Booking \<Rightarrow> (string \<times> string) list \<Rightarrow> BookingEvent" where
  "event_of_booking L now eventType booking metadata = \<lparr>bvEventType = eventType,
     bvBookingID = uuid_String L (bID booking), bvUserID = uuid_String L (bUserID booking),
     bvEventID = uuid_String L (bEventID booking), bvSeatID = uuid_String L (bSeatID booking),
     bvStatus = bStatus booking, bvTotalAmount = bTotalAmount booking,
     bvOccurredAt = (if bUpdatedAt booking = zero_time then now else bUpdatedAt booking),
     bvMetadata = metadata\<rparr>"

text \<open>\<open>KafkaEventPublisher.PublishBookingEvent\<close>; \<open>None\<close> is a nil publisher or producer.\<close>

definition PublishBookingEvent ::
  "Producer option \<Rightarrow> redis_fault \<Rightarrow> lib \<Rightarrow> time \<Rightarrow> string \<Rightarrow> Booking option \<Rightarrow> (string \<times> string) list \<Rightarrow>
   kafka_message list \<Rightarrow> unit res \<times> kafka_message list" where
  "PublishBookingEvent p f L now eventType booking metadata topic =
     (case (p, booking) of
        (Some p, Some b) \<Rightarrow>
          if \<not> pdEnabled p then (Inr (), topic)
          else publish_event p f (Some (event_of_booking L now eventType b metadata)) topic
      | _ \<Rightarrow> (Inr (), topic))"

section \<open>Consuming\<close>

text \<open>\<open>%q\<close> of fmt, on ASCII text.\<close>

definition quote_char :: "char \<Rightarrow> string" where
  "quote_char c = (if c = CHR 0x22 \<or> c = CHR 0x5C then [CHR 0x5C, c] else [c])"

definition quoted :: "string \<Rightarrow> string" where
  "quoted s = CHR 0x22 # concat (map quote_char s) @ [CHR 0x22]"

definition seatStatusForBookingEvent :: "string \<Rightarrow> string option" where
  "seatStatusForBookingEvent eventType =
     (if eventType = ''booking.reserved'' then Some ''reserved''
      else if eventType = ''booking.purchased'' then Some ''sold''
      else if eventType = ''booking.cancelled'' \<or> eventType = ''booking.expired'' then Some ''available''
      else None)"

text \<open>
  What handling a message does elsewhere. \<open>csParse\<close> is \<open>uuid.Parse\<close> with its error;
  \<open>csCache\<close> and \<open>csHub\<close> say whether the invalidator and the hub are set.
\<close>

datatype stream_effect = CacheDropped uuid | SeatUpdate uuid uuid string

record consumer_env =
  csParse :: "string \<Rightarrow> uuid res"
  csCache :: bool
  csHub :: bool
  csTopic :: string
  csDLQTopic :: string
  csPartition :: int

definition handle :: "consumer_env \<Rightarrow> BookingEvent option \<Rightarrow> unit res \<times> stream_effect list" where
  "handle env event =
     (case event of None \<Rightarrow> (Inl (Foreign ''booking event is nil''), [])
      | Some ev \<Rightarrow>
     (case csParse env (bvEventID ev) of
        Inl e \<Rightarrow> (Inl (Wrap (''invalid event_id '' @ quoted (bvEventID ev)) e), [])
      | Inr eventID \<Rightarrow>
     (case csParse env (bvSeatID ev) of
        Inl e \<Rightarrow> (Inl (Wrap (''invalid seat_id '' @ quoted (bvSeatID ev)) e), [])
      | Inr seatID \<Rightarrow>
          let dropped = (if csCache env then [CacheDropped eventID] else []) in
          if \<not> csHub env then (Inr (), dropped)
          else case seatStatusForBookingEvent (bvEventType ev) of
              None \<Rightarrow> (Inl (Foreign (''unsupported booking event type '' @ quoted (bvEventType ev))), dropped)
            | Some status \<Rightarrow> (Inr (), dropped @ [SeatUpdate eventID seatID status]))))"

text \<open>A message of the partition, a message of the dead-letter topic, the consumer's state.\<close>

record stored =
  stRaw :: string
  stDecoded :: "BookingEvent res"

record dead_letter =
  dlKey :: string
  dlValue :: string
  dlHeaders :: "(string \<times> string) list"

record consumer =
  cuPosition :: nat
  cuCommitted :: nat
  cuDLQ :: "dead_letter list"
  cuTrace :: "stream_effect list"

definition fresh_consumer :: consumer where
  "fresh_consumer = \<lparr>cuPosition = 0, cuCommitted = 0, cuDLQ = [], cuTrace = []\<rparr>"

record ConsumedBookingEvent =
  ceEvent :: "BookingEvent option"
  ceRawValue :: string
  ceOffset :: nat

datatype fetch = FetchNext | FetchEOF | FetchFailed err | FetchCanceled

text \<open>
  \<open>Fetch\<close>: the message with its error, if any; after the end of the reader a new one starts
  at the committed offset. A fetch at the end of the partition waits; it is not a step.
\<close>

definition Fetch ::
  "stored list \<Rightarrow> fetch \<Rightarrow> consumer \<Rightarrow> (ConsumedBookingEvent option \<times> err option) \<times> consumer" where
  "Fetch msgs r s =
     (case r of
        FetchCanceled \<Rightarrow> ((None, Some (Foreign ''context canceled'')), s)
      | FetchFailed e \<Rightarrow> ((None, Some (Wrap ''fetch booking event'' e)), s)
      | FetchEOF \<Rightarrow> ((None, None), s\<lparr>cuPosition := cuCommitted s\<rparr>)
      | FetchNext \<Rightarrow>
          if length msgs \<le> cuPosition s then ((None, None), s) else
          let m = msgs ! cuPosition s; s' = s\<lparr>cuPosition := Suc (cuPosition s)\<rparr> in
          (case stDecoded m of
             Inl e \<Rightarrow> ((Some \<lparr>ceEvent = None, ceRawValue = stRaw m, ceOffset = cuPosition s\<rparr>,
                        Some (Wrap ''unmarshal booking event'' e)), s')
           | Inr ev \<Rightarrow> ((Some \<lparr>ceEvent = Some ev, ceRawValue = stRaw m, ceOffset = cuPosition s\<rparr>, None), s')))"

definition Ack :: "redis_fault \<Rightarrow> ConsumedBookingEvent \<Rightarrow> consumer \<Rightarrow> unit res \<times> consumer" where
  "Ack f c = redis_call f (\<lambda>s. ((), s\<lparr>cuCommitted := Suc (ceOffset c)\<rparr>))"

definition dead_letter_of :: "consumer_env \<Rightarrow> ConsumedBookingEvent \<Rightarrow> string \<Rightarrow> dead_letter" where
  "dead_letter_of env c reason = \<lparr>
     dlKey = (case ceEvent c of
         Some ev \<Rightarrow> if bvEventID ev \<noteq> '''' then bvEventID ev
           else Itoa (csPartition env) @ '':'' @ Itoa (int (ceOffset c))
       | None \<Rightarrow> Itoa (csPartition env) @ '':'' @ Itoa (int (ceOffset c))),
     dlValue = ceRawValue c,
     dlHeaders = [(''source_topic'', csTopic env), (''dlq_topic'', csDLQTopic env), (''reason'', reason)] @
       (case ceEvent c of None \<Rightarrow> [] | Some ev \<Rightarrow> [(''event_type'', bvEventType ev)])\<rparr>"

definition DeadLetter ::
  "consumer_env \<Rightarrow> redis_fault \<Rightarrow> ConsumedBookingEvent \<Rightarrow> string \<Rightarrow> consumer \<Rightarrow> unit res \<times> consumer" where
  "DeadLetter env f c reason s =
     (case redis_call f (\<lambda>s. ((), s\<lparr>cuDLQ := cuDLQ s @ [dead_letter_of env c reason]\<rparr>)) s of
        (Inl e, s') \<Rightarrow> (Inl (Wrap ''write booking event dlq'' e), s')
      | (Inr _, s') \<Rightarrow> (Inr (), s'))"

definition deadLetterThenAck ::
  "consumer_env \<Rightarrow> redis_fault \<Rightarrow> redis_fault \<Rightarrow> ConsumedBookingEvent \<Rightarrow> string \<Rightarrow> consumer \<Rightarrow> consumer" where
  "deadLetterThenAck env fd fa c reason s =
     (case DeadLetter env fd c reason s of
        (Inl _, s') \<Rightarrow> s'
      | (Inr _, s') \<Rightarrow> snd (Ack fa c s'))"

text \<open>One turn of the loop of \<open>Run\<close>: how the fetch, the dead letter and the commit fare.\<close>

record turn =
  tuFetch :: fetch
  tuDLQ :: redis_fault
  tuAck :: redis_fault

definition consumer_turn :: "consumer_env \<Rightarrow> stored list \<Rightarrow> turn \<Rightarrow> consumer \<Rightarrow> consumer" where
  "consumer_turn env msgs t s =
     (case Fetch msgs (tuFetch t) s of
        ((Some c, Some err), s1) \<Rightarrow> deadLetterThenAck env (tuDLQ t) (tuAck t) c (err_Error err) s1
      | ((Some c, None), s1) \<Rightarrow>
          (case handle env (ceEvent c) of
             (Inl err, es) \<Rightarrow> deadLetterThenAck env (tuDLQ t) (tuAck t) c (err_Error err)
               (s1\<lparr>cuTrace := cuTrace s1 @ es\<rparr>)
           | (Inr _, es) \<Rightarrow> snd (Ack (tuAck t) c (s1\<lparr>cuTrace := cuTrace s1 @ es\<rparr>)))
      | ((None, _), s1) \<Rightarrow> s1)"

text \<open>\<open>Run\<close> until the context is cancelled; \<open>started\<close>: the consumer is there and enabled.\<close>

fun run_consumer :: "consumer_env \<Rightarrow> stored list \<Rightarrow> turn list \<Rightarrow> consumer \<Rightarrow> consumer" where
  "run_consumer env msgs [] s = s"
| "run_consumer env msgs (t # ts) s =
     (if tuFetch t = FetchCanceled then s else run_consumer env msgs ts (consumer_turn env msgs t s))"

end
