(* ===== verification/Booking_Service.thy ===== *)
theory Booking_Service
  imports Booking_Specs Expiry_Queue Payment
begin

text \<open>
  internal/services/booking_service.go. A service call is a sequence of repository calls,
  between which other transactions of the program may commit. \<open>senv\<close> holds what one call
  cannot control: those other transactions (before the repository call numbered \<open>k\<close>), the
  environment of each repository call, the clock, Redis faults and Stripe's answers. The
  world is the database, the expiry queue and the trace of what was sent elsewhere.
\<close>

section \<open>World and environment\<close>

datatype svc_effect =
    SeatReadPrimary uuid uuid
  | CacheInvalidated uuid
  | Published string Booking "(string \<times> string) list"
  | StripeCall stripe_call

record world =
  wDB :: db
  wExpiry :: expiry
  wTrace :: "svc_effect list"

text \<open>
  Which optional collaborators are set (\<open>!= nil\<close>): payment service, expiry queue, Redis
  client inside it, cache invalidator, event publisher.
\<close>

record senv =
  sLib :: lib
  sBooking :: BookingConfig
  sStripeConfig :: StripeConfig
  sStripe :: stripe_api
  sPayment :: bool
  sExpiryQueue :: bool
  sRedis :: bool
  sCache :: bool
  sPublisher :: bool
  sNow :: "nat \<Rightarrow> time"
  sOthers :: "nat \<Rightarrow> txop list"
  sTx :: "nat \<Rightarrow> tenv"
  sRedisFault :: "nat \<Rightarrow> redis_fault"

type_synonym 'a svc = "world \<Rightarrow> 'a res \<times> world"

definition sret :: "'a res \<Rightarrow> 'a svc" where
  "sret r w = (r, w)"

text \<open>\<open>x, err := m\<close>, and then what the code does with both.\<close>

definition shandle :: "'a svc \<Rightarrow> ('a res \<Rightarrow> 'b svc) \<Rightarrow> 'b svc" where
  "shandle m k w = (case m w of (r, w') \<Rightarrow> k r w')"

text \<open>\<open>x, err := m; if err != nil { return nil, f(err) }\<close>\<close>

definition sbind :: "'a svc \<Rightarrow> (err \<Rightarrow> err) \<Rightarrow> ('a \<Rightarrow> 'b svc) \<Rightarrow> 'b svc" where
  "sbind m f k = shandle m (\<lambda>r. case r of Inl e \<Rightarrow> sret (Inl (f e)) | Inr x \<Rightarrow> k x)"

definition after :: "(world \<Rightarrow> world) \<Rightarrow> 'a svc \<Rightarrow> 'a svc" where
  "after f m w = m (f w)"

definition trace :: "svc_effect list \<Rightarrow> world \<Rightarrow> world" where
  "trace es = wTrace_update (\<lambda>t. t @ es)"

definition repo :: "senv \<Rightarrow> nat \<Rightarrow> (tenv \<Rightarrow> db \<Rightarrow> 'a res \<times> db) \<Rightarrow> 'a svc" where
  "repo env k f w = (case f (sTx env k) (run exec_tx (sOthers env k) (wDB w)) of
     (r, d') \<Rightarrow> (r, w\<lparr>wDB := d'\<rparr>))"

definition read_only :: "(tenv \<Rightarrow> db \<Rightarrow> 'a res) \<Rightarrow> tenv \<Rightarrow> db \<Rightarrow> 'a res \<times> db" where
  "read_only f t d = (f t d, d)"

section \<open>What follows a change\<close>

text \<open>\<open>database.MarkSeatReadPrimary\<close>: the user's next seat queries go to the primary.\<close>

definition markSeatReadPrimary :: "senv \<Rightarrow> uuid \<Rightarrow> uuid \<Rightarrow> world \<Rightarrow> world" where
  "markSeatReadPrimary env userID eventID =
     (if userID = uuid_Nil \<or> eventID = uuid_Nil then (\<lambda>w. w)
      else trace [SeatReadPrimary userID eventID])"

definition invalidateCache :: "senv \<Rightarrow> uuid \<Rightarrow> world \<Rightarrow> world" where
  "invalidateCache env eventID = (if sCache env then trace [CacheInvalidated eventID] else (\<lambda>w. w))"

definition publishEvent ::
  "senv \<Rightarrow> string \<Rightarrow> Booking \<Rightarrow> (string \<times> string) list \<Rightarrow> world \<Rightarrow> world" where
  "publishEvent env eventType booking metadata =
     (if sPublisher env then trace [Published eventType booking metadata] else (\<lambda>w. w))"

definition source :: "(string \<times> string) list" where
  "source = [(''source'', ''booking_service'')]"

text \<open>The expiry queue's errors are logged and otherwise ignored.\<close>

definition expiryAdd :: "senv \<Rightarrow> nat \<Rightarrow> Booking \<Rightarrow> world \<Rightarrow> world" where
  "expiryAdd env k b w = (if sExpiryQueue env
     then wExpiry_update (\<lambda>q. snd (expiry_Add (sRedis env) (sRedisFault env k)
            (uuid_String (sLib env) (bID b)) (bExpiresAt b) q)) w
     else w)"

definition expiryRemove :: "senv \<Rightarrow> nat \<Rightarrow> uuid \<Rightarrow> world \<Rightarrow> world" where
  "expiryRemove env k bookingID w = (if sExpiryQueue env
     then wExpiry_update (\<lambda>q. snd (expiry_Remove (sRedis env) (sRedisFault env k)
            (uuid_String (sLib env) bookingID) q)) w
     else w)"

section \<open>Reserving\<close>

definition reserve_error :: "err \<Rightarrow> err" where
  "reserve_error err =
     (if errors_Is err RepoErrSeatAlreadyBooked then SvcErrSeatBeingBooked
      else if errors_Is err RepoErrSeatNotAvailable then SvcErrSeatNotAvailable
      else if errors_Is err RepoErrNoAvailableSeats then SvcErrNoAvailableSeats
      else if errors_Is err RepoErrEventNotFound then RepoErrEventNotFound
      else Wrap ''create reservation'' err)"

definition ReserveSeat :: "senv \<Rightarrow> uuid \<Rightarrow> uuid \<Rightarrow> string \<Rightarrow> Booking svc" where
  "ReserveSeat env userID eventID seatNumber =
     (let expiresAt = sNow env 0 + ReservationTimeout (sBooking env) in
      sbind (repo env 0 (\<lambda>t d. CreateReservation t d userID eventID seatNumber expiresAt)) reserve_error
      (\<lambda>booking.
        after (expiryAdd env 0 booking)
       (after (markSeatReadPrimary env userID eventID)
       (after (invalidateCache env eventID)
       (after (publishEvent env ''booking.reserved'' booking source)
         (sret (Inr booking)))))))"

section \<open>Releasing\<close>

text \<open>\<open>ReleaseExpiredBooking\<close>; \<open>k\<close> numbers its repository call in its caller.\<close>

definition ReleaseExpiredBooking :: "senv \<Rightarrow> nat \<Rightarrow> Booking \<Rightarrow> unit svc" where
  "ReleaseExpiredBooking env k booking =
     shandle (repo env k (\<lambda>t d. ReleaseExpiredReservation t d (bID booking))) (\<lambda>r. case r of
       Inl err \<Rightarrow>
         if errors_Is err RepoErrBookingNotReserved then sret (Inr ())
         else sret (Inl (Wrap ''release expired reservation'' err))
     | Inr released \<Rightarrow>
         after (markSeatReadPrimary env (bUserID booking) (bEventID released))
        (after (invalidateCache env (bEventID released))
        (after (publishEvent env ''booking.expired'' released source)
          (sret (Inr ())))))"

definition ReleaseExpiredBookingByID :: "senv \<Rightarrow> uuid \<Rightarrow> unit svc" where
  "ReleaseExpiredBookingByID env bookingID =
     shandle (repo env 0 (read_only (\<lambda>t d. booking_FindByID t (Stmt 1) d bookingID))) (\<lambda>r. case r of
       Inl err \<Rightarrow>
         if errors_Is err RepoErrBookingNotFound then sret (Inr ())
         else sret (Inl (Wrap ''find booking'' err))
     | Inr booking \<Rightarrow>
         if bStatus booking \<noteq> BookingStatusReserved then sret (Inr ())
         else ReleaseExpiredBooking env 1 booking)"

fun release_all :: "senv \<Rightarrow> nat \<Rightarrow> Booking list \<Rightarrow> world \<Rightarrow> world" where
  "release_all env k [] w = w"
| "release_all env k (b # bs) w = release_all env (Suc k) bs (snd (ReleaseExpiredBooking env k b w))"

definition CleanupExpiredReservations :: "senv \<Rightarrow> unit svc" where
  "CleanupExpiredReservations env =
     sbind (repo env 0 (read_only FindExpiredReservations)) (Wrap ''find expired reservations'')
       (\<lambda>expired. after (release_all env 1 expired) (sret (Inr ())))"

section \<open>Cancelling and reading\<close>

definition find_error :: "err \<Rightarrow> err" where
  "find_error err = (if errors_Is err RepoErrBookingNotFound then SvcErrBookingNotFound
     else Wrap ''find booking'' err)"

definition GetBookingByID :: "senv \<Rightarrow> uuid \<Rightarrow> uuid \<Rightarrow> Booking svc" where
  "GetBookingByID env userID bookingID =
     sbind (repo env 0 (read_only (\<lambda>t d. booking_FindByID t (Stmt 1) d bookingID))) find_error
     (\<lambda>booking. if bUserID booking \<noteq> userID then sret (Inl SvcErrUnauthorized)
                 else sret (Inr booking))"

definition GetUserBookings :: "senv \<Rightarrow> db option \<Rightarrow> uuid \<Rightarrow> BookingWithDetails list svc" where
  "GetUserBookings env ReadDB userID =
     sbind (repo env 0 (read_only (\<lambda>t d. booking_FindByUserID t ReadDB d userID)))
       (Wrap ''find user bookings'') (\<lambda>bs. sret (Inr bs))"

definition CancelBooking :: "senv \<Rightarrow> uuid \<Rightarrow> uuid \<Rightarrow> unit svc" where
  "CancelBooking env userID bookingID =
     sbind (repo env 0 (read_only (\<lambda>t d. booking_FindByID t (Stmt 1) d bookingID))) find_error
     (\<lambda>booking.
      if bUserID booking \<noteq> userID then sret (Inl SvcErrUnauthorized)
      else if bStatus booking \<noteq> BookingStatusReserved then sret (Inl SvcErrOnlyReservedCancel)
      else sbind (repo env 1 (\<lambda>t d. CancelReservation t d bookingID))
        (\<lambda>err. if errors_Is err RepoErrBookingNotReserved then SvcErrOnlyReservedCancel
                else Wrap ''cancel reservation'' err)
        (\<lambda>cancelled.
          after (expiryRemove env 0 bookingID)
         (after (markSeatReadPrimary env userID (bEventID cancelled))
         (after (invalidateCache env (bEventID cancelled))
         (after (publishEvent env ''booking.cancelled'' cancelled source)
           (sret (Inr ())))))))"

section \<open>Purchasing\<close>

definition purchaseProcessingExtension :: duration where
  "purchaseProcessingExtension = 2 * Minute"

definition stripe_step :: "'a res \<times> stripe_call list \<Rightarrow> 'a svc" where
  "stripe_step rc w = (fst rc, trace (map StripeCall (snd rc)) w)"

definition intent_ready :: "Booking \<Rightarrow> bool" where
  "intent_ready b \<longleftrightarrow> (case bPaymentIntentID b of None \<Rightarrow> False | Some i \<Rightarrow> TrimSpace i \<noteq> '''')"

definition ensurePaymentIntent :: "senv \<Rightarrow> nat \<Rightarrow> Booking \<Rightarrow> Booking svc" where
  "ensurePaymentIntent env k booking =
     (if \<not> sPayment env then sret (Inr booking)
      else if intent_ready booking then sret (Inr booking)
      else sbind (stripe_step (PreparePaymentIntent (sLib env) (sStripe env) (sStripeConfig env) booking))
        (Wrap ''prepare payment intent'')
        (\<lambda>result. sbind (repo env k (\<lambda>t d. SetPaymentIntentID t d (bID booking) (prPaymentID result)))
          (Wrap ''store payment intent'') (\<lambda>updated. sret (Inr updated))))"

definition processPayment :: "senv \<Rightarrow> Booking \<Rightarrow> unit svc" where
  "processPayment env booking =
     (if \<not> sPayment env then sret (Inr ())
      else if \<not> intent_ready booking then sret (Inl PayErrPaymentIntentMissing)
      else sbind (stripe_step (ProcessPayment (sStripe env) (sStripeConfig env) booking))
        (Wrap ''process payment'') (\<lambda>_. sret (Inr ())))"

definition finishPurchasedBookingPayment :: "senv \<Rightarrow> nat \<Rightarrow> Booking \<Rightarrow> Booking svc" where
  "finishPurchasedBookingPayment env k booking0 =
     sbind (ensurePaymentIntent env k booking0) (\<lambda>err. err) (\<lambda>booking.
     sbind (processPayment env booking) (Wrap ''payment failed'') (\<lambda>_.
       after (markSeatReadPrimary env (bUserID booking) (bEventID booking))
      (after (invalidateCache env (bEventID booking))
      (after (publishEvent env ''booking.purchased'' booking source)
        (sret (Inr booking))))))"

definition revertPurchaseAfterPaymentFailure :: "senv \<Rightarrow> nat \<Rightarrow> uuid \<Rightarrow> unit svc" where
  "revertPurchaseAfterPaymentFailure env k bookingID =
     shandle (repo env k (\<lambda>t d. RevertFailedPurchase t d bookingID)) (\<lambda>r. case r of
       Inl err \<Rightarrow> sret (Inr ())
     | Inr reverted \<Rightarrow>
         after (markSeatReadPrimary env (bUserID reverted) (bEventID reverted))
        (after (invalidateCache env (bEventID reverted))
        (after (publishEvent env ''booking.cancelled'' reverted
                 [(''source'', ''booking_service''), (''reason'', ''payment_failed'')])
          (sret (Inr ())))))"

definition extend_error :: "err \<Rightarrow> err" where
  "extend_error err =
     (if errors_Is err RepoErrBookingExpired then SvcErrBookingExpired
      else if errors_Is err RepoErrBookingNotReserved then SvcErrNotReserved
      else if errors_Is err RepoErrSeatNotAvailable then SvcErrSeatNotAvailable
      else Wrap ''extend reservation for purchase'' err)"

text \<open>The part of \<open>PurchaseBooking\<close> from \<open>CompletePurchase\<close> on.\<close>

definition complete_and_charge :: "senv \<Rightarrow> uuid \<Rightarrow> uuid \<Rightarrow> Booking svc" where
  "complete_and_charge env userID bookingID =
     shandle (repo env 3 (\<lambda>t d. CompletePurchase t d bookingID)) (\<lambda>r. case r of
       Inl err \<Rightarrow>
         if errors_Is err RepoErrBookingExpired then sret (Inl SvcErrBookingExpired)
         else if errors_Is err RepoErrBookingNotReserved then
           shandle (repo env 4 (read_only (\<lambda>t d. booking_FindByID t (Stmt 1) d bookingID)))
             (\<lambda>found. case found of
                Inr updated \<Rightarrow>
                  if bStatus updated = BookingStatusPurchased
                  then finishPurchasedBookingPayment env 5 updated
                  else sret (Inl SvcErrNotReserved)
              | Inl _ \<Rightarrow> sret (Inl SvcErrNotReserved))
         else sret (Inl (Wrap ''complete purchase'' err))
     | Inr booking \<Rightarrow>
         after (expiryRemove env 1 bookingID)
        (shandle (processPayment env booking) (\<lambda>paid. case paid of
           Inl err \<Rightarrow> sbind (revertPurchaseAfterPaymentFailure env 6 bookingID) (\<lambda>e. e)
             (\<lambda>_. sret (Inl (Wrap ''payment failed'' err)))
         | Inr _ \<Rightarrow>
             after (markSeatReadPrimary env userID (bEventID booking))
            (after (invalidateCache env (bEventID booking))
            (after (publishEvent env ''booking.purchased'' booking source)
              (sret (Inr booking)))))))"

definition PurchaseBooking :: "senv \<Rightarrow> uuid \<Rightarrow> uuid \<Rightarrow> Booking svc" where
  "PurchaseBooking env userID bookingID =
     sbind (repo env 0 (read_only (\<lambda>t d. booking_FindByID t (Stmt 1) d bookingID))) find_error
     (\<lambda>booking.
      if bUserID booking \<noteq> userID then sret (Inl SvcErrUnauthorized)
      else if bStatus booking \<noteq> BookingStatusReserved then sret (Inl SvcErrNotReserved)
      else if bExpiresAt booking < sNow env 0 then
        shandle (ReleaseExpiredBooking env 1 booking) (\<lambda>_. sret (Inl SvcErrBookingExpired))
      else
        sbind (repo env 1 (\<lambda>t d. ExtendReservation t d bookingID
                 (sNow env 1 + purchaseProcessingExtension))) extend_error
        (\<lambda>booking.
          after (expiryAdd env 0 booking)
         (sbind (ensurePaymentIntent env 2 booking) (\<lambda>e. e)
         (\<lambda>_. complete_and_charge env userID bookingID))))"

section \<open>Bulk reservations\<close>

definition maxBulkSeats :: nat where "maxBulkSeats = 500"
definition bulkChunkSize :: nat where "bulkChunkSize = 50"

fun chunkSeats :: "string list \<Rightarrow> nat \<Rightarrow> string list list" where
  "chunkSeats nums sz =
     (if nums = [] \<or> sz = 0 then [] else take sz nums # chunkSeats (drop sz nums) sz)"

declare chunkSeats.simps [simp del]

lemma live_length: "sum_list (map length (filter (\<lambda>c. c \<noteq> []) cs)) = sum_list (map length cs)"
  by (induction cs) auto

lemma sum_list_update_less:
  fixes xs :: "'a list list"
  shows "i < length xs \<Longrightarrow> length y < length (xs ! i) \<Longrightarrow>
   sum_list (map length (xs[i := y])) < sum_list (map length xs)"
proof (induction xs arbitrary: i)
  case (Cons x xs)
  then show ?case by (cases i) auto
qed simp

text \<open>
  The chunks are worked off by one goroutine each. They interleave between seats:
  \<open>sched n\<close> chooses which of the chunks that still have seats makes the \<open>n\<close>-th reservation,
  whose environment is \<open>envs n\<close>. A goroutine stops at its first error. The outcomes are
  listed in the order of the reservations.
\<close>

function bulk_workers ::
  "(nat \<Rightarrow> senv) \<Rightarrow> (nat \<Rightarrow> nat) \<Rightarrow> uuid \<Rightarrow> uuid \<Rightarrow> nat \<Rightarrow> string list list \<Rightarrow> world \<Rightarrow>
   Booking res list \<times> world" where
  "bulk_workers envs sched userID eventID n chunks w =
     (let live = filter (\<lambda>c. c \<noteq> []) chunks in
      if live = [] then ([], w) else
      let i = sched n mod length live;
          (r, w1) = ReserveSeat (envs n) userID eventID (hd (live ! i)) w;
          left = live[i := (case r of Inl _ \<Rightarrow> [] | Inr _ \<Rightarrow> tl (live ! i))];
          (rs, w2) = bulk_workers envs sched userID eventID (Suc n) left w1
      in (r # rs, w2))"
  by auto

termination
proof (relation "measure (\<lambda>(envs, sched, u, ev, n, chunks, w). sum_list (map length chunks))")
  fix envs :: "nat \<Rightarrow> senv" and sched :: "nat \<Rightarrow> nat" and u ev :: uuid and n :: nat
    and chunks :: "string list list" and w :: world and live i p r w1 left q a b
  assume live: "live = filter (\<lambda>c. c \<noteq> []) chunks" "live \<noteq> []" and i: "i = sched n mod length live"
    and left: "left = live[i := (case r of Inl _ \<Rightarrow> [] | Inr _ \<Rightarrow> tl (live ! i))]"
  have i': "i < length live" using live(2) i by simp
  then have "live ! i \<noteq> []" using live(1) nth_mem by fastforce
  then have "length (case r of Inl _ \<Rightarrow> [] | Inr _ \<Rightarrow> tl (live ! i)) < length (live ! i)"
    by (auto split: sum.splits)
  from sum_list_update_less [OF i' this] show
    "((envs, sched, u, ev, Suc n, left, w1), envs, sched, u, ev, n, chunks, w)
     \<in> measure (\<lambda>(envs, sched, u, ev, n, chunks, w). sum_list (map length chunks))"
    by (simp add: left live(1) live_length)
qed simp

declare bulk_workers.simps [simp del]

fun bulk_rollback :: "senv \<Rightarrow> nat \<Rightarrow> Booking list \<Rightarrow> world \<Rightarrow> world" where
  "bulk_rollback env k [] w = w"
| "bulk_rollback env k (b # bs) w = bulk_rollback env (Suc k) bs
     (case repo env k (\<lambda>t d. CancelReservation t d (bID b)) w of
        (Inl _, w') \<Rightarrow> w'
      | (Inr cancelled, w') \<Rightarrow>
          expiryRemove env k (bID cancelled) (invalidateCache env (bEventID cancelled) w'))"

fun oks :: "'a res list \<Rightarrow> 'a list" where
  "oks [] = []"
| "oks (Inl e # rs) = oks rs"
| "oks (Inr x # rs) = x # oks rs"

fun first_err :: "'a res list \<Rightarrow> err option" where
  "first_err [] = None"
| "first_err (Inl e # rs) = Some e"
| "first_err (Inr x # rs) = first_err rs"

definition BulkReserve ::
  "(nat \<Rightarrow> senv) \<Rightarrow> (nat \<Rightarrow> nat) \<Rightarrow> senv \<Rightarrow> uuid \<Rightarrow> uuid \<Rightarrow> string list \<Rightarrow> Booking list svc" where
  "BulkReserve envs sched env userID eventID nums w =
     (if length nums = 0 then (Inl SvcErrNoSeatsRequested, w)
      else if length nums > maxBulkSeats then (Inl SvcErrTooManySeats, w)
      else case bulk_workers envs sched userID eventID 0 (chunkSeats nums bulkChunkSize) w of
        (outcomes, w1) \<Rightarrow>
          (case first_err outcomes of
             Some e \<Rightarrow> (Inl (Wrap ''bulk reserve failed'' e), bulk_rollback env 0 (oks outcomes) w1)
           | None \<Rightarrow> (Inr (oks outcomes), w1)))"

end
