(* ===== verification/Service_Calls.thy ===== *)
theory Service_Calls
  imports Booking_Service
begin

text \<open>
  What a call of the booking service can do to the world, as a locale: a relation on worlds
  that allows the database's transactions, changes of the expiry queue and the effects the
  service sends elsewhere allows every call. It is interpreted twice: calls run transactions
  only, and they send effects of known kinds only.
\<close>

section \<open>Calls that stay in a relation\<close>

definition stays :: "(world \<Rightarrow> world \<Rightarrow> bool) \<Rightarrow> 'a svc \<Rightarrow> bool" where
  "stays R m \<longleftrightarrow> (\<forall>w. R w (snd (m w)))"

lemma staysD: "stays R m \<Longrightarrow> m w = (r, w') \<Longrightarrow> R w w'"
  by (metis snd_conv stays_def)

text \<open>The event types \<open>booking_service.go\<close> publishes.\<close>

definition service_types :: "string set" where
  "service_types = {''booking.reserved'', ''booking.purchased'', ''booking.cancelled'', ''booking.expired''}"

fun service_effect :: "svc_effect \<Rightarrow> bool" where
  "service_effect (Published t b md) \<longleftrightarrow> t \<in> service_types"
| "service_effect _ \<longleftrightarrow> True"

locale service_relation =
  fixes R :: "world \<Rightarrow> world \<Rightarrow> bool"
  assumes R_refl: "R w w"
    and R_trans: "R w w1 \<Longrightarrow> R w1 w2 \<Longrightarrow> R w w2"
    and history: "R w (w\<lparr>wDB := run exec_tx ops (wDB w)\<rparr>)"
    and expiry: "R w (wExpiry_update f w)"
    and effect: "service_effect e \<Longrightarrow> R w (trace [e] w)"
begin

lemma stays_sret [intro]: "stays R (sret r)"
  by (simp add: stays_def sret_def R_refl)

lemma stays_shandle [intro]:
  assumes "stays R m" "\<And>r. stays R (k r)" shows "stays R (shandle m k)"
  using assms by (auto simp: stays_def shandle_def split_beta intro: R_trans)

lemma stays_sbind [intro]: "stays R m \<Longrightarrow> (\<And>x. stays R (k x)) \<Longrightarrow> stays R (sbind m f k)"
  unfolding sbind_def by (rule stays_shandle) (auto split: sum.splits)

lemma stays_after [intro]: "(\<And>w. R w (f w)) \<Longrightarrow> stays R m \<Longrightarrow> stays R (after f m)"
  by (auto simp: stays_def after_def intro: R_trans)

lemma stays_cases [intro]:
  "(P \<Longrightarrow> stays R m) \<Longrightarrow> (\<not> P \<Longrightarrow> stays R m') \<Longrightarrow> stays R (if P then m else m')"
  "(\<And>e. stays R (f e)) \<Longrightarrow> (\<And>x. stays R (g x)) \<Longrightarrow>
   stays R (case r of Inl e \<Rightarrow> f e | Inr x \<Rightarrow> g x)"
  by (simp_all split: sum.splits)

lemma stays_repo:
  assumes "\<And>t d. \<exists>ops. snd (f t d) = run exec_tx ops d"
  shows "stays R (repo env k f)"
  unfolding stays_def
proof
  fix w :: world
  obtain ops where "snd (f (sTx env k) (run exec_tx (sOthers env k) (wDB w))) =
      run exec_tx ops (run exec_tx (sOthers env k) (wDB w))" using assms by blast
  then have "snd (repo env k f w) = w\<lparr>wDB := run exec_tx (sOthers env k @ ops) (wDB w)\<rparr>"
    by (simp add: repo_def run_append split_beta)
  then show "R w (snd (repo env k f w))" using history by simp
qed

lemma stays_read [intro]: "stays R (repo env k (read_only f))"
  by (rule stays_repo, rule exI [of _ "[]"]) (simp add: read_only_def)

lemma stays_ops [intro]:
  "stays R (repo env k (\<lambda>t d. CreateReservation t d u ev num until))"
  "stays R (repo env k (\<lambda>t d. CompletePurchase t d bid))"
  "stays R (repo env k (\<lambda>t d. RevertFailedPurchase t d bid))"
  "stays R (repo env k (\<lambda>t d. ExtendReservation t d bid until))"
  "stays R (repo env k (\<lambda>t d. ReleaseExpiredReservation t d bid))"
  "stays R (repo env k (\<lambda>t d. CancelReservation t d bid))"
  "stays R (repo env k (\<lambda>t d. SetPaymentIntentID t d bid i))"
proof -
  have 1: "\<exists>ops. d' = run exec_tx ops d" if "exec_tx op d = d'" for op d d'
    by (rule exI [of _ "[op]"]) (simp add: that)
  show "stays R (repo env k (\<lambda>t d. CreateReservation t d u ev num until))"
    "stays R (repo env k (\<lambda>t d. CompletePurchase t d bid))"
    "stays R (repo env k (\<lambda>t d. RevertFailedPurchase t d bid))"
    "stays R (repo env k (\<lambda>t d. ExtendReservation t d bid until))"
    "stays R (repo env k (\<lambda>t d. ReleaseExpiredReservation t d bid))"
    "stays R (repo env k (\<lambda>t d. CancelReservation t d bid))"
    "stays R (repo env k (\<lambda>t d. SetPaymentIntentID t d bid i))"
    by (rule stays_repo, rule 1, rule exec_tx.simps)+
qed

lemma effects: "list_all service_effect es \<Longrightarrow> R w (trace es w)"
proof (induction es arbitrary: w)
  case Nil
  have "trace [] w = w" by (simp add: trace_def)
  then show ?case by (simp add: R_refl)
next
  case (Cons e es)
  have "trace (e # es) w = trace es (trace [e] w)" by (simp add: trace_def)
  moreover have "R w (trace [e] w)" using Cons.prems by (intro effect) simp
  moreover have "R (trace [e] w) (trace es (trace [e] w))" using Cons by simp
  ultimately show ?case using R_trans by simp
qed

lemma frames:
  "R w (markSeatReadPrimary env u ev w)" "R w (invalidateCache env ev w)"
  "t \<in> service_types \<Longrightarrow> R w (publishEvent env t b md w)"
  "R w (expiryAdd env k b w)" "R w (expiryRemove env k bid w)" "R w (snd (stripe_step rc w))"
  by (auto simp: markSeatReadPrimary_def invalidateCache_def publishEvent_def expiryAdd_def expiryRemove_def
      stripe_step_def R_refl expiry list_all_iff intro!: effects)

lemma stays_frames [intro]:
  "stays R m \<Longrightarrow> stays R (after (markSeatReadPrimary env u ev) m)"
  "stays R m \<Longrightarrow> stays R (after (invalidateCache env ev) m)"
  "t \<in> service_types \<Longrightarrow> stays R m \<Longrightarrow> stays R (after (publishEvent env t b md) m)"
  "stays R m \<Longrightarrow> stays R (after (expiryAdd env k b) m)"
  "stays R m \<Longrightarrow> stays R (after (expiryRemove env k bid) m)"
  "stays R (stripe_step rc)"
  by (auto simp: stays_def after_def intro: R_trans frames)

lemmas stays_intros = stays_shandle stays_sbind stays_ops stays_frames stays_sret stays_cases stays_read

section \<open>The calls\<close>

lemma types [simp]: "''booking.reserved'' \<in> service_types" "''booking.purchased'' \<in> service_types"
  "''booking.cancelled'' \<in> service_types" "''booking.expired'' \<in> service_types"
  by (simp_all add: service_types_def)

lemma ReserveSeat: "stays R (ReserveSeat env u ev num)"
  unfolding ReserveSeat_def Let_def by (intro stays_intros types)

lemma ReleaseExpiredBooking: "stays R (ReleaseExpiredBooking env k b)"
  unfolding ReleaseExpiredBooking_def by (intro stays_intros types)

lemma ensurePaymentIntent: "stays R (ensurePaymentIntent env k b)"
  unfolding ensurePaymentIntent_def by (intro stays_intros)

lemma processPayment: "stays R (processPayment env b)"
  unfolding processPayment_def by (intro stays_intros)

lemma complete_and_charge: "stays R (complete_and_charge env u bid)"
  unfolding complete_and_charge_def finishPurchasedBookingPayment_def revertPurchaseAfterPaymentFailure_def
  by (intro stays_intros types ensurePaymentIntent processPayment)

lemma PurchaseBooking: "stays R (PurchaseBooking env u bid)"
  unfolding PurchaseBooking_def
  by (intro stays_intros ensurePaymentIntent complete_and_charge ReleaseExpiredBooking)

lemma CancelBooking: "stays R (CancelBooking env u bid)"
  unfolding CancelBooking_def by (intro stays_intros types)

lemma ReleaseExpiredBookingByID: "stays R (ReleaseExpiredBookingByID env bid)"
  unfolding ReleaseExpiredBookingByID_def by (intro stays_intros ReleaseExpiredBooking)

lemma release_all: "R w (release_all env k bs w)"
proof (induction bs arbitrary: k w)
  case (Cons b bs)
  have "R w (snd (ReleaseExpiredBooking env k b w))" using ReleaseExpiredBooking by (simp add: stays_def)
  with Cons [of "snd (ReleaseExpiredBooking env k b w)" "Suc k"] show ?case by (auto intro: R_trans)
qed (simp add: R_refl)

lemma CleanupExpiredReservations: "stays R (CleanupExpiredReservations env)"
  unfolding CleanupExpiredReservations_def by (intro stays_intros stays_after release_all)

lemma bulk_workers: "R w (snd (bulk_workers envs sched u ev n chunks w))"
proof (induction envs sched u ev n chunks w rule: bulk_workers.induct)
  case (1 envs sched u ev n chunks w)
  let ?live = "filter (\<lambda>c. c \<noteq> []) chunks"
  show ?case
  proof (cases "?live = []")
    case True
    then show ?thesis by (subst bulk_workers.simps) (simp add: Let_def R_refl)
  next
    case False
    let ?i = "sched n mod length ?live"
    obtain r w1 where r: "ReserveSeat (envs n) u ev (hd (?live ! ?i)) w = (r, w1)"
      by (cases "ReserveSeat (envs n) u ev (hd (?live ! ?i)) w")
    let ?left = "?live[?i := (case r of Inl _ \<Rightarrow> [] | Inr _ \<Rightarrow> tl (?live ! ?i))]"
    have "R w w1" using staysD [OF ReserveSeat r] .
    moreover have "R w1 (snd (bulk_workers envs sched u ev (Suc n) ?left w1))"
      by (rule "1.IH" [OF refl False refl r [symmetric] refl refl])
    ultimately show ?thesis
      using False r R_trans by (subst bulk_workers.simps) (simp add: Let_def split_beta)
  qed
qed

lemma bulk_rollback: "R w (bulk_rollback env k bs w)"
proof (induction bs arbitrary: k w)
  case (Cons b bs)
  obtain r w1 where r: "repo env k (\<lambda>t d. CancelReservation t d (bID b)) w = (r, w1)" by fastforce
  let ?w = "case (r, w1) of (Inl _, w') \<Rightarrow> w'
      | (Inr c, w') \<Rightarrow> expiryRemove env k (bID c) (invalidateCache env (bEventID c) w')"
  have "R w w1" using staysD [OF stays_ops(6) r] .
  moreover have "R w1 ?w" using frames(2,5) R_refl R_trans by (cases r) (simp, fastforce)
  moreover have "R ?w (bulk_rollback env (Suc k) bs ?w)" by (rule Cons)
  ultimately show ?case unfolding bulk_rollback.simps r using R_trans by blast
qed (simp add: R_refl)

lemma BulkReserve: "stays R (BulkReserve envs sched env u ev nums)"
  unfolding stays_def
proof
  fix w
  let ?b = "bulk_workers envs sched u ev 0 (chunkSeats nums bulkChunkSize) w"
  have "R w (snd ?b)" by (rule bulk_workers)
  moreover have "R (snd ?b) (bulk_rollback env 0 (oks (fst ?b)) (snd ?b))" by (rule bulk_rollback)
  ultimately have "R w (bulk_rollback env 0 (oks (fst ?b)) (snd ?b))" by (rule R_trans)
  with \<open>R w (snd ?b)\<close> show "R w (snd (BulkReserve envs sched env u ev nums w))"
    by (auto simp: BulkReserve_def R_refl split: prod.splits option.splits)
qed

end

section \<open>Transactions only\<close>

definition transacts :: "'a svc \<Rightarrow> bool" where
  "transacts m \<longleftrightarrow> (\<forall>w. \<exists>ops. wDB (snd (m w)) = run exec_tx ops (wDB w))"

definition transacted :: "world \<Rightarrow> world \<Rightarrow> bool" where
  "transacted w w' \<longleftrightarrow> (\<exists>ops. wDB w' = run exec_tx ops (wDB w))"

lemma transacts_stays: "transacts m = stays transacted m"
  by (simp add: transacts_def stays_def transacted_def)

interpretation transacting: service_relation transacted
proof
  fix w w1 w2 :: world
  show "transacted w w" unfolding transacted_def by (rule exI [of _ "[]"]) simp
  show "transacted w w1 \<Longrightarrow> transacted w1 w2 \<Longrightarrow> transacted w w2"
    unfolding transacted_def by (metis run_append)
qed (auto simp: transacted_def trace_def intro: exI [of _ "[]"])

section \<open>Known effects only\<close>

definition emits :: "world \<Rightarrow> world \<Rightarrow> bool" where
  "emits w w' \<longleftrightarrow> (\<exists>es. wTrace w' = wTrace w @ es \<and> list_all service_effect es)"

interpretation emitting: service_relation emits
proof
  fix w w1 w2 :: world
  show "emits w w1 \<Longrightarrow> emits w1 w2 \<Longrightarrow> emits w w2"
    unfolding emits_def by (metis append.assoc list_all_append)
qed (auto simp: emits_def trace_def)

section \<open>Calls one after the other\<close>

text \<open>The calls of the service, from handlers and workers, each with its environment.\<close>

datatype call =
    CallReserve senv uuid uuid string
  | CallPurchase senv uuid uuid
  | CallCancel senv uuid uuid
  | CallBulkReserve "nat \<Rightarrow> senv" "nat \<Rightarrow> nat" senv uuid uuid "string list"
  | CallRelease senv uuid
  | CallCleanup senv

fun exec_call :: "call \<Rightarrow> world \<Rightarrow> world" where
  "exec_call (CallReserve env u ev num) w = snd (ReserveSeat env u ev num w)"
| "exec_call (CallPurchase env u bid) w = snd (PurchaseBooking env u bid w)"
| "exec_call (CallCancel env u bid) w = snd (CancelBooking env u bid w)"
| "exec_call (CallBulkReserve envs sched env u ev nums) w = snd (BulkReserve envs sched env u ev nums w)"
| "exec_call (CallRelease env bid) w = snd (ReleaseExpiredBookingByID env bid w)"
| "exec_call (CallCleanup env) w = snd (CleanupExpiredReservations env w)"

context service_relation
begin

lemma call: "R w (exec_call c w)"
  using ReserveSeat PurchaseBooking CancelBooking BulkReserve ReleaseExpiredBookingByID
    CleanupExpiredReservations by (cases c) (simp_all add: stays_def)

lemma calls: "R w (run exec_call cs w)"
proof (induction cs arbitrary: w)
  case (Cons c cs)
  then show ?case using call [of w c] R_trans by simp
qed (simp add: R_refl)

end

lemma published_types:
  assumes "wTrace w = []" "Published t b md \<in> set (wTrace (run exec_call cs w))"
  shows "t \<in> service_types"
proof -
  have "list_all service_effect (wTrace (run exec_call cs w))"
    using emitting.calls [of w cs] assms(1) by (auto simp: emits_def)
  with assms(2) show ?thesis by (auto simp: list_all_iff)
qed

end
