(* ===== verification/Service_Theorems.thy ===== *)
theory Service_Theorems
  imports Service_Calls "HOL-Library.Multiset"
begin

text \<open>
  The properties of the booking service: its calls are sequences of transactions, so that
  everything proved of histories holds of it; what a successful reservation or purchase
  means; who may do what; how a failed payment and a failed bulk reservation are undone.
\<close>

section \<open>Service calls are sequences of transactions\<close>

lemma frame_steps [simp]:
  "wDB (markSeatReadPrimary env u ev w) = wDB w" "wDB (invalidateCache env ev w) = wDB w"
  "wDB (publishEvent env t b md w) = wDB w" "wDB (expiryAdd env k b w) = wDB w"
  "wDB (expiryRemove env k bid w) = wDB w" "wDB (trace es w) = wDB w"
  "wDB (snd (stripe_step rc w)) = wDB w"
  by (simp_all add: markSeatReadPrimary_def invalidateCache_def publishEvent_def expiryAdd_def
      expiryRemove_def trace_def stripe_step_def)

lemma transacts_calls:
  "transacts (ReserveSeat env u ev num)" "transacts (ensurePaymentIntent env k b)"
  "transacts (complete_and_charge env u bid)" "transacts (ReleaseExpiredBookingByID env bid)"
  "transacts (repo env k (\<lambda>t d. ExtendReservation t d bid until))"
  unfolding transacts_stays by (rule transacting.ReserveSeat transacting.ensurePaymentIntent
      transacting.complete_and_charge transacting.ReleaseExpiredBookingByID transacting.stays_ops)+

lemmas transacted_worlds = transacting.release_all [unfolded transacted_def]
  transacting.bulk_workers [unfolded transacted_def]

text \<open>
  C22. Every call of the booking service changes the database by a sequence of the
  program's transactions (its own and those that commit meanwhile), whatever fails: all the
  theorems about histories hold of the service.
\<close>

theorem service_calls_transact:
  "transacts (ReserveSeat env u ev num) \<and> transacts (PurchaseBooking env u bid) \<and>
   transacts (CancelBooking env u bid) \<and> transacts (ReleaseExpiredBookingByID env bid) \<and>
   transacts (CleanupExpiredReservations env) \<and> transacts (BulkReserve envs sched env u ev nums)"
  unfolding transacts_stays
  by (intro conjI transacting.ReserveSeat transacting.PurchaseBooking transacting.CancelBooking
      transacting.ReleaseExpiredBookingByID transacting.CleanupExpiredReservations transacting.BulkReserve)

section \<open>Reserving a seat\<close>

lemma svc_inv: "transacts m \<Longrightarrow> db_inv (wDB w) \<Longrightarrow> db_inv (wDB (snd (m w)))"
  unfolding transacts_def using db_run.run_inv by metis

lemma sbind_Inr:
  "sbind m f k w = (Inr y, w') \<Longrightarrow> \<exists>x w1. m w = (Inr x, w1) \<and> k x w1 = (Inr y, w')"
  by (auto simp: sbind_def shandle_def sret_def split: prod.splits sum.splits)

lemma repo_Inr:
  "repo env k f w = (Inr x, w') \<Longrightarrow>
   f (sTx env k) (run exec_tx (sOthers env k) (wDB w)) = (Inr x, wDB w') \<and>
   w' = w\<lparr>wDB := wDB w'\<rparr>"
  by (auto simp: repo_def split: prod.splits)

definition published :: "senv \<Rightarrow> uuid \<Rightarrow> string \<Rightarrow> Booking \<Rightarrow> (string \<times> string) list \<Rightarrow> svc_effect list" where
  "published env u t b md =
     (if u = uuid_Nil \<or> bEventID b = uuid_Nil then [] else [SeatReadPrimary u (bEventID b)]) @
     (if sCache env then [CacheInvalidated (bEventID b)] else []) @
     (if sPublisher env then [Published t b md] else [])"

lemma effects_world:
  "wTrace (publishEvent env t b md (invalidateCache env (bEventID b)
     (markSeatReadPrimary env u (bEventID b) w))) = wTrace w @ published env u t b md"
  "wExpiry (publishEvent env t b md (invalidateCache env ev (markSeatReadPrimary env u ev w))) = wExpiry w"
  "wTrace (expiryAdd env k b w) = wTrace w" "wTrace (expiryRemove env k bid w) = wTrace w"
  by (simp_all add: publishEvent_def invalidateCache_def markSeatReadPrimary_def trace_def
      published_def expiryAdd_def expiryRemove_def)

lemma seat_in_update:
  assumes "s \<in> set t" "p s"
  shows "f s \<in> set (sql_update p f t)"
  using assms by (force simp: set_sql_update)

lemma ReserveSeat_Inr:
  assumes inv: "db_inv (wDB w)" and r: "ReserveSeat env u ev num w = (Inr b, w')"
  obtains e s where "e \<in> set (events (run exec_tx (sOthers env 0) (wDB w)))"
    "s \<in> set (seats (run exec_tx (sOthers env 0) (wDB w)))" "sEventID s = ev" "sSeatNumber s = num"
    "bID b \<notin> bID ` set (bookings (run exec_tx (sOthers env 0) (wDB w)))"
    "b = new_booking (sTx env 0) u ev (sID s) (eTicketPrice e)
       (sNow env 0 + ReservationTimeout (sBooking env))"
    "wDB w' = reserve_db (tx_time (sTx env 0)) b (run exec_tx (sOthers env 0) (wDB w))"
    "wTrace w' = wTrace w @ published env u ''booking.reserved'' b source"
    "wExpiry w' = wExpiry (expiryAdd env 0 b w)"
proof -
  let ?until = "sNow env 0 + ReservationTimeout (sBooking env)"
  let ?d = "run exec_tx (sOthers env 0) (wDB w)"
  have inv': "db_inv ?d" by (rule db_run.run_inv [OF inv])
  from sbind_Inr [OF r [unfolded ReserveSeat_def Let_def]] obtain b' w1 where
    1: "repo env 0 (\<lambda>t d. CreateReservation t d u ev num ?until) w = (Inr b', w1)" and
    2: "after (expiryAdd env 0 b') (after (markSeatReadPrimary env u ev) (after (invalidateCache env ev)
      (after (publishEvent env ''booking.reserved'' b' source) (sret (Inr b'))))) w1 = (Inr b, w')"
    by blast
  from repo_Inr [OF 1] have c: "CreateReservation (sTx env 0) ?d u ev num ?until = (Inr b', wDB w1)"
    and w1: "w1 = w\<lparr>wDB := wDB w1\<rparr>" by auto
  from run_tx_Inr [OF c [unfolded CreateReservation_def]]
  have body: "createReservationTx (sTx env 0) u ev num ?until ?d = Inr (b', wDB w1)" by simp
  have tr: "wTrace w1 = wTrace w" "wExpiry w1 = wExpiry w" by (subst w1, simp)+
  have bw: "b = b'" and w': "w' = publishEvent env ''booking.reserved'' b' source (invalidateCache env ev
      (markSeatReadPrimary env u ev (expiryAdd env 0 b' w1)))"
    using 2 by (auto simp: after_def sret_def)
  have x: "wExpiry w' = wExpiry (expiryAdd env 0 b w)"
    by (simp add: w' bw effects_world expiryAdd_def tr)
  show thesis
    using createReservationTx_Inr [OF inv' body]
  proof cases
    case (1 e s)
    then have "wTrace w' = wTrace w @ published env u ''booking.reserved'' b source"
      using effects_world(1) [of env "''booking.reserved''" b' source u "expiryAdd env 0 b' w1"]
      by (simp add: w' bw effects_world(3) tr new_booking_def)
    with 1 x that [of e s] show thesis by (simp add: bw w' new_booking_def)
  qed
qed

text \<open>
  C23. A successful \<open>ReserveSeat\<close>: the database has the user's new reserved booking of the
  requested seat, with the configured deadline, and the seat is held until then; the deadline
  is in the expiry queue when Redis takes it; the user's seat reads go to the primary, the
  event's cache entry is invalidated and one \<open>booking.reserved\<close> event is published.
\<close>

theorem ReserveSeat_success:
  assumes inv: "db_inv (wDB w)" and r: "ReserveSeat env u ev num w = (Inr b, w')"
  shows "b \<in> set (bookings (wDB w')) \<and> bUserID b = u \<and> bEventID b = ev \<and>
    bStatus b = BookingStatusReserved \<and>
    bExpiresAt b = sNow env 0 + ReservationTimeout (sBooking env) \<and>
    (\<exists>s\<in>set (seats (wDB w')). sID s = bSeatID b \<and> sEventID s = ev \<and> sSeatNumber s = num \<and>
       sStatus s = SeatStatusReserved \<and> sReservedUntil s = Some (bExpiresAt b)) \<and>
    (sExpiryQueue env \<and> sRedis env \<and> sRedisFault env 0 = None \<longrightarrow>
       (uuid_String (sLib env) (bID b), Unix (bExpiresAt b)) \<in> set (pending (wExpiry w'))) \<and>
    wTrace w' = wTrace w @ published env u ''booking.reserved'' b source"
proof (rule ReserveSeat_Inr [OF inv r])
  fix e s
  let ?d = "run exec_tx (sOthers env 0) (wDB w)"
  assume *: "s \<in> set (seats ?d)" "sEventID s = ev" "sSeatNumber s = num"
    "b = new_booking (sTx env 0) u ev (sID s) (eTicketPrice e)
       (sNow env 0 + ReservationTimeout (sBooking env))"
    "wDB w' = reserve_db (tx_time (sTx env 0)) b ?d"
    "wTrace w' = wTrace w @ published env u ''booking.reserved'' b source"
    "wExpiry w' = wExpiry (expiryAdd env 0 b w)"
  have "reserve_row (tx_time (sTx env 0)) (bExpiresAt b) s \<in> set (seats (wDB w'))"
    unfolding *(5) reserve_tables using seat_in_update [OF *(1)] by (simp add: *(4) new_booking_def)
  then have "\<exists>s\<in>set (seats (wDB w')). sID s = bSeatID b \<and> sEventID s = ev \<and> sSeatNumber s = num \<and>
      sStatus s = SeatStatusReserved \<and> sReservedUntil s = Some (bExpiresAt b)"
    by (rule rev_bexI) (simp add: reserve_row_def * new_booking_def)
  moreover have "b \<in> set (bookings (wDB w'))" by (simp add: *(5))
  ultimately show ?thesis
    by (simp add: *(6,7) expiryAdd_def expiry_Add_def redis_call_def set_ZADD)
      (simp add: *(4) new_booking_def)
qed

text \<open>
  An environment in which nothing fails and nothing else runs, with Stripe configured:
  \<open>sc\<close> is the state Stripe reports for a payment it was asked to confirm.
\<close>

definition demo_intent :: "string \<Rightarrow> PaymentIntent" where
  "demo_intent st = \<lparr>piID = ''pi_1'', piStatus = st, piAmount = 2500, piCurrency = ''usd'',
     piClientSecret = ''cs''\<rparr>"

definition quiet_senv :: "string \<Rightarrow> time \<Rightarrow> uuid \<Rightarrow> senv" where
  "quiet_senv sc t u = \<lparr>sLib = demo_lib,
     sBooking = \<lparr>bcReservationTimeoutMinutes = 10, bcAdmissionWindowSec = 60,
       bcAdmissionEventLimit = 5000, bcAdmissionClientLimit = 10, bcExpiryReleaseConcurrency = 4,
       bcExpiryReleasePartitionCount = 0, bcExpiryReleasePartitionOffset = 0\<rparr>,
     sStripeConfig = \<lparr>stSecretKey = ''sk'', stPublishableKey = '''', stWebhookSecret = '''',
       stWebhookURL = ''http'', stCurrency = ''usd''\<rparr>,
     sStripe = \<lparr>pi_New = (\<lambda>_. Inr (demo_intent ''requires_confirmation'')),
       pi_Get = (\<lambda>_. Inr (demo_intent ''requires_confirmation'')),
       pi_Confirm = (\<lambda>_ _ _. Inr (demo_intent sc)), refund_New = (\<lambda>_ _. None)\<rparr>,
     sPayment = True, sExpiryQueue = True, sRedis = True, sCache = True, sPublisher = True,
     sNow = (\<lambda>_. t), sOthers = (\<lambda>_. []), sTx = (\<lambda>k. quiet_env t (u + of_nat k)),
     sRedisFault = (\<lambda>_. None)\<rparr>"

definition demo_world :: world where
  "demo_world = \<lparr>wDB = demo_db, wExpiry = no_expiry, wTrace = []\<rparr>"

lemma quiet_senv_simps [simp]:
  "sTx (quiet_senv sc t u) k = quiet_env t (u + of_nat k)" "sOthers (quiet_senv sc t u) k = []"
  "sNow (quiet_senv sc t u) k = t" "sPayment (quiet_senv sc t u)" "sExpiryQueue (quiet_senv sc t u)"
  "sRedis (quiet_senv sc t u)" "sRedisFault (quiet_senv sc t u) k = None"
  "wDB demo_world = demo_db"
  by (simp_all add: quiet_senv_def demo_world_def)

lemma demo_reserve:
  "CreateReservation (quiet_env t u) demo_db 1 3 ''R1-S1'' until =
     (if u \<in> {21, 22} then (Inl (unique_violation ''bookings_pkey''), demo_db)
      else (Inr (new_booking (quiet_env t u) 1 3 11 2500 until),
        reserve_db t (new_booking (quiet_env t u) 1 3 11 2500 until) demo_db))"
proof -
  have "find_event demo_db 3 = Some (hd (events demo_db))"
    "find_seat demo_db 3 ''R1-S1'' = Some (demo_seat 11 ''R1-S1'')"
    by (simp_all add: find_event_def find_seat_def demo_db_def demo_defs)
  then show ?thesis
    by (auto simp: reserve_spec [OF demo_inv])
      (simp_all add: demo_db_def demo_defs new_booking_def Let_def)
qed

lemma ReserveSeat_success_witness:
  "\<exists>b w'. ReserveSeat (quiet_senv ''succeeded'' 50 60) 1 3 ''R1-S1'' demo_world = (Inr b, w') \<and>
     bExpiresAt b = 50 + 10 * Minute \<and> length (wTrace w') = 3"
proof -
  let ?e = "quiet_senv ''succeeded'' 50 60"
  obtain b w' where r: "ReserveSeat ?e 1 3 ''R1-S1'' demo_world = (Inr b, w')"
    by (simp add: ReserveSeat_def sbind_def shandle_def repo_def Let_def demo_reserve after_def sret_def)
  have "ReservationTimeout (sBooking ?e) = 10 * Minute"
    by (simp add: quiet_senv_def ReservationTimeout_def wrap64_def Minute_def Second_def)
  with ReserveSeat_success [of demo_world ?e 1 3 "''R1-S1''", OF _ r] r show ?thesis
    by (simp add: demo_inv published_def uuid_Nil_def demo_world_def quiet_senv_def)
qed

section \<open>Ownership\<close>

text \<open>
  C24. Only the owner: reading, cancelling or purchasing somebody else's booking is refused
  as unauthorized, with no effect at all.
\<close>

theorem only_the_owner:
  assumes "find_booking (run exec_tx (sOthers env 0) (wDB w)) bid = Some b" "bUserID b \<noteq> u"
    "fault (sTx env 0) (Stmt 1) = None"
  shows "GetBookingByID env u bid w =
      (Inl SvcErrUnauthorized, w\<lparr>wDB := run exec_tx (sOthers env 0) (wDB w)\<rparr>) \<and>
    CancelBooking env u bid w =
      (Inl SvcErrUnauthorized, w\<lparr>wDB := run exec_tx (sOthers env 0) (wDB w)\<rparr>) \<and>
    PurchaseBooking env u bid w =
      (Inl SvcErrUnauthorized, w\<lparr>wDB := run exec_tx (sOthers env 0) (wDB w)\<rparr>)"
  using assms by (simp add: GetBookingByID_def CancelBooking_def PurchaseBooking_def sbind_def
      shandle_def repo_def read_only_def FindByID_ok sret_def)

lemma only_the_owner_witness:
  "fst (PurchaseBooking (quiet_senv ''succeeded'' 50 60) 7 21 demo_world) = Inl SvcErrUnauthorized"
proof -
  have "find_booking demo_db 21 = Some (demo_booking 21 12)"
    by (simp add: find_booking_def demo_db_def demo_defs)
  then show ?thesis
    using only_the_owner [of "quiet_senv ''succeeded'' 50 60" demo_world 21 "demo_booking 21 12" 7]
    by (simp add: demo_booking_def)
qed

section \<open>Purchasing\<close>

text \<open>Stripe has reported the booking's payment intent as succeeded.\<close>

definition charged :: "senv \<Rightarrow> Booking \<Rightarrow> bool" where
  "charged env b \<longleftrightarrow> (case bPaymentIntentID b of None \<Rightarrow> False | Some i \<Rightarrow>
     \<not> IsEnabled (sStripeConfig env) \<or>
     (case pi_Get (sStripe env) i of Inl _ \<Rightarrow> False | Inr p \<Rightarrow>
        piStatus p = ''succeeded'' \<or>
        (case pi_Confirm (sStripe env) i ''pm_card_visa'' (stWebhookURL (sStripeConfig env)) of
           Inl _ \<Rightarrow> False | Inr p' \<Rightarrow> piStatus p' = ''succeeded'')))"

lemma processPayment_Inr:
  "processPayment env b w = (Inr x, w') \<Longrightarrow> wDB w' = wDB w \<and> (sPayment env \<longrightarrow> charged env b)"
  by (auto simp: processPayment_def sbind_def shandle_def sret_def stripe_step_def ProcessPayment_def
      ConfirmBookingPayment_def charged_def trace_def split: if_splits sum.splits option.splits)

lemma processPayment_Inl: "processPayment env b w = (Inl e, w') \<Longrightarrow> wDB w' = wDB w"
  by (auto simp: processPayment_def sbind_def shandle_def sret_def stripe_step_def trace_def
      split: if_splits sum.splits)

lemma ensure_Inr:
  assumes "ensurePaymentIntent env k b0 w = (Inr b, w')" "sOthers env k = []"
  shows "booking_view (wDB w') bid = booking_view (wDB w) bid \<and> bID b = bID b0"
proof (cases "sPayment env \<and> \<not> intent_ready b0")
  case False
  with assms show ?thesis by (auto simp: ensurePaymentIntent_def sret_def split: if_splits)
next
  case True
  let ?p = "PreparePaymentIntent (sLib env) (sStripe env) (sStripeConfig env) b0"
  from assms(1) True obtain r w1 where w1: "stripe_step ?p w = (Inr r, w1)" and
    r: "repo env k (\<lambda>t d. SetPaymentIntentID t d (bID b0) (prPaymentID r)) w1 = (Inr b, w')"
    by (auto simp: ensurePaymentIntent_def sret_def dest!: sbind_Inr)
  have w1': "wDB w1 = wDB w" using frame_steps(7) [of ?p w] w1 by simp
  from repo_Inr [OF r] assms(2)
  have s: "SetPaymentIntentID (sTx env k) (wDB w) (bID b0) (prPaymentID r) = (Inr b, wDB w')"
    by (simp add: w1')
  then have "booking_view (wDB w') bid = booking_view (wDB w) bid"
    using SetPaymentIntentID_view [of "sTx env k" "wDB w" "bID b0" "prPaymentID r" bid] by simp
  moreover have "bID b = bID b0"
  proof -
    from s have "booking_FindByID (sTx env k) (Stmt 2) (wDB w') (bID b0) = Inr b"
      by (auto simp: SetPaymentIntentID_def Let_def ebind_Inr_iff split: prod.splits sum.splits if_splits option.splits)
    from FindByID_Inr [OF this] show ?thesis by (auto dest: find_booking_Some)
  qed
  ultimately show ?thesis by simp
qed

lemma complete_Inr:
  assumes inv: "db_inv (wDB w)" and r: "complete_and_charge env u bid w = (Inr b, w')"
    and o5: "sOthers env 5 = []"
  shows "view_status (booking_view (wDB w') bid) = Some BookingStatusPurchased \<and> bID b = bid \<and>
    (sPayment env \<longrightarrow> charged env b)"
proof -
  let ?d = "run exec_tx (sOthers env 3) (wDB w)"
  have inv': "db_inv ?d" by (rule db_run.run_inv [OF inv])
  obtain c w1 where c: "repo env 3 (\<lambda>t d. CompletePurchase t d bid) w = (c, w1)"
    by (cases "repo env 3 (\<lambda>t d. CompletePurchase t d bid) w")
  note rr = r [unfolded complete_and_charge_def shandle_def c, simplified]
  show ?thesis
  proof (cases c)
    case (Inr b1)
    from repo_Inr [OF c [unfolded Inr]] have cp: "CompletePurchase (sTx env 3) ?d bid = (Inr b1, wDB w1)" by simp
    from run_tx_Inr [OF cp [unfolded CompletePurchase_def]]
    have "completePurchaseTx (sTx env 3) bid ?d = Inr (b1, wDB w1)" by simp
    then have v: "view_status (booking_view (wDB w1) bid) = Some BookingStatusPurchased \<and> bID b1 = bid"
    proof (cases rule: completePurchaseTx_Inr [OF inv', consumes 1, case_names already completed])
      case (already row)
      then show ?thesis using booking_view_in [OF inv' already(1)] by (simp add: view_of_def)
    next
      case (completed row)
      then show ?thesis using booking_view_touch [OF inv' completed(1)]
        by (simp add: purchase_row_def view_of_def)
    qed
    obtain p w2 where p: "processPayment env b1 (expiryRemove env 1 bid w1) = (p, w2)"
      by (cases "processPayment env b1 (expiryRemove env 1 bid w1)")
    with rr Inr have "\<exists>x. p = Inr x"
      by (auto simp: after_def shandle_def sbind_def sret_def split: sum.splits prod.splits)
    then obtain x where px: "p = Inr x" by blast
    from rr Inr p px have "b = b1" "wDB w' = wDB w2"
      by (auto simp: after_def shandle_def sret_def)
    with processPayment_Inr [OF p [unfolded px]] v show ?thesis by simp
  next
    case (Inl e)
    obtain f w2 where f: "repo env 4 (read_only (\<lambda>t d. booking_FindByID t (Stmt 1) d bid)) w1 = (f, w2)"
      by (cases "repo env 4 (read_only (\<lambda>t d. booking_FindByID t (Stmt 1) d bid)) w1")
    from rr Inl f obtain b1 where fb: "f = Inr b1" and st: "bStatus b1 = BookingStatusPurchased"
      and fin: "finishPurchasedBookingPayment env 5 b1 w2 = (Inr b, w')"
      by (auto simp: sret_def shandle_def split: if_splits sum.splits)
    from repo_Inr [OF f [unfolded fb]] have "booking_FindByID (sTx env 4) (Stmt 1) (wDB w2) bid = Inr b1"
      by (auto simp: read_only_def)
    from FindByID_Inr [OF this] st have v: "view_status (booking_view (wDB w2) bid) = Some BookingStatusPurchased"
      "bID b1 = bid" by (auto simp: booking_view_find view_of_def dest: find_booking_Some)
    from fin [unfolded finishPurchasedBookingPayment_def] obtain b2 w3 x w4 where
      e: "ensurePaymentIntent env 5 b1 w2 = (Inr b2, w3)" and p: "processPayment env b2 w3 = (Inr x, w4)"
      and fi: "b = b2" "wDB w' = wDB w4"
      by (auto simp: after_def sret_def dest!: sbind_Inr)
    from ensure_Inr [OF e o5, of bid] processPayment_Inr [OF p] fi v show ?thesis by simp
  qed
qed

text \<open>
  The chain of a successful purchase: the caller's booking, extended and with its payment
  prepared, reaches \<open>complete_and_charge\<close>; histories lead there and from there on.
\<close>

lemma PurchaseBooking_chain:
  assumes inv: "db_inv (wDB w)" and r: "PurchaseBooking env u bid w = (Inr b, w')"
  obtains row w2 where "find_booking (run exec_tx (sOthers env 0) (wDB w)) bid = Some row" "bUserID row = u"
    "db_inv (wDB w2)" "complete_and_charge env u bid w2 = (Inr b, w')"
    "lifecycle (run exec_tx (sOthers env 0) (wDB w)) (wDB w')"
proof -
  let ?d = "run exec_tx (sOthers env 0) (wDB w)"
  have inv0: "db_inv ?d" by (rule db_run.run_inv [OF inv])
  from sbind_Inr [OF r [unfolded PurchaseBooking_def]] obtain b0 w0 where
    f: "repo env 0 (read_only (\<lambda>t d. booking_FindByID t (Stmt 1) d bid)) w = (Inr b0, w0)" and
    k: "(if bUserID b0 \<noteq> u then sret (Inl SvcErrUnauthorized)
      else if bStatus b0 \<noteq> BookingStatusReserved then sret (Inl SvcErrNotReserved)
      else if bExpiresAt b0 < sNow env 0 then
        shandle (ReleaseExpiredBooking env 1 b0) (\<lambda>_. sret (Inl SvcErrBookingExpired))
      else
        sbind (repo env 1 (\<lambda>t d. ExtendReservation t d bid
                 (sNow env 1 + purchaseProcessingExtension))) extend_error
        (\<lambda>booking. after (expiryAdd env 0 booking)
         (sbind (ensurePaymentIntent env 2 booking) (\<lambda>e. e)
         (\<lambda>_. complete_and_charge env u bid)))) w0 = (Inr b, w')" by blast
  from repo_Inr [OF f] have w0: "wDB w0 = ?d"
    "booking_FindByID (sTx env 0) (Stmt 1) ?d bid = Inr b0" by (auto simp: read_only_def)
  from FindByID_Inr [OF w0(2)] obtain row where row: "find_booking ?d bid = Some row" "b0 = scan_booking row"
    by blast
  from k have u: "bUserID b0 = u" and k': "sbind (repo env 1 (\<lambda>t d. ExtendReservation t d bid
                 (sNow env 1 + purchaseProcessingExtension))) extend_error
        (\<lambda>booking. after (expiryAdd env 0 booking)
         (sbind (ensurePaymentIntent env 2 booking) (\<lambda>e. e)
         (\<lambda>_. complete_and_charge env u bid))) w0 = (Inr b, w')"
    by (auto simp: sret_def shandle_def split: if_splits prod.splits)
  from sbind_Inr [OF k'] obtain b1 w1 where
    1: "repo env 1 (\<lambda>t d. ExtendReservation t d bid (sNow env 1 + purchaseProcessingExtension)) w0 = (Inr b1, w1)"
    and 2: "sbind (ensurePaymentIntent env 2 b1) (\<lambda>e. e) (\<lambda>_. complete_and_charge env u bid)
       (expiryAdd env 0 b1 w1) = (Inr b, w')" by (auto simp: after_def)
  from sbind_Inr [OF 2] obtain b2 w2 where
    3: "ensurePaymentIntent env 2 b1 (expiryAdd env 0 b1 w1) = (Inr b2, w2)"
    and 4: "complete_and_charge env u bid w2 = (Inr b, w')" by blast
  have t: "\<exists>ops. wDB (snd (m w)) = run exec_tx ops (wDB w)" if "transacts m" for m :: "Booking svc" and w
    using that unfolding transacts_def by blast
  obtain o1 where o1: "wDB w1 = run exec_tx o1 ?d" using t [OF transacts_calls(5)] 1 w0(1) by (metis snd_conv)
  obtain o2 where o2: "wDB w2 = run exec_tx o2 (wDB w1)"
    using t [OF transacts_calls(2), of env 2 b1 "expiryAdd env 0 b1 w1"] 3 by auto
  obtain o3 where o3: "wDB w' = run exec_tx o3 (wDB w2)" using t [OF transacts_calls(3)] 4 by (metis snd_conv)
  have inv2: "db_inv (wDB w2)" unfolding o2 o1 using db_run.run_inv inv0 by blast
  have "lifecycle ?d (wDB w')"
    using db_run.run_rel [OF inv0, of "o1 @ o2 @ o3"] by (simp add: o3 o2 o1 run_append)
  moreover have "bUserID row = u" using row(2) u by simp
  ultimately show thesis using that row(1) inv2 4 by blast
qed

text \<open>
  C25. A successful purchase: the caller owns the booking, the booking is purchased (as long
  as nothing else happens between a re-read and the return), and, when the payment service
  is in use, Stripe has reported the intent of the returned booking as succeeded.
\<close>

theorem PurchaseBooking_success:
  assumes inv: "db_inv (wDB w)" and r: "PurchaseBooking env u bid w = (Inr b, w')"
    and o5: "sOthers env 5 = []"
  shows "(\<exists>ev s a t x. booking_view (wDB w') bid = View u ev s a t x BookingStatusPurchased) \<and>
    bID b = bid \<and> (sPayment env \<longrightarrow> charged env b)"
proof (rule PurchaseBooking_chain [OF inv r])
  let ?d = "run exec_tx (sOthers env 0) (wDB w)"
  fix row w2
  assume row: "find_booking ?d bid = Some row" "bUserID row = u" and "db_inv (wDB w2)"
    "complete_and_charge env u bid w2 = (Inr b, w')" and l: "lifecycle ?d (wDB w')"
  note c = complete_Inr [OF this(3,4) o5]
  from l have "booking_step\<^sup>*\<^sup>* (booking_view ?d bid) (booking_view (wDB w') bid)"
    by (simp add: lifecycle_def)
  from view_keeps_user [OF this] row c show ?thesis
    by (auto simp: booking_view_find view_of_def)
qed

lemmas purchase_eval = PurchaseBooking_def complete_and_charge_def ensurePaymentIntent_def
  processPayment_def sbind_def shandle_def sret_def after_def repo_def read_only_def
  booking_FindByID_def ExtendReservation_def extendReservationTx_def lockSeatByIDForUpdateTx_def
  SetPaymentIntentID_def rows_affected_def exec_defs stripe_step_def PreparePaymentIntent_def
  ProcessPayment_def ConfirmBookingPayment_def IsEnabled_def intent_ready_def TrimSpace_def
  is_space_def purchaseProcessingExtension_def Minute_def Second_def sell_seat_def

lemma demo_purchase:
  "is_ok (fst (PurchaseBooking (quiet_senv ''succeeded'' 50 60) 1 21 demo_world))"
  by (simp add: purchase_eval demo_world_def demo_db_def demo_defs quiet_senv_def demo_intent_def
      intent_result_def Let_def expiryAdd_def expiryRemove_def markSeatReadPrimary_def
      invalidateCache_def publishEvent_def trace_def)

lemma PurchaseBooking_success_witness:
  "\<exists>b w'. PurchaseBooking (quiet_senv ''succeeded'' 50 60) 1 21 demo_world = (Inr b, w') \<and>
     view_status (booking_view (wDB w') 21) = Some BookingStatusPurchased \<and>
     charged (quiet_senv ''succeeded'' 50 60) b"
proof -
  let ?e = "quiet_senv ''succeeded'' 50 60"
  obtain b w' where r: "PurchaseBooking ?e 1 21 demo_world = (Inr b, w')"
    using demo_purchase by (cases "PurchaseBooking ?e 1 21 demo_world"; cases "fst (PurchaseBooking ?e 1 21 demo_world)") auto
  from PurchaseBooking_success [OF _ r] r show ?thesis by (auto simp: demo_inv)
qed

section \<open>A payment that fails\<close>

lemma purchase_result:
  assumes inv: "db_inv d" and r: "CompletePurchase env d bid = (Inr b, d')"
  shows "\<exists>row. find_booking d' bid = Some row \<and> b = scan_booking row \<and>
    bStatus row = BookingStatusPurchased \<and> db_inv d'"
proof -
  have inv': "db_inv d'" using exec_tx_inv [OF inv, of "TxPurchase env bid"] r by simp
  from run_tx_Inr [OF r [unfolded CompletePurchase_def]]
  have "completePurchaseTx env bid d = Inr (b, d')" by simp
  then show ?thesis
  proof (cases rule: completePurchaseTx_Inr [OF inv, consumes 1, case_names already completed])
    case (already row)
    then show ?thesis using find_booking_in [OF inv already(1)] inv' by auto
  next
    case (completed row)
    have "scan_booking (purchase_row (tx_time env) row) = purchase_row (tx_time env) (scan_booking row)"
      by (simp add: purchase_row_def scan_booking_def applyBookingNullables_def Let_def split: option.splits)
    moreover have "find_booking d' bid = Some (purchase_row (tx_time env) row)"
      using find_booking_touch [OF inv completed(1)] completed(2,6) by (simp add: purchase_row_def)
    ultimately show ?thesis using completed(7) inv' by (simp add: purchase_row_def)
  qed
qed

text \<open>
  C26. A failed payment is undone: when the booking was purchased but the payment then
  fails, the caller gets the error, the booking is cancelled and its seat is available again
  (if the compensating transaction's own calls succeed).
\<close>

theorem failed_payment_undone:
  assumes inv: "db_inv (wDB w)"
    and c: "CompletePurchase (sTx env 3) (run exec_tx (sOthers env 3) (wDB w)) bid = (Inr b, d)"
    and p: "fst (processPayment env b (expiryRemove env 1 bid (w\<lparr>wDB := d\<rparr>))) = Inl e"
    and o6: "sOthers env 6 = []" and ff: "fault_free (sTx env 6)"
  shows "case complete_and_charge env u bid w of (r, w') \<Rightarrow>
    r = Inl (Wrap ''payment failed'' e) \<and>
    view_status (booking_view (wDB w') bid) = Some BookingStatusCancelled \<and>
    list_all (\<lambda>s. sID s \<noteq> bSeatID b \<or> sStatus s = SeatStatusAvailable) (seats (wDB w'))"
proof -
  let ?w1 = "expiryRemove env 1 bid (w\<lparr>wDB := d\<rparr>)"
  obtain w2 where w2: "processPayment env b ?w1 = (Inl e, w2)"
    using p by (cases "processPayment env b ?w1") simp
  have d2: "wDB w2 = d" using processPayment_Inl [OF w2] by simp
  from purchase_result [OF db_run.run_inv [OF inv] c] obtain row where
    row: "find_booking d bid = Some row" "b = scan_booking row" "bStatus row = BookingStatusPurchased"
    and inv_d: "db_inv d" by blast
  note rb = find_booking_Some [OF row(1)]
  let ?d' = "touch row (revert_row (tx_time (sTx env 6))) free_seat (give_back (tx_time (sTx env 6))) d"
  have rv: "RevertFailedPurchase (sTx env 6) d bid =
      (Inr ((scan_booking row)\<lparr>bStatus := BookingStatusCancelled, bPurchasedAt := None,
                       bPaymentIntentID := None\<rparr>), ?d')"
    by (simp add: revert_spec [OF inv_d ff] row)
  have "fst (complete_and_charge env u bid w) = Inl (Wrap ''payment failed'' e)"
    "wDB (snd (complete_and_charge env u bid w)) = ?d'"
    by (simp_all add: complete_and_charge_def shandle_def repo_def c after_def w2 [unfolded One_nat_def]
        sbind_def revertPurchaseAfterPaymentFailure_def rv o6 d2 sret_def)
  moreover have "view_status (booking_view ?d' bid) = Some BookingStatusCancelled"
    using booking_view_touch [OF inv_d conjunct1 [OF rb]] rb by (simp add: revert_row_def view_of_def)
  moreover have "list_all (\<lambda>s. sID s \<noteq> bSeatID b \<or> sStatus s = SeatStatusAvailable) (seats ?d')"
    by (auto simp: list_all_iff set_sql_update free_seat_def row(2))
  ultimately show ?thesis by (cases "complete_and_charge env u bid w") simp
qed

lemma failed_payment_undone_witness:
  "fst (complete_and_charge (quiet_senv ''canceled'' 50 60) 1 22 demo_world) =
   Inl (Wrap ''payment failed'' PayErrPaymentIntentMissing)"
proof -
  let ?e = "quiet_senv ''canceled'' 50 60"
  have f: "find_booking demo_db 22 = Some ((demo_booking 22 13)\<lparr>bStatus := BookingStatusPurchased,
      bPurchasedAt := Some 30, bUpdatedAt := 30\<rparr>)"
    by (simp add: find_booking_def demo_db_def demo_defs)
  have c: "CompletePurchase (sTx ?e 3) (run exec_tx (sOthers ?e 3) (wDB demo_world)) 22 =
      (Inr (scan_booking ((demo_booking 22 13)\<lparr>bStatus := BookingStatusPurchased,
        bPurchasedAt := Some 30, bUpdatedAt := 30\<rparr>)), demo_db)"
    by (simp add: purchase_spec [OF demo_inv] f)
  from failed_payment_undone [OF _ c, of PayErrPaymentIntentMissing 1] show ?thesis
    by (simp add: demo_inv processPayment_def sret_def intent_ready_def demo_booking_def split_beta)
qed

text \<open>
  Two concurrent purchases of one booking: while this call is between its second and third
  repository call, another one extends, stores its intent and completes the purchase (and
  its payment succeeds). This call then finds the booking purchased, which it takes for its
  own success, fails to reach Stripe and reverts the other call's purchase.
\<close>

definition racing_env :: senv where
  "racing_env = (quiet_senv ''succeeded'' 50 60)\<lparr>
     sOthers := (\<lambda>k. if k = 3 then [TxExtend (quiet_env 51 0) 21 (51 + 2 * Minute),
       TxPurchase (quiet_env 52 0) 21] else []),
     sStripe := (sStripe (quiet_senv ''succeeded'' 50 60))\<lparr>pi_Get := (\<lambda>_. Inl (StripeOther ''timeout''))\<rparr>\<rparr>"

lemma purchase_race:
  "view_status (booking_view (wDB (snd (PurchaseBooking racing_env 1 21 demo_world))) 21) =
     Some BookingStatusCancelled"
  by (simp add: purchase_eval demo_world_def demo_db_def demo_defs quiet_senv_def demo_intent_def
      intent_result_def Let_def expiryAdd_def expiryRemove_def markSeatReadPrimary_def
      invalidateCache_def publishEvent_def trace_def racing_env_def
      revertPurchaseAfterPaymentFailure_def RevertFailedPurchase_def revertFailedPurchaseTx_def
      increment_available_def booking_view_def view_of_def free_seat_def)

section \<open>Bulk reservations\<close>

lemma concat_chunkSeats: "0 < n \<Longrightarrow> concat (chunkSeats xs n) = xs"
proof (induction xs n rule: chunkSeats.induct)
  case (1 xs n)
  then show ?case by (subst chunkSeats.simps) simp
qed

lemma chunkSeats_length: "c \<in> set (chunkSeats xs n) \<Longrightarrow> c \<noteq> [] \<and> length c \<le> n"
proof (induction xs n rule: chunkSeats.induct)
  case (1 xs n)
  then show ?case by (subst (asm) (2) chunkSeats.simps) (auto split: if_splits)
qed

text \<open>Bookings are never deleted, and seats keep their identity.\<close>

lemma ids_grow:
  assumes "db_inv d"
  shows "bID ` set (bookings d) \<subseteq> bID ` set (bookings (run exec_tx ops d))"
proof
  fix i assume "i \<in> bID ` set (bookings d)"
  then obtain b where b: "b \<in> set (bookings d)" "bID b = i" by auto
  have "booking_step\<^sup>*\<^sup>* (view_of b) (booking_view (run exec_tx ops d) i)"
    using db_run.run_rel [OF assms, of ops] booking_view_in [OF assms b(1)] b(2)
    by (metis lifecycle_def)
  from view_keeps_user [OF this view_of_def] have "booking_view (run exec_tx ops d) i \<noteq> Absent" by auto
  then show "i \<in> bID ` set (bookings (run exec_tx ops d))" using booking_view_absent by blast
qed

definition seat_ids :: "db \<Rightarrow> (uuid \<times> uuid \<times> string) set" where
  "seat_ids d = (\<lambda>s. (sID s, sEventID s, sSeatNumber s)) ` set (seats d)"

lemma effect_seat_ids: "effect d d' \<Longrightarrow> seat_ids d \<subseteq> seat_ids d'"
  by (induction rule: effect.induct)
    (auto simp: seat_ids_def key_sql_update row_defs reserve_row_def sql_insert_def)

lemma seat_ids_grow:
  assumes "db_inv d" shows "seat_ids d \<subseteq> seat_ids (run exec_tx ops d)"
  using assms
proof (induction ops arbitrary: d)
  case (Cons op ops)
  have "seat_ids d \<subseteq> seat_ids d'" if "effect\<^sup>*\<^sup>* d d'" for d'
    using that by (induction rule: rtranclp_induct) (use effect_seat_ids in blast)+
  with exec_tx_effect [OF Cons.prems] have "seat_ids d \<subseteq> seat_ids (exec_tx op d)" by blast
  with Cons.IH [OF exec_tx_inv [OF Cons.prems]] show ?case by fastforce
qed simp

lemma ReserveSeat_new:
  assumes inv: "db_inv (wDB w)" and r: "ReserveSeat env u ev num w = (Inr b, w')"
  shows "bUserID b = u \<and> bEventID b = ev \<and> (bSeatID b, ev, num) \<in> seat_ids (wDB w') \<and>
    bID b \<notin> bID ` set (bookings (wDB w)) \<and> bID b \<in> bID ` set (bookings (wDB w'))"
proof (rule ReserveSeat_Inr [OF inv r])
  fix e s
  let ?d = "run exec_tx (sOthers env 0) (wDB w)"
  assume *: "s \<in> set (seats ?d)" "sEventID s = ev" "sSeatNumber s = num"
    "bID b \<notin> bID ` set (bookings ?d)"
    "b = new_booking (sTx env 0) u ev (sID s) (eTicketPrice e)
       (sNow env 0 + ReservationTimeout (sBooking env))"
    "wDB w' = reserve_db (tx_time (sTx env 0)) b ?d"
  have "seat_ids (wDB w') = seat_ids ?d"
    by (auto simp: *(6) seat_ids_def key_sql_update reserve_row_def)
  moreover have "(sID s, ev, num) \<in> seat_ids ?d" using *(1-3) by (auto simp: seat_ids_def)
  moreover have "bID b \<notin> bID ` set (bookings (wDB w))" using ids_grow [OF inv] *(4) by blast
  ultimately show ?thesis by (simp add: *(6)) (simp add: *(5) new_booking_def)
qed

definition reserved_for :: "db \<Rightarrow> uuid \<Rightarrow> uuid \<Rightarrow> Booking \<Rightarrow> string \<Rightarrow> bool" where
  "reserved_for d u ev b num \<longleftrightarrow> bUserID b = u \<and> bEventID b = ev \<and> (bSeatID b, ev, num) \<in> seat_ids d"

lemma mset_concat_live: "mset (concat (filter (\<lambda>c. c \<noteq> []) cs)) = mset (concat cs)"
  by (induction cs) auto

lemma mset_concat_update:
  "i < length cs \<Longrightarrow> cs ! i = x # rest \<Longrightarrow> add_mset x (mset (concat (cs[i := rest]))) = mset (concat cs)"
proof (induction cs arbitrary: i)
  case (Cons c cs)
  then show ?case by (cases i) auto
qed simp

lemma bulk_workers_step:
  assumes "filter (\<lambda>c. c \<noteq> []) chunks \<noteq> []"
  shows "bulk_workers envs sched u ev n chunks w =
    (let live = filter (\<lambda>c. c \<noteq> []) chunks; i = sched n mod length live;
         (r, w1) = ReserveSeat (envs n) u ev (hd (live ! i)) w;
         (rs, w2) = bulk_workers envs sched u ev (Suc n)
           (live[i := (case r of Inl _ \<Rightarrow> [] | Inr _ \<Rightarrow> tl (live ! i))]) w1
     in (r # rs, w2))"
  using assms by (subst bulk_workers.simps) (simp add: Let_def)

lemma bulk_workers_all:
  "bulk_workers envs sched u ev n chunks w = (rs, w') \<Longrightarrow> first_err rs = None \<Longrightarrow> db_inv (wDB w) \<Longrightarrow>
   \<exists>nums. mset nums = mset (concat chunks) \<and> list_all2 (reserved_for (wDB w') u ev) (oks rs) nums \<and>
     distinct (map bID (oks rs)) \<and> bID ` set (oks rs) \<inter> bID ` set (bookings (wDB w)) = {} \<and>
     bID ` set (oks rs) \<subseteq> bID ` set (bookings (wDB w'))"
proof (induction envs sched u ev n chunks w arbitrary: rs w' rule: bulk_workers.induct)
  case (1 envs sched u ev n chunks w)
  let ?live = "filter (\<lambda>c. c \<noteq> []) chunks"
  show ?case
  proof (cases "?live = []")
    case True
    then have "concat chunks = []" by (auto simp: filter_empty_conv)
    with True 1(2) show ?thesis by (subst (asm) bulk_workers.simps) (auto simp: Let_def)
  next
    case False
    let ?i = "sched n mod length ?live"
    obtain r w1 where r: "ReserveSeat (envs n) u ev (hd (?live ! ?i)) w = (r, w1)"
      by (cases "ReserveSeat (envs n) u ev (hd (?live ! ?i)) w")
    let ?left = "?live[?i := (case r of Inl _ \<Rightarrow> [] | Inr _ \<Rightarrow> tl (?live ! ?i))]"
    obtain rs2 w2 where b: "bulk_workers envs sched u ev (Suc n) ?left w1 = (rs2, w2)"
      by (cases "bulk_workers envs sched u ev (Suc n) ?left w1")
    have rs: "rs = r # rs2" "w' = w2" using 1(2) bulk_workers_step [OF False] r b by (simp_all add: Let_def)
    obtain x where x: "r = Inr x" "first_err rs2 = None" using 1(3) rs by (cases r) auto
    have inv1: "db_inv (wDB w1)" using svc_inv [OF transacts_calls(1) 1(4)] r by (metis snd_conv)
    from 1(1) [OF refl False refl r [symmetric] refl refl b x(2) inv1] obtain nums where
      IH: "mset nums = mset (concat ?left)" "list_all2 (reserved_for (wDB w2) u ev) (oks rs2) nums"
      "distinct (map bID (oks rs2))" "bID ` set (oks rs2) \<inter> bID ` set (bookings (wDB w1)) = {}"
      "bID ` set (oks rs2) \<subseteq> bID ` set (bookings (wDB w2))" by blast
    note new = ReserveSeat_new [OF 1(4) r [unfolded x(1)]]
    have i: "?i < length ?live" using False by simp
    then have "?live ! ?i \<noteq> []" using nth_mem [OF i] by auto
    then have "?live ! ?i = hd (?live ! ?i) # tl (?live ! ?i)" by simp
    from mset_concat_update [OF i this] IH(1) x(1)
    have m: "mset (hd (?live ! ?i) # nums) = mset (concat chunks)" by (simp add: mset_concat_live)
    obtain ops where ops: "wDB w2 = run exec_tx ops (wDB w1)" using transacted_worlds(2) b by (metis snd_conv)
    have g: "seat_ids (wDB w1) \<subseteq> seat_ids (wDB w2)" "bID ` set (bookings (wDB w1)) \<subseteq> bID ` set (bookings (wDB w2))"
      unfolding ops by (rule seat_ids_grow [OF inv1], rule ids_grow [OF inv1])
    obtain ops1 where "wDB w1 = run exec_tx ops1 (wDB w)"
      using transacts_calls(1) r unfolding transacts_def by (metis snd_conv)
    then have g0: "bID ` set (bookings (wDB w)) \<subseteq> bID ` set (bookings (wDB w1))"
      using ids_grow [OF 1(4)] by simp
    show ?thesis
    proof (intro exI conjI)
      show "mset (hd (?live ! ?i) # nums) = mset (concat chunks)" by (rule m)
      show "list_all2 (reserved_for (wDB w') u ev) (oks rs) (hd (?live ! ?i) # nums)"
        using IH(2) new g(1) rs x by (auto simp: reserved_for_def)
      show "distinct (map bID (oks rs))" using IH(3,4) new rs x by auto
      show "bID ` set (oks rs) \<inter> bID ` set (bookings (wDB w)) = {}"
      proof -
        have "oks rs = x # oks rs2" using rs x by simp
        with IH(4) new g0 show ?thesis by (simp only: list.set image_insert) blast
      qed
      show "bID ` set (oks rs) \<subseteq> bID ` set (bookings (wDB w'))" using IH(5) new g(2) rs x by auto
    qed
  qed
qed

text \<open>
  C27. A successful bulk reservation, whatever the interleaving of its goroutines and of
  other transactions: one booking for each requested seat, all different, all new, for this
  user and event.
\<close>

theorem BulkReserve_success:
  assumes inv: "db_inv (wDB w)" and r: "BulkReserve envs sched env u ev nums w = (Inr bs, w')"
  shows "\<exists>nums'. mset nums' = mset nums \<and> list_all2 (reserved_for (wDB w') u ev) bs nums' \<and>
    distinct (map bID bs) \<and> bID ` set bs \<inter> bID ` set (bookings (wDB w)) = {} \<and>
    bID ` set bs \<subseteq> bID ` set (bookings (wDB w'))"
proof -
  obtain rs w1 where b: "bulk_workers envs sched u ev 0 (chunkSeats nums bulkChunkSize) w = (rs, w1)"
    by (cases "bulk_workers envs sched u ev 0 (chunkSeats nums bulkChunkSize) w")
  with r have "first_err rs = None" "bs = oks rs" "w' = w1"
    by (auto simp: BulkReserve_def split: if_splits option.splits)
  with bulk_workers_all [OF b _ inv] show ?thesis
    by (simp add: concat_chunkSeats bulkChunkSize_def)
qed

lemma BulkReserve_success_witness:
  "\<exists>b w'. BulkReserve (\<lambda>n. quiet_senv ''succeeded'' 50 (60 + of_nat n)) (\<lambda>n. n)
     (quiet_senv ''succeeded'' 50 90) 1 3 [''R1-S1''] demo_world = (Inr [b], w') \<and>
     bUserID b = 1 \<and> bEventID b = 3"
proof -
  let ?B = "BulkReserve (\<lambda>n. quiet_senv ''succeeded'' 50 (60 + of_nat n)) (\<lambda>n. n)
     (quiet_senv ''succeeded'' 50 90) 1 3 [''R1-S1''] demo_world"
  have c: "chunkSeats [''R1-S1''] 50 = [[''R1-S1'']]" by (simp add: chunkSeats.simps)
  obtain bs w' where r: "?B = (Inr bs, w')"
    by (simp add: BulkReserve_def maxBulkSeats_def bulkChunkSize_def c bulk_workers.simps Let_def
        ReserveSeat_def sbind_def shandle_def repo_def demo_reserve after_def sret_def)
  obtain nums where n: "mset nums = mset [''R1-S1'']" "list_all2 (reserved_for (wDB w') 1 3) bs nums"
    using BulkReserve_success [OF _ r] demo_inv by auto
  then have "nums = [''R1-S1'']" by simp
  with n(2) obtain b where "bs = [b]" "bUserID b = 1 \<and> bEventID b = 3"
    by (auto simp: list_all2_Cons2 reserved_for_def)
  with r show ?thesis by blast
qed

lemma cancel_view:
  assumes inv: "db_inv d" and ff: "fault_free t"
  shows "view_status (booking_view (snd (CancelReservation t d b)) i) =
    (if i = b \<and> view_status (booking_view d i) = Some BookingStatusReserved
     then Some BookingStatusCancelled else view_status (booking_view d i))"
proof (cases "find_booking d b")
  case None
  then show ?thesis
    by (simp add: CancelReservation_def release_spec [OF inv ff] booking_view_find)
next
  case (Some row)
  note rb = find_booking_Some [OF Some]
  have v: "booking_view d b = view_of row" by (simp add: booking_view_find Some)
  show ?thesis
    using rb booking_view_touch [OF inv conjunct1 [OF rb]]
    by (cases "i = b") (auto simp: CancelReservation_def release_spec [OF inv ff] Some release_row_def
        view_of_def v)
qed

lemma bulk_rollback_status:
  assumes "db_inv (wDB w)" "\<And>k. fault_free (sTx env k) \<and> sOthers env k = []"
  shows "view_status (booking_view (wDB (bulk_rollback env k bs w)) i) = Some BookingStatusReserved \<longleftrightarrow>
    view_status (booking_view (wDB w) i) = Some BookingStatusReserved \<and> i \<notin> bID ` set bs"
  using assms
proof (induction bs arbitrary: k w)
  case (Cons b bs)
  let ?r = "repo env k (\<lambda>t d. CancelReservation t d (bID b)) w"
  let ?w = "case ?r of (Inl _, w') \<Rightarrow> w'
      | (Inr c, w') \<Rightarrow> expiryRemove env k (bID c) (invalidateCache env (bEventID c) w')"
  have d: "wDB ?w = snd (CancelReservation (sTx env k) (wDB w) (bID b))"
    using Cons.prems(2) [of k] by (auto simp: repo_def split: prod.splits sum.splits)
  have "db_inv (wDB ?w)" unfolding d using exec_tx_inv [OF Cons.prems(1), of "TxCancel (sTx env k) (bID b)"] by simp
  from Cons.IH [OF this Cons.prems(2), of "Suc k"] cancel_view [OF Cons.prems(1), of "sTx env k" "bID b" i]
    Cons.prems(2) [of k]
  show ?case unfolding d by (auto simp: d split: if_splits)
qed simp

text \<open>
  C28. A bulk reservation that fails leaves no reservation of its own behind: the caller gets
  the first error, and after the rollback (with no faults and nothing else running meanwhile)
  none of the bookings it made is still reserved.
\<close>

theorem BulkReserve_rolls_back:
  assumes inv: "db_inv (wDB w)" and n: "length nums \<le> 500"
    and b: "bulk_workers envs sched u ev 0 (chunkSeats nums bulkChunkSize) w = (rs, w1)"
    and e: "first_err rs = Some e" and quiet: "\<And>k. fault_free (sTx env k) \<and> sOthers env k = []"
  shows "case BulkReserve envs sched env u ev nums w of (r, w') \<Rightarrow>
    r = Inl (Wrap ''bulk reserve failed'' e) \<and>
    list_all (\<lambda>c. view_status (booking_view (wDB w') (bID c)) \<noteq> Some BookingStatusReserved) (oks rs)"
proof -
  have inv1: "db_inv (wDB w1)" using transacted_worlds(2) b db_run.run_inv [OF inv] by (metis snd_conv)
  have "nums \<noteq> []"
  proof
    assume "nums = []"
    then have "rs = []" using b by (simp add: chunkSeats.simps bulk_workers.simps)
    with e show False by simp
  qed
  then have r: "BulkReserve envs sched env u ev nums w =
      (Inl (Wrap ''bulk reserve failed'' e), bulk_rollback env 0 (oks rs) w1)"
    using n b e by (simp add: BulkReserve_def maxBulkSeats_def)
  show ?thesis
    using bulk_rollback_status [OF inv1 quiet] by (auto simp: r list_all_iff)
qed

lemma BulkReserve_rolls_back_witness:
  "fst (BulkReserve (\<lambda>n. quiet_senv ''succeeded'' 50 (60 + of_nat n)) (\<lambda>n. n)
     (quiet_senv ''succeeded'' 50 90) 1 3 [''R1-S1'', ''R1-S2''] demo_world) =
   Inl (Wrap ''bulk reserve failed'' SvcErrNoAvailableSeats)"
proof -
  let ?envs = "\<lambda>n. quiet_senv ''succeeded'' 50 (60 + of_nat n)"
  let ?bulk = "bulk_workers ?envs (\<lambda>n. n) 1 3 0 (chunkSeats [''R1-S1'', ''R1-S2''] bulkChunkSize) demo_world"
  let ?t = "50 + ReservationTimeout (sBooking (quiet_senv ''succeeded'' 50 60))"
  have cfg: "sBooking (quiet_senv sc t u) = sBooking (quiet_senv ''succeeded'' 50 60)" for sc t u by (simp add: quiet_senv_def)
  have c: "chunkSeats [''R1-S1'', ''R1-S2''] 50 = [[''R1-S1'', ''R1-S2'']]" by (simp add: chunkSeats.simps)
  let ?d = "reserve_db 50 (new_booking (quiet_env 50 60) 1 3 11 2500 ?t) demo_db"
  have inv: "db_inv ?d"
    using exec_tx_inv [OF demo_inv, of "TxReserve (quiet_env 50 60) 1 3 ''R1-S1'' ?t"]
    by (simp add: demo_reserve)
  have ev: "find_event ?d 3 = Some (take_away 50 (hd (events demo_db)))"
    by (simp add: find_event_def sql_update_def demo_db_def demo_defs new_booking_def take_away_def)
  have "eAvailableSeats (take_away 50 (hd (events demo_db))) \<le> 0"
    by (simp add: demo_db_def demo_defs take_away_def)
  then have full: "CreateReservation (quiet_env 50 61) ?d 1 3 ''R1-S2'' ?t = (Inl RepoErrNoAvailableSeats, ?d)"
    by (simp add: reserve_spec [OF inv] ev)
  have "first_err (fst ?bulk) = Some SvcErrNoAvailableSeats"
    by (simp add: bulkChunkSize_def c bulk_workers.simps Let_def ReserveSeat_def sbind_def shandle_def
        repo_def demo_reserve after_def sret_def cfg [of _ _ 61] full reserve_error_def split_beta)
  then obtain rs w1 where "?bulk = (rs, w1)" "first_err rs = Some SvcErrNoAvailableSeats"
    by (cases ?bulk) simp
  from BulkReserve_rolls_back [OF _ _ this, of "quiet_senv ''succeeded'' 50 90"] show ?thesis
    by (simp add: demo_inv split_beta)
qed

end
