(* ===== verification/Event_Stream_Theorems.thy ===== *)
theory Event_Stream_Theorems
  imports Event_Stream Service_Theorems
begin

text \<open>
  Every event the booking service publishes reaches the cache and the hub before its offset is
  committed, whatever fails on the way; a message that cannot be handled is in the dead-letter
  topic by then, unless that write failed.
\<close>

section \<open>Topics\<close>

lemma missing_topics_names:
  "tcTopic ` set (missing_topics p r ex seen names) = set names - {''''} - ex - set seen"
  by (induction names arbitrary: seen) auto

text \<open>After a successful \<open>EnsureTopics\<close> every topic the configuration names exists.\<close>

lemma EnsureTopics_ensures:
  assumes "EnsureTopics (Some k) bk = (Inr (), topics)" "kBrokers k \<noteq> []"
  shows "set (topic_names k) - {''''} \<subseteq> topics"
proof -
  have m: "tcTopic ` set (missingTopicConfigs k ex) = set (topic_names k) - {''''} - ex" for ex
    by (simp add: missingTopicConfigs_def missing_topics_names)
  have "set (topic_names k) - {''''} \<subseteq> ex" if "missingTopicConfigs k ex = []" for ex
    using m [of ex] that by auto
  moreover have "set (topic_names k) - {''''} \<subseteq> ex \<union> tcTopic ` set (missingTopicConfigs k ex)" for ex
    using m [of ex] by blast
  ultimately show ?thesis
    using assms by (auto simp: EnsureTopics_def Let_def split: sum.splits option.splits if_splits)
qed

text \<open>TLS and credentials follow the protocol.\<close>

lemma NewClient_security:
  assumes "NewClient k = Inr c"
  shows "clTLS c \<longleftrightarrow> KafkaSecurityProtocol k \<in> {''SSL'', ''SASL_SSL''}"
    "clSASL c \<noteq> None \<longleftrightarrow> HasPrefix (KafkaSecurityProtocol k) ''SASL_''"
  using assms by (auto simp: NewClient_def ebind_Inr_iff Let_def split: if_splits)

section \<open>Messages are settled before they are committed\<close>

definition settled :: "consumer_env \<Rightarrow> stored list \<Rightarrow> consumer \<Rightarrow> nat \<Rightarrow> bool" where
  "settled env msgs s i \<longleftrightarrow>
     (let dead = (\<lambda>ev. \<exists>reason. dead_letter_of env
            \<lparr>ceEvent = ev, ceRawValue = stRaw (msgs ! i), ceOffset = i\<rparr> reason \<in> set (cuDLQ s))
      in case stDecoded (msgs ! i) of
           Inl e \<Rightarrow> dead None
         | Inr ev \<Rightarrow> set (snd (handle env (Some ev))) \<subseteq> set (cuTrace s) \<and>
             (is_ok (fst (handle env (Some ev))) \<or> dead (Some ev)))"

definition consumer_inv :: "consumer_env \<Rightarrow> stored list \<Rightarrow> consumer \<Rightarrow> bool" where
  "consumer_inv env msgs s \<longleftrightarrow> cuCommitted s \<le> cuPosition s \<and> cuPosition s \<le> length msgs \<and>
     (\<forall>i<cuPosition s. settled env msgs s i)"

lemma settled_mono:
  "settled env msgs s i \<Longrightarrow> set (cuTrace s) \<subseteq> set (cuTrace s') \<Longrightarrow> set (cuDLQ s) \<subseteq> set (cuDLQ s') \<Longrightarrow>
   settled env msgs s' i"
  by (fastforce simp: settled_def Let_def split: sum.splits)

text \<open>A message of which handling cannot fail, and of which handling did not.\<close>

definition handled_ok :: "consumer_env \<Rightarrow> stored \<Rightarrow> bool" where
  "handled_ok env m \<longleftrightarrow> (case stDecoded m of Inl _ \<Rightarrow> False | Inr ev \<Rightarrow> is_ok (fst (handle env (Some ev))))"

lemma Ack_simps [simp]:
  "cuPosition (snd (Ack f c s)) = cuPosition s" "cuTrace (snd (Ack f c s)) = cuTrace s"
  "cuDLQ (snd (Ack f c s)) = cuDLQ s"
  by (auto simp: Ack_def redis_call_def split: option.splits)

lemma Ack_committed: "cuCommitted (snd (Ack f c s)) \<in> {cuCommitted s, Suc (ceOffset c)}"
  by (auto simp: Ack_def redis_call_def split: option.splits)

lemma deadLetterThenAck_simps:
  "cuPosition (deadLetterThenAck env fd fa c r s) = cuPosition s"
  "cuTrace (deadLetterThenAck env fd fa c r s) = cuTrace s"
  "set (cuDLQ s) \<subseteq> set (cuDLQ (deadLetterThenAck env fd fa c r s))"
  "fd = None \<Longrightarrow> dead_letter_of env c r \<in> set (cuDLQ (deadLetterThenAck env fd fa c r s))"
  by (auto simp: deadLetterThenAck_def DeadLetter_def redis_call_def split: option.splits)

lemma deadLetterThenAck_committed:
  "cuCommitted (deadLetterThenAck env fd fa c r s) \<in> {cuCommitted s, Suc (ceOffset c)}"
  using Ack_committed [where f = fa and c = c and s = "s\<lparr>cuDLQ := cuDLQ s @ [dead_letter_of env c r]\<rparr>"]
  by (simp add: deadLetterThenAck_def DeadLetter_def redis_call_def split: option.splits)

lemma settled_reset: "settled env msgs (s\<lparr>cuPosition := p\<rparr>) i = settled env msgs s i"
  by (simp add: settled_def split: sum.split)

lemma reset_inv: "consumer_inv env msgs s \<Longrightarrow> consumer_inv env msgs (s\<lparr>cuPosition := cuCommitted s\<rparr>)"
  unfolding consumer_inv_def settled_reset by simp

lemma turn_inv:
  assumes inv: "consumer_inv env msgs s" and dlq: "tuDLQ t = None \<or> list_all (handled_ok env) msgs"
  shows "consumer_inv env msgs (consumer_turn env msgs t s)"
proof (cases "tuFetch t = FetchNext \<and> cuPosition s < length msgs")
  case False
  then have "consumer_turn env msgs t s = s \<or>
      consumer_turn env msgs t s = s\<lparr>cuPosition := cuCommitted s\<rparr>"
    by (cases "tuFetch t") (simp_all add: consumer_turn_def Fetch_def)
  then show ?thesis using inv reset_inv [OF inv] by (elim disjE) simp_all
next
  case True
  let ?p = "cuPosition s" and ?s' = "consumer_turn env msgs t s"
  have r: "tuFetch t = FetchNext" "\<not> length msgs \<le> ?p" using True by simp_all
  have ok: "tuDLQ t = None \<or> handled_ok env (msgs ! ?p)"
    using dlq True by (auto simp: list_all_length)
  have "cuPosition ?s' = Suc ?p \<and> cuCommitted ?s' \<in> {cuCommitted s, Suc ?p} \<and>
      set (cuTrace s) \<subseteq> set (cuTrace ?s') \<and> set (cuDLQ s) \<subseteq> set (cuDLQ ?s') \<and> settled env msgs ?s' ?p"
  proof (cases "stDecoded (msgs ! ?p)")
    case (Inl e)
    with ok have "tuDLQ t = None" by (simp add: handled_ok_def)
    let ?c = "\<lparr>ceEvent = None, ceRawValue = stRaw (msgs ! ?p), ceOffset = ?p\<rparr>"
    have "?s' = deadLetterThenAck env (tuDLQ t) (tuAck t) ?c (err_Error (Wrap ''unmarshal booking event'' e))
        (s\<lparr>cuPosition := Suc ?p\<rparr>)"
      using r Inl by (simp add: consumer_turn_def Fetch_def Let_def)
    with deadLetterThenAck_simps [where env = env and fd = "tuDLQ t" and fa = "tuAck t" and c = ?c and
        r = "err_Error (Wrap ''unmarshal booking event'' e)" and s = "s\<lparr>cuPosition := Suc ?p\<rparr>"] deadLetterThenAck_committed [where env = env and fd = "tuDLQ t" and fa = "tuAck t" and c = ?c and
        r = "err_Error (Wrap ''unmarshal booking event'' e)" and s = "s\<lparr>cuPosition := Suc ?p\<rparr>"]
      \<open>tuDLQ t = None\<close> Inl
    show ?thesis by (auto simp: settled_def simp del: err_Error.simps)
  next
    case (Inr ev)
    let ?c = "\<lparr>ceEvent = Some ev, ceRawValue = stRaw (msgs ! ?p), ceOffset = ?p\<rparr>"
    let ?s1 = "s\<lparr>cuPosition := Suc ?p, cuTrace := cuTrace s @ snd (handle env (Some ev))\<rparr>"
    show ?thesis
    proof (cases "fst (handle env (Some ev))")
      case (Inl e)
      with ok Inr have "tuDLQ t = None" by (simp add: handled_ok_def)
      have "?s' = deadLetterThenAck env (tuDLQ t) (tuAck t) ?c (err_Error e) ?s1"
        using r Inr Inl by (cases "handle env (Some ev)") (simp add: consumer_turn_def Fetch_def Let_def)
      with deadLetterThenAck_simps [where env = env and fd = "tuDLQ t" and fa = "tuAck t" and c = ?c and
        r = "err_Error e" and s = ?s1]
        deadLetterThenAck_committed [where env = env and fd = "tuDLQ t" and fa = "tuAck t" and c = ?c and
        r = "err_Error e" and s = ?s1] \<open>tuDLQ t = None\<close> Inr
      show ?thesis by (auto simp: settled_def)
    next
      case (Inr u)
      have "?s' = snd (Ack (tuAck t) ?c ?s1)"
        using r \<open>stDecoded (msgs ! ?p) = Inr ev\<close> Inr
        by (cases "handle env (Some ev)") (simp add: consumer_turn_def Fetch_def Let_def)
      with Ack_committed [where f = "tuAck t" and c = ?c and s = ?s1] Inr \<open>stDecoded (msgs ! ?p) = Inr ev\<close>
      show ?thesis by (auto simp: settled_def)
    qed
  qed
  with inv True show ?thesis
    by (auto simp: consumer_inv_def less_Suc_eq intro: settled_mono)
qed

lemma run_consumer_inv:
  "consumer_inv env msgs s \<Longrightarrow> (\<forall>t\<in>set ts. tuDLQ t = None) \<or> list_all (handled_ok env) msgs \<Longrightarrow>
   consumer_inv env msgs (run_consumer env msgs ts s)"
proof (induction ts arbitrary: s)
  case (Cons t ts)
  then have "consumer_inv env msgs (consumer_turn env msgs t s)" by (intro turn_inv) auto
  with Cons show ?case by auto
qed simp

lemma fresh_consumer_inv: "consumer_inv env msgs fresh_consumer"
  by (simp add: consumer_inv_def fresh_consumer_def)

text \<open>
  At least once: when no dead-letter write fails, every message below the committed offset was
  handled with success, or is in the dead-letter topic.
\<close>

lemma committed_settled:
  assumes "(\<forall>t\<in>set ts. tuDLQ t = None) \<or> list_all (handled_ok env) msgs"
    and "i < cuCommitted (run_consumer env msgs ts fresh_consumer)"
  shows "i < length msgs \<and> settled env msgs (run_consumer env msgs ts fresh_consumer) i"
  using run_consumer_inv [OF fresh_consumer_inv assms(1)] assms(2) by (force simp: consumer_inv_def)

section \<open>From the booking service to the hub\<close>

text \<open>The seat status each event type of the service means.\<close>

definition seat_status_after :: "string \<Rightarrow> string" where
  "seat_status_after t = (if t = ''booking.reserved'' then ''reserved''
     else if t = ''booking.purchased'' then ''sold'' else ''available'')"

definition listening :: "lib \<Rightarrow> consumer_env \<Rightarrow> bool" where
  "listening L env \<longleftrightarrow> csCache env \<and> csHub env \<and> (\<forall>s u. uuid_Parse L s = Some u \<longrightarrow> csParse env s = Inr u)"

lemma handle_service_event:
  assumes "lib_ok L" "listening L env" "t \<in> service_types"
  shows "handle env (Some (event_of_booking L now t b md)) =
    (Inr (), [CacheDropped (bEventID b), SeatUpdate (bEventID b) (bSeatID b) (seat_status_after t)])"
  using assms by (auto simp: handle_def event_of_booking_def listening_def lib_ok_def service_types_def
      seatStatusForBookingEvent_def seat_status_after_def)

text \<open>What one publication leaves in the topic, and the partition a topic is read as.\<close>

record publication =
  pbType :: string
  pbBooking :: Booking
  pbNow :: time
  pbMetadata :: "(string \<times> string) list"
  pbRaw :: string

definition message_of :: "lib \<Rightarrow> publication \<Rightarrow> stored" where
  "message_of L p = \<lparr>stRaw = pbRaw p,
     stDecoded = Inr (event_of_booking L (pbNow p) (pbType p) (pbBooking p) (pbMetadata p))\<rparr>"

text \<open>
  What a topic or a partition of it can hold after calls of the service: publications of
  theirs, in any number and order (a publication may fail or be repeated).
\<close>

definition sent_by :: "publication list \<Rightarrow> world \<Rightarrow> bool" where
  "sent_by sent w \<longleftrightarrow> list_all (\<lambda>p. Published (pbType p) (pbBooking p) (pbMetadata p) \<in> set (wTrace w)) sent"

lemma sent_types:
  assumes "wTrace w = []" "sent_by sent (run exec_call calls w)"
  shows "list_all (\<lambda>p. pbType p \<in> service_types) sent"
  using assms(2) published_types [OF assms(1)] by (auto simp: sent_by_def list_all_iff)

lemma publish_appends:
  assumes "pdEnabled p"
  shows "map kmValue (snd (PublishBookingEvent (Some p) None L now t (Some b) md topic)) =
    map kmValue topic @ [event_of_booking L now t b md]"
  using assms by (simp add: PublishBookingEvent_def publish_event_def redis_call_def)

definition good_turn :: turn where
  "good_turn = \<lparr>tuFetch = FetchNext, tuDLQ = None, tuAck = None\<rparr>"

lemma turn_ok:
  assumes "list_all (handled_ok env) msgs" "cuDLQ s = []"
  shows "cuDLQ (consumer_turn env msgs t s) = []"
proof -
  have "handled_ok env (msgs ! cuPosition s)" if "cuPosition s < length msgs"
    using assms(1) that by (simp add: list_all_length)
  then show ?thesis using assms(2)
    by (auto simp: consumer_turn_def Fetch_def Let_def handled_ok_def is_ok_def
        split: fetch.splits sum.splits prod.splits)
qed

lemma run_ok:
  "list_all (handled_ok env) msgs \<Longrightarrow> cuDLQ s = [] \<Longrightarrow> cuDLQ (run_consumer env msgs ts s) = []"
  by (induction ts arbitrary: s) (simp_all add: turn_ok)

lemma good_turns:
  "list_all (handled_ok env) msgs \<Longrightarrow> cuPosition s = cuCommitted s \<Longrightarrow> cuCommitted s \<le> length msgs \<Longrightarrow>
   cuCommitted (run_consumer env msgs (replicate n good_turn) s) = min (cuCommitted s + n) (length msgs)"
proof (induction n arbitrary: s)
  case (Suc n)
  let ?s = "consumer_turn env msgs good_turn s"
  have "cuPosition ?s = cuCommitted ?s \<and> cuCommitted ?s = min (Suc (cuCommitted s)) (length msgs)"
  proof (cases "cuPosition s < length msgs")
    case True
    then have "handled_ok env (msgs ! cuPosition s)" using Suc.prems(1) by (simp add: list_all_length)
    then obtain ev where ev: "stDecoded (msgs ! cuPosition s) = Inr ev" "is_ok (fst (handle env (Some ev)))"
      by (auto simp: handled_ok_def split: sum.splits)
    then obtain es where "handle env (Some ev) = (Inr (), es)"
      by (cases "handle env (Some ev)") (auto simp: is_ok_def split: sum.splits)
    then show ?thesis using True Suc.prems ev
      by (simp add: consumer_turn_def good_turn_def Fetch_def Ack_def redis_call_def Let_def)
  next
    case False
    then show ?thesis using Suc.prems by (simp add: consumer_turn_def good_turn_def Fetch_def)
  qed
  with Suc show ?case by (simp add: good_turn_def)
qed simp

text \<open>
  C31. The events of the booking service reach their listeners. A consumer reads a partition
  with events that any calls of the service have published, with fetches that fail, readers
  that end and start over at the committed offset, and commits that fail, in any pattern:
  every event below the committed offset has dropped the event's cache entry and announced the
  seat's new status to the hub, and nothing goes to the dead-letter topic. Without faults,
  \<open>n\<close> turns commit \<open>n\<close> events, or all there are.
\<close>

theorem events_reach_listeners:
  assumes "lib_ok L" "listening L env" and calls: "wTrace w = []" "sent_by sent (run exec_call calls w)"
    and i: "i < cuCommitted (run_consumer env (map (message_of L) sent) ts fresh_consumer)"
  shows "i < length sent \<and> (let s = run_consumer env (map (message_of L) sent) ts fresh_consumer; b = pbBooking (sent ! i) in
      CacheDropped (bEventID b) \<in> set (cuTrace s) \<and>
      SeatUpdate (bEventID b) (bSeatID b) (seat_status_after (pbType (sent ! i))) \<in> set (cuTrace s) \<and>
      cuDLQ s = []) \<and>
    cuCommitted (run_consumer env (map (message_of L) sent) (replicate n good_turn) fresh_consumer) =
      min n (length sent)"
proof -
  let ?msgs = "map (message_of L) sent"
  have h: "handle env (Some (event_of_booking L (pbNow p) (pbType p) (pbBooking p) (pbMetadata p))) =
      (Inr (), [CacheDropped (bEventID (pbBooking p)),
         SeatUpdate (bEventID (pbBooking p)) (bSeatID (pbBooking p)) (seat_status_after (pbType p))])"
    if "p \<in> set sent" for p
    using sent_types [OF calls] that by (intro handle_service_event [OF assms(1,2)]) (auto simp: list_all_iff)
  have ok: "list_all (handled_ok env) ?msgs"
    by (auto simp: list_all_iff handled_ok_def message_of_def h)
  from committed_settled [OF disjI2 [OF ok] i] have i: "i < length sent"
    and s: "settled env ?msgs (run_consumer env ?msgs ts fresh_consumer) i" by simp_all
  have "cuDLQ (run_consumer env ?msgs ts fresh_consumer) = []"
    by (rule run_ok [OF ok]) (simp add: fresh_consumer_def)
  moreover have "cuCommitted (run_consumer env ?msgs (replicate n good_turn) fresh_consumer) = min n (length sent)"
    using good_turns [OF ok, of fresh_consumer n] by (simp add: fresh_consumer_def)
  ultimately show ?thesis
    using i s h [OF nth_mem [OF i]] by (simp add: settled_def message_of_def Let_def)
qed

definition demo_consumer_env :: consumer_env where
  "demo_consumer_env = \<lparr>csParse = (\<lambda>s. case uuid_Parse demo_lib s of
       None \<Rightarrow> Inl (Foreign ''invalid UUID'') | Some u \<Rightarrow> Inr u),
     csCache = True, csHub = True, csTopic = ''booking-events'', csDLQTopic = ''booking-events-dlq'',
     csPartition = 0\<rparr>"

text \<open>A reservation of the demonstration user, and the event it publishes.\<close>

definition demo_calls :: "call list" where
  "demo_calls = [CallReserve (quiet_senv ''succeeded'' 50 60) 1 3 ''R1-S1'']"

definition demo_reserved :: Booking where
  "demo_reserved = new_booking (quiet_env 50 60) 1 3 11 2500 (50 + 10 * Minute)"

definition demo_sent :: "publication list" where
  "demo_sent = [\<lparr>pbType = ''booking.reserved'', pbBooking = demo_reserved, pbNow = 60,
     pbMetadata = source, pbRaw = ''m0''\<rparr>]"

lemma demo_listening: "listening demo_lib demo_consumer_env"
  by (simp add: listening_def demo_consumer_env_def)

lemma demo_sent_by: "wTrace demo_world = []" "sent_by demo_sent (run exec_call demo_calls demo_world)"
proof -
  have "ReservationTimeout (sBooking (quiet_senv ''succeeded'' 50 60)) = 10 * Minute"
    by (simp add: quiet_senv_def ReservationTimeout_def wrap64_def Minute_def Second_def)
  then show "sent_by demo_sent (run exec_call demo_calls demo_world)"
    by (simp add: sent_by_def demo_sent_def demo_calls_def demo_reserved_def ReserveSeat_def sbind_def shandle_def
        repo_def Let_def demo_reserve after_def sret_def publishEvent_def trace_def quiet_senv_def)
qed (simp add: demo_world_def)

lemma demo_handled:
  "handle demo_consumer_env (Some (event_of_booking demo_lib 60 ''booking.reserved'' demo_reserved source)) =
    (Inr (), [CacheDropped 3, SeatUpdate 3 11 ''reserved''])"
  by (simp add: handle_service_event [OF demo_lib_ok demo_listening] service_types_def demo_reserved_def
      new_booking_def seat_status_after_def)

text \<open>A first commit that fails, a reader that starts over, then the event again.\<close>

lemma events_reach_listeners_witness:
  "SeatUpdate 3 11 ''reserved'' \<in> set (cuTrace (run_consumer demo_consumer_env (map (message_of demo_lib) demo_sent)
     [\<lparr>tuFetch = FetchNext, tuDLQ = None, tuAck = Some (Foreign ''timeout'', False)\<rparr>,
      \<lparr>tuFetch = FetchEOF, tuDLQ = None, tuAck = None\<rparr>, good_turn] fresh_consumer))"
proof -
  let ?ts = "[\<lparr>tuFetch = FetchNext, tuDLQ = None, tuAck = Some (Foreign ''timeout'', False)\<rparr>,
      \<lparr>tuFetch = FetchEOF, tuDLQ = None, tuAck = None\<rparr>, good_turn]"
  have c: "0 < cuCommitted (run_consumer demo_consumer_env (map (message_of demo_lib) demo_sent) ?ts fresh_consumer)"
    by (simp add: consumer_turn_def Fetch_def fresh_consumer_def demo_sent_def message_of_def demo_handled
        good_turn_def Ack_def redis_call_def Let_def)
  have b: "bEventID (pbBooking (demo_sent ! 0)) = 3" "bSeatID (pbBooking (demo_sent ! 0)) = 11"
    "seat_status_after (pbType (demo_sent ! 0)) = ''reserved''"
    by (simp_all add: demo_sent_def demo_reserved_def new_booking_def seat_status_after_def)
  show ?thesis
    using events_reach_listeners [OF demo_lib_ok demo_listening demo_sent_by c] unfolding Let_def b by blast
qed

text \<open>
  A message that can be neither handled nor dead-lettered is not acknowledged, but the
  acknowledgement of the next one commits an offset beyond it: it is not read again and is
  nowhere.
\<close>

lemma unacked_message_skipped:
  assumes "stDecoded m0 = Inl e" "stDecoded m1 = Inr ev" "fst (handle env (Some ev)) = Inr ()"
  shows "let s = run_consumer env [m0, m1] [good_turn\<lparr>tuDLQ := Some (e', False)\<rparr>, good_turn] fresh_consumer in
    cuCommitted s = 2 \<and> cuDLQ s = [] \<and> cuTrace s = snd (handle env (Some ev))"
  using assms
  by (cases "handle env (Some ev)") (simp add: consumer_turn_def Fetch_def good_turn_def fresh_consumer_def
      deadLetterThenAck_def DeadLetter_def Ack_def redis_call_def Let_def)

end
