(* ===== verification/Hub.thy ===== *)
theory Hub
  imports Payment "HOL-Library.Sublist"
begin

text \<open>
  internal/websocket/hub.go. Clients are pointers, numbered in the order they connect; a
  client's \<open>Send\<close> channel is its buffer and whether it is open. A send to a closed channel and
  a second \<open>close\<close> panic. JSON is the identity on messages.

  The hub's loop is the only place that changes \<open>Clients\<close> and closes channels; a turn of it is
  one step. Beside it, goroutines connect, read and write the sockets, and producers enqueue
  messages.
\<close>

section \<open>State\<close>

record Message =
  msType :: string
  msEventID :: uuid
  msSeatID :: uuid
  msData :: "(string \<times> string) list"

text \<open>
  \<open>hbReaders\<close> and \<open>hbWriters\<close> are the clients whose \<open>readPump\<close> and \<open>writePump\<close> run. The rest is
  history no operation reads: \<open>hbWritten\<close> is what \<open>writePump\<close> wrote to a socket, \<open>hbProcessed\<close> the
  messages the loop has taken from \<open>Broadcast\<close>, \<open>hbDropped\<close> those that found it full, \<open>hbFanout\<close>
  what was published to the other instances.
\<close>

record hub =
  hbClients :: "nat list"
  hbRegister :: "nat list"
  hbUnregister :: "nat list"
  hbBroadcast :: "Message list"
  hbSend :: "nat \<Rightarrow> Message list"
  hbOpen :: "nat \<Rightarrow> bool"
  hbEventIDs :: "nat \<Rightarrow> uuid set"
  hbNext :: nat
  hbReaders :: "nat list"
  hbWriters :: "nat list"
  hbWritten :: "nat \<Rightarrow> Message list"
  hbProcessed :: "Message list"
  hbDropped :: "Message list"
  hbFanout :: "(string \<times> Message) list"
  hbPanic :: bool

definition broadcastQueueSize :: nat where "broadcastQueueSize = 512"
definition registerQueueSize :: nat where "registerQueueSize = 64"
definition unregisterQueueSize :: nat where "unregisterQueueSize = 64"
definition clientSendBufferSize :: nat where "clientSendBufferSize = 256"

lemmas hub_sizes = broadcastQueueSize_def registerQueueSize_def unregisterQueueSize_def
  clientSendBufferSize_def

definition NewHubWithConfig :: hub where
  "NewHubWithConfig = \<lparr>hbClients = [], hbRegister = [], hbUnregister = [], hbBroadcast = [],
     hbSend = (\<lambda>_. []), hbOpen = (\<lambda>_. False), hbEventIDs = (\<lambda>_. {}), hbNext = 0, hbReaders = [],
     hbWriters = [], hbWritten = (\<lambda>_. []), hbProcessed = [], hbDropped = [], hbFanout = [], hbPanic = False\<rparr>"

section \<open>Operations\<close>

text \<open>\<open>allowed\<close> are the configured origins.\<close>

definition checkOrigin :: "string list \<Rightarrow> string \<Rightarrow> bool" where
  "checkOrigin allowed origin \<longleftrightarrow> origin = '''' \<or> IsOriginAllowed allowed origin"

definition close_channel :: "nat \<Rightarrow> hub \<Rightarrow> hub" where
  "close_channel c h = (if hbOpen h c then hbOpen_update (\<lambda>f. f(c := False)) h else h\<lparr>hbPanic := True\<rparr>)"

definition removeClient :: "nat \<Rightarrow> hub \<Rightarrow> hub" where
  "removeClient c h = (if c \<in> set (hbClients h)
     then close_channel c (h\<lparr>hbClients := removeAll c (hbClients h)\<rparr>) else h)"

definition subscribe :: "nat \<Rightarrow> uuid \<Rightarrow> hub \<Rightarrow> hub" where
  "subscribe c eventID = hbEventIDs_update (\<lambda>f. f(c := insert eventID (f c)))"

definition subscribedTo :: "hub \<Rightarrow> nat \<Rightarrow> uuid \<Rightarrow> bool" where
  "subscribedTo h c eventID \<longleftrightarrow> eventID \<in> hbEventIDs h c"

text \<open>The sends of one delivery, with the clients whose buffer is full.\<close>

fun send_all :: "Message \<Rightarrow> nat list \<Rightarrow> hub \<Rightarrow> nat list \<times> hub" where
  "send_all m [] h = ([], h)"
| "send_all m (c # cs) h =
     (if \<not> hbOpen h c then send_all m cs (h\<lparr>hbPanic := True\<rparr>)
      else if length (hbSend h c) < clientSendBufferSize
        then send_all m cs (hbSend_update (\<lambda>f. f(c := f c @ [m])) h)
      else case send_all m cs h of (stale, h') \<Rightarrow> (c # stale, h'))"

definition deliverToClients :: "Message \<Rightarrow> hub \<Rightarrow> hub" where
  "deliverToClients m h =
     (let recipients = filter (\<lambda>c. msEventID m = uuid_Nil \<or> subscribedTo h c (msEventID m)) (hbClients h)
      in case send_all m recipients h of (stale, h') \<Rightarrow> fold removeClient stale h')"

text \<open>A full queue drops the message.\<close>

definition broadcastLocal :: "Message \<Rightarrow> hub \<Rightarrow> hub" where
  "broadcastLocal m h = (if length (hbBroadcast h) < broadcastQueueSize
     then hbBroadcast_update (\<lambda>q. q @ [m]) h else hbDropped_update (\<lambda>q. q @ [m]) h)"

text \<open>\<open>redis\<close>: the client is set, and \<open>fails\<close> when the publication fails, which is only logged.\<close>

definition publishFanout :: "bool \<Rightarrow> bool \<Rightarrow> string \<Rightarrow> Message \<Rightarrow> hub \<Rightarrow> hub" where
  "publishFanout redis fails instanceID m h =
     (if \<not> redis \<or> fails then h else hbFanout_update (\<lambda>l. l @ [(instanceID, m)]) h)"

definition BroadcastSeatUpdate ::
  "lib \<Rightarrow> bool \<Rightarrow> bool \<Rightarrow> string \<Rightarrow> uuid \<Rightarrow> uuid \<Rightarrow> string \<Rightarrow> hub \<Rightarrow> hub" where
  "BroadcastSeatUpdate L redis fails instanceID eventID seatID status h =
     (let message = \<lparr>msType = ''seat_update'', msEventID = eventID, msSeatID = seatID,
            msData = [(''seat_id'', uuid_String L seatID), (''status'', status)]\<rparr>
      in publishFanout redis fails instanceID message (broadcastLocal message h))"

text \<open>
  A message of the fan-out channel: \<open>None\<close> when it does not decode; the envelope's message may
  be absent.
\<close>

definition StartFanout :: "string \<Rightarrow> (string \<times> Message option) option \<Rightarrow> hub \<Rightarrow> hub" where
  "StartFanout instanceID payload h =
     (case payload of
        Some (source, Some m) \<Rightarrow> if source = instanceID then h else broadcastLocal m h
      | _ \<Rightarrow> h)"

definition HandleClient :: "hub \<Rightarrow> hub" where
  "HandleClient h = (let c = hbNext h in
     h\<lparr>hbRegister := hbRegister h @ [c], hbNext := Suc c, hbReaders := c # hbReaders h, hbWriters := c # hbWriters h,
       hbSend := (hbSend h)(c := []), hbOpen := (hbOpen h)(c := True), hbEventIDs := (hbEventIDs h)(c := {})\<rparr>)"

text \<open>
  A message a client sends: \<open>None\<close> when it is not a JSON object, else its fields that are
  strings.
\<close>

definition readPump :: "lib \<Rightarrow> nat \<Rightarrow> (string \<Rightarrow> string option) option \<Rightarrow> hub \<Rightarrow> hub" where
  "readPump L c message h =
     (case message of None \<Rightarrow> h
      | Some msg \<Rightarrow>
          if msg ''type'' \<noteq> Some ''subscribe'' then h
          else case msg ''event_id'' of None \<Rightarrow> h
          | Some eventIDStr \<Rightarrow> (case uuid_Parse L eventIDStr of None \<Rightarrow> h
              | Some eventID \<Rightarrow> subscribe c eventID h))"

text \<open>
  A turn of the loop over \<open>c.Send\<close>: it writes the next message, and stops when that fails or
  the channel is closed and empty.
\<close>

definition writePump :: "bool \<Rightarrow> nat \<Rightarrow> hub \<Rightarrow> hub" where
  "writePump ok c h =
     (case hbSend h c of
        [] \<Rightarrow> if hbOpen h c then h else h\<lparr>hbWriters := removeAll c (hbWriters h)\<rparr>
      | m # ms \<Rightarrow>
          let h' = h\<lparr>hbSend := (hbSend h)(c := ms)\<rparr> in
          if ok then h'\<lparr>hbWritten := (hbWritten h)(c := hbWritten h c @ [m])\<rparr>
          else h'\<lparr>hbWriters := removeAll c (hbWriters h)\<rparr>)"

section \<open>Steps\<close>

text \<open>
  The three cases of \<open>Run\<close>'s \<open>select\<close>, a connection, a socket read, the end of \<open>readPump\<close>, a
  turn of \<open>writePump\<close>, and a message of a producer or of another instance. A goroutine
  that sends to a full channel waits.
\<close>

inductive hub_step :: "lib \<Rightarrow> hub \<Rightarrow> hub \<Rightarrow> bool" for L where
  registers: "hbRegister h = c # cs \<Longrightarrow>
    hub_step L h (h\<lparr>hbRegister := cs, hbClients := List.insert c (hbClients h)\<rparr>)"
| unregisters: "hbUnregister h = c # cs \<Longrightarrow> hub_step L h (removeClient c (h\<lparr>hbUnregister := cs\<rparr>))"
| broadcasts: "hbBroadcast h = m # ms \<Longrightarrow>
    hub_step L h (deliverToClients m (h\<lparr>hbBroadcast := ms, hbProcessed := hbProcessed h @ [m]\<rparr>))"
| connects: "length (hbRegister h) < registerQueueSize \<Longrightarrow> hub_step L h (HandleClient h)"
| reads: "c \<in> set (hbReaders h) \<Longrightarrow> hub_step L h (readPump L c message h)"
| disconnects: "c \<in> set (hbReaders h) \<Longrightarrow> length (hbUnregister h) < unregisterQueueSize \<Longrightarrow>
    hub_step L h (h\<lparr>hbReaders := removeAll c (hbReaders h), hbUnregister := hbUnregister h @ [c]\<rparr>)"
| writes: "c \<in> set (hbWriters h) \<Longrightarrow> hub_step L h (writePump ok c h)"
| produces: "hub_step L h (BroadcastSeatUpdate L redis fails instanceID eventID seatID status h)"
| receives: "hub_step L h (StartFanout instanceID payload h)"

definition hub_reachable :: "lib \<Rightarrow> hub \<Rightarrow> bool" where
  "hub_reachable L = (hub_step L)\<^sup>*\<^sup>* NewHubWithConfig"

section \<open>Invariant\<close>

definition for_client :: "hub \<Rightarrow> nat \<Rightarrow> Message \<Rightarrow> bool" where
  "for_client h c m \<longleftrightarrow> msEventID m = uuid_Nil \<or> msEventID m \<in> hbEventIDs h c"

text \<open>What is in a client's channel or was written to it, in order.\<close>

definition got :: "hub \<Rightarrow> nat \<Rightarrow> Message list" where
  "got h c = hbWritten h c @ hbSend h c"

definition hub_inv :: "hub \<Rightarrow> bool" where
  "hub_inv h \<longleftrightarrow> \<not> hbPanic h \<and> distinct (hbRegister h @ hbClients h) \<and>
     (\<forall>c\<in>set (hbRegister h @ hbClients h). hbOpen h c \<and> c < hbNext h) \<and>
     length (hbBroadcast h) \<le> broadcastQueueSize \<and>
     (\<forall>c. length (hbSend h c) \<le> clientSendBufferSize \<and> (hbNext h \<le> c \<longrightarrow> got h c = []) \<and>
       (\<forall>m\<in>set (got h c). for_client h c m) \<and> subseq (got h c) (hbProcessed h))"

lemma hub_inv_frame:
  assumes "hub_inv h" "hbPanic h' = hbPanic h" "hbRegister h' = hbRegister h" "hbClients h' = hbClients h"
    "hbOpen h' = hbOpen h" "hbNext h' = hbNext h" "hbSend h' = hbSend h" "hbWritten h' = hbWritten h"
    "hbProcessed h' = hbProcessed h" "length (hbBroadcast h') \<le> broadcastQueueSize"
    "\<And>c. hbEventIDs h c \<subseteq> hbEventIDs h' c"
  shows "hub_inv h'"
proof -
  have g: "got h' = got h" by (simp add: got_def fun_eq_iff assms)
  have "for_client h c m \<Longrightarrow> for_client h' c m" for c m
    using assms(11) by (auto simp: for_client_def)
  then show ?thesis using assms(1) unfolding hub_inv_def g assms(2-9) by (simp add: assms(10))
qed

lemma hub_inv_queue: "hub_inv h \<Longrightarrow> length (hbBroadcast h) \<le> broadcastQueueSize"
  by (simp add: hub_inv_def)

lemma broadcastLocal_inv: "hub_inv h \<Longrightarrow> hub_inv (broadcastLocal m h)"
  by (rule hub_inv_frame [of h]) (auto simp: broadcastLocal_def hub_inv_def)

lemma publishFanout_inv: "hub_inv h \<Longrightarrow> hub_inv (publishFanout r f i m h)"
  by (rule hub_inv_frame [of h]) (auto simp: publishFanout_def hub_inv_def)

lemma removeClient_open:
  "(c \<in> set (hbClients h) \<Longrightarrow> hbOpen h c) \<Longrightarrow>
   removeClient c h = h\<lparr>hbClients := removeAll c (hbClients h),
     hbOpen := (\<lambda>d. hbOpen h d \<and> \<not> (d = c \<and> c \<in> set (hbClients h)))\<rparr>"
  by (cases h) (auto simp: removeClient_def close_channel_def fun_eq_iff removeAll_id)

lemma removeClient_inv:
  assumes "hub_inv h" shows "hub_inv (removeClient c h)"
proof -
  have "c \<in> set (hbClients h) \<Longrightarrow> hbOpen h c" using assms by (simp add: hub_inv_def)
  from removeClient_open [OF this] show ?thesis
    using assms by (auto simp: hub_inv_def got_def for_client_def distinct_removeAll)
qed

lemma fold_removeClient_inv: "hub_inv h \<Longrightarrow> hub_inv (fold removeClient cs h)"
  by (induction cs arbitrary: h) (simp_all add: removeClient_inv)

text \<open>Sending to open channels appends to those with room and returns the others.\<close>

lemma send_all_open:
  "distinct cs \<Longrightarrow> \<forall>c\<in>set cs. hbOpen h c \<Longrightarrow>
   send_all m cs h = (filter (\<lambda>c. \<not> length (hbSend h c) < clientSendBufferSize) cs,
     h\<lparr>hbSend := (\<lambda>c. if c \<in> set cs \<and> length (hbSend h c) < clientSendBufferSize
        then hbSend h c @ [m] else hbSend h c)\<rparr>)"
proof (induction cs arbitrary: h)
  case (Cons d cs)
  let ?h = "if length (hbSend h d) < clientSendBufferSize
    then hbSend_update (\<lambda>f. f(d := f d @ [m])) h else h"
  have "\<forall>c\<in>set cs. hbOpen ?h c" using Cons.prems(2) by simp
  note IH = Cons.IH [OF _ this]
  have d: "distinct cs" "d \<notin> set cs" "hbOpen h d" using Cons.prems by simp_all
  have f: "filter (\<lambda>c. \<not> length (hbSend ?h c) < clientSendBufferSize) cs =
      filter (\<lambda>c. \<not> length (hbSend h c) < clientSendBufferSize) cs"
    using d(2) by (intro filter_cong) auto
  show ?case
    using IH d f by (cases "length (hbSend h d) < clientSendBufferSize")
      (auto simp: fun_eq_iff intro!: hub.equality)
qed (simp add: fun_eq_iff)

definition recipients :: "Message \<Rightarrow> hub \<Rightarrow> nat list" where
  "recipients m h = filter (\<lambda>c. msEventID m = uuid_Nil \<or> subscribedTo h c (msEventID m)) (hbClients h)"

definition has_room :: "hub \<Rightarrow> nat \<Rightarrow> bool" where
  "has_room h c \<longleftrightarrow> length (hbSend h c) < clientSendBufferSize"

lemma deliver_eq:
  assumes "hub_inv h"
  shows "deliverToClients m h = fold removeClient (filter (\<lambda>c. \<not> has_room h c) (recipients m h))
    (h\<lparr>hbSend := (\<lambda>c. if c \<in> set (recipients m h) \<and> has_room h c then hbSend h c @ [m] else hbSend h c)\<rparr>)"
proof -
  have "distinct (recipients m h)" "\<forall>c\<in>set (recipients m h). hbOpen h c"
    using assms by (auto simp: recipients_def hub_inv_def)
  from send_all_open [OF this] show ?thesis
    by (simp add: deliverToClients_def recipients_def has_room_def Let_def)
qed

lemma removeClient_frame [simp]:
  "hbSend (removeClient c h) = hbSend h" "hbWritten (removeClient c h) = hbWritten h"
  "hbProcessed (removeClient c h) = hbProcessed h"
  by (simp_all add: removeClient_def close_channel_def)

lemma fold_removeClient [simp]:
  "hbSend (fold removeClient cs h) = hbSend h" "hbWritten (fold removeClient cs h) = hbWritten h"
  by (induction cs arbitrary: h) simp_all

lemma subseq_snoc: "subseq xs ys \<Longrightarrow> subseq xs (ys @ [m])"
  using list_emb_append_mono [of "(=)" xs ys "[]" "[m]"] by simp

lemma deliver_inv:
  assumes inv: "hub_inv h" and ms: "length ms \<le> broadcastQueueSize"
  shows "hub_inv (deliverToClients m (h\<lparr>hbBroadcast := ms, hbProcessed := hbProcessed h @ [m]\<rparr>))"
proof -
  let ?h = "h\<lparr>hbBroadcast := ms, hbProcessed := hbProcessed h @ [m]\<rparr>"
  let ?send = "\<lambda>c. if c \<in> set (recipients m ?h) \<and> has_room ?h c then hbSend ?h c @ [m] else hbSend ?h c"
  let ?h1 = "?h\<lparr>hbSend := ?send\<rparr>"
  have h: "hub_inv ?h" using inv ms by (auto simp: hub_inv_def got_def for_client_def intro: subseq_snoc)
  have rec: "c < hbNext h \<and> for_client h c m" if "c \<in> set (recipients m ?h)" for c
    using that inv by (auto simp: recipients_def subscribedTo_def for_client_def hub_inv_def)
  have g: "got ?h1 c = got h c @ (if c \<in> set (recipients m ?h) \<and> has_room ?h c then [m] else [])" for c
    by (simp add: got_def)
  have fc: "for_client ?h1 c x = for_client h c x" for c x by (simp add: for_client_def)
  have c: "length (?send c) \<le> clientSendBufferSize \<and> (hbNext h \<le> c \<longrightarrow> got ?h1 c = []) \<and>
      (\<forall>x\<in>set (got ?h1 c). for_client h c x) \<and> subseq (got ?h1 c) (hbProcessed h @ [m])" for c
  proof -
    have i: "length (hbSend h c) \<le> clientSendBufferSize" "hbNext h \<le> c \<Longrightarrow> got h c = []"
      "\<forall>x\<in>set (got h c). for_client h c x" "subseq (got h c) (hbProcessed h)"
      using inv by (simp_all add: hub_inv_def)
    show ?thesis
    proof (cases "c \<in> set (recipients m ?h) \<and> has_room ?h c")
      case True
      with i rec [of c] show ?thesis unfolding g by (simp add: has_room_def Suc_le_eq)
    next
      case False
      with i show ?thesis unfolding g by (auto intro: subseq_snoc)
    qed
  qed
  have "hub_inv ?h1"
    using inv ms c unfolding hub_inv_def fc by simp
  then show ?thesis
    unfolding deliver_eq [OF h] by (rule fold_removeClient_inv)
qed

lemma removeClient_out: "c \<notin> set (hbClients h) \<Longrightarrow> c \<notin> set (hbClients (removeClient d h))"
  "c \<notin> set (hbClients (removeClient c h))"
  by (auto simp: removeClient_def close_channel_def)

lemma fold_removeClient_stays:
  "c \<notin> set (hbClients h) \<Longrightarrow> c \<notin> set (hbClients (fold removeClient cs h))"
  by (induction cs arbitrary: h) (simp_all add: removeClient_out)

lemma fold_removeClient_out: "c \<in> set cs \<Longrightarrow> c \<notin> set (hbClients (fold removeClient cs h))"
proof (induction cs arbitrary: h)
  case (Cons d cs)
  then show ?case by (cases "d = c") (simp_all add: fold_removeClient_stays removeClient_out(2))
qed simp

lemma register_inv:
  assumes "hub_inv h" "hbRegister h = c # cs"
  shows "hub_inv (h\<lparr>hbRegister := cs, hbClients := List.insert c (hbClients h)\<rparr>)"
  using assms by (auto simp: hub_inv_def got_def for_client_def List.insert_def)

lemma connect_inv:
  assumes inv: "hub_inv h" shows "hub_inv (HandleClient h)"
proof -
  have n: "hbNext h \<notin> set (hbRegister h @ hbClients h)" using inv by (auto simp: hub_inv_def)
  have w: "got h (hbNext h) = []" using inv by (simp add: hub_inv_def)
  have g: "got (HandleClient h) c = got h c" for c
    using w by (simp add: got_def HandleClient_def Let_def)
  have f: "x \<in> set (got h c) \<Longrightarrow> for_client (HandleClient h) c x = for_client h c x" for c x
    using w by (cases "c = hbNext h") (simp_all add: for_client_def HandleClient_def Let_def)
  have s: "length (hbSend (HandleClient h) c) \<le> clientSendBufferSize" for c
    using inv by (simp add: hub_inv_def HandleClient_def Let_def)
  have "distinct (hbRegister (HandleClient h) @ hbClients (HandleClient h))"
    "\<forall>c\<in>set (hbRegister (HandleClient h) @ hbClients (HandleClient h)).
       hbOpen (HandleClient h) c \<and> c < hbNext (HandleClient h)"
    using inv n by (auto simp: hub_inv_def HandleClient_def Let_def intro: less_SucI)
  then show ?thesis
    unfolding hub_inv_def g using inv f s by (simp add: hub_inv_def HandleClient_def Let_def Suc_le_eq)
qed

lemma write_inv:
  assumes inv: "hub_inv h" shows "hub_inv (writePump ok c h)"
proof (cases "hbSend h c")
  case Nil
  with inv show ?thesis by (simp add: writePump_def hub_inv_def got_def for_client_def)
next
  case (Cons m ms)
  let ?h = "writePump ok c h"
  have g: "subseq (got ?h d) (got h d)" for d
    using Cons by (auto simp: writePump_def got_def Let_def intro!: list_emb_append_mono)
  have same: "hbPanic ?h = hbPanic h" "hbRegister ?h = hbRegister h" "hbClients ?h = hbClients h"
    "hbOpen ?h = hbOpen h" "hbNext ?h = hbNext h" "hbProcessed ?h = hbProcessed h"
    "hbBroadcast ?h = hbBroadcast h" "hbEventIDs ?h = hbEventIDs h"
    using Cons by (simp_all add: writePump_def Let_def)
  have "length (hbSend ?h d) \<le> clientSendBufferSize \<and> (hbNext h \<le> d \<longrightarrow> got ?h d = []) \<and>
      (\<forall>m\<in>set (got ?h d). for_client h d m) \<and> subseq (got ?h d) (hbProcessed h)" for d
  proof -
    have i: "length (hbSend h d) \<le> clientSendBufferSize" "hbNext h \<le> d \<Longrightarrow> got h d = []"
      "\<forall>x\<in>set (got h d). for_client h d x" "subseq (got h d) (hbProcessed h)"
      using inv by (simp_all add: hub_inv_def)
    have "set (got ?h d) \<subseteq> set (got h d)" using g [of d] by (auto elim: list_emb_set)
    moreover have "got h d = [] \<Longrightarrow> got ?h d = []" using g [of d] by simp
    moreover have "length (hbSend ?h d) \<le> length (hbSend h d)" using Cons by (simp add: writePump_def Let_def)
    ultimately show ?thesis using i subseq_order.trans [OF g [of d] i(4)] by auto
  qed
  then show ?thesis
    using inv unfolding hub_inv_def for_client_def same by simp
qed

lemma hub_step_inv: "hub_step L h h' \<Longrightarrow> hub_inv h \<Longrightarrow> hub_inv h'"
proof (induction rule: hub_step.induct)
  case (registers h c cs)
  then show ?case using register_inv by blast
next
  case (unregisters h c cs)
  then have "hub_inv (h\<lparr>hbUnregister := cs\<rparr>)"
    by - (rule hub_inv_frame [of h], simp_all add: hub_inv_queue)
  then show ?case by (rule removeClient_inv)
next
  case (broadcasts h m ms)
  then have "length ms \<le> broadcastQueueSize" using hub_inv_queue [of h] by simp
  with broadcasts show ?case by (intro deliver_inv)
next
  case (connects h)
  then show ?case using connect_inv by blast
next
  case (reads c h message)
  then show ?case
    by - (rule hub_inv_frame [of h],
      auto simp: readPump_def subscribe_def hub_inv_queue split: option.splits)
next
  case (disconnects c h)
  then show ?case by - (rule hub_inv_frame [of h], simp_all add: hub_inv_queue)
next
  case (writes c h ok)
  then show ?case using write_inv by blast
next
  case produces
  then show ?case by (simp add: BroadcastSeatUpdate_def Let_def broadcastLocal_inv publishFanout_inv)
next
  case receives
  then show ?case by (simp add: StartFanout_def broadcastLocal_inv split: option.splits)
qed

lemma NewHub_inv: "hub_inv NewHubWithConfig"
  by (simp add: hub_inv_def NewHubWithConfig_def got_def hub_sizes)

interpretation hub_run: rooted_system "hub_step L" hub_inv NewHubWithConfig for L
  by unfold_locales (use hub_step_inv NewHub_inv in blast)+

lemma reachable_inv: "hub_reachable L h \<Longrightarrow> hub_inv h"
  unfolding hub_reachable_def by (rule hub_run.from_root)

lemma reachable_step: "hub_reachable L h \<Longrightarrow> hub_step L h h' \<Longrightarrow> hub_reachable L h'"
  unfolding hub_reachable_def by (rule rtranclp.rtrancl_into_rtrancl)

text \<open>
  C40. The hub, with connections, subscriptions, disconnections, socket writes that may fail
  and messages from anywhere in any order: it never sends to a closed channel and never closes one twice,
  its channels stay within their capacities, and every client gets a subsequence, in order
  and without repetition, of the messages the loop processed, each of an event the client
  subscribed to (or of none). When the loop takes a message, each client that is connected
  and subscribed gets it next if its buffer has room, and is disconnected otherwise.
\<close>

theorem hub_delivers:
  assumes "hub_reachable L h"
  shows "\<not> hbPanic h \<and> length (hbBroadcast h) \<le> 512 \<and>
    (\<forall>c. length (hbSend h c) \<le> 256 \<and> subseq (got h c) (hbProcessed h) \<and>
      (\<forall>m\<in>set (got h c). msEventID m = uuid_Nil \<or> subscribedTo h c (msEventID m))) \<and>
    (\<forall>c m. c \<in> set (hbClients h) \<and> subscribedTo h c (msEventID m) \<longrightarrow>
      hbOpen h c \<and>
      (if length (hbSend h c) < 256 then got (deliverToClients m h) c = got h c @ [m]
       else got (deliverToClients m h) c = got h c \<and> c \<notin> set (hbClients (deliverToClients m h))))"
proof -
  have inv: "hub_inv h" using assms by (rule reachable_inv)
  have d: "hbOpen h c \<and> (if length (hbSend h c) < 256 then got (deliverToClients m h) c = got h c @ [m]
       else got (deliverToClients m h) c = got h c \<and> c \<notin> set (hbClients (deliverToClients m h)))"
    if c: "c \<in> set (hbClients h)" "subscribedTo h c (msEventID m)" for c m
  proof -
    have r: "c \<in> set (recipients m h)" using c by (simp add: recipients_def)
    have o: "hbOpen h c" using inv c(1) by (simp add: hub_inv_def)
    show ?thesis
    proof (cases "has_room h c")
      case True
      with r o show ?thesis
        by (simp add: deliver_eq [OF inv] got_def has_room_def clientSendBufferSize_def)
    next
      case False
      with r have "c \<in> set (filter (\<lambda>c. \<not> has_room h c) (recipients m h))" by simp
      from fold_removeClient_out [OF this] False o show ?thesis
        by (simp add: deliver_eq [OF inv] got_def has_room_def clientSendBufferSize_def)
    qed
  qed
  from inv have i: "\<not> hbPanic h" "length (hbBroadcast h) \<le> 512" "length (hbSend h c) \<le> 256"
    "subseq (got h c) (hbProcessed h)" "m \<in> set (got h c) \<Longrightarrow> for_client h c m" for c m
    by (simp_all add: hub_inv_def hub_sizes)
  show ?thesis using i d unfolding for_client_def subscribedTo_def by blast
qed

text \<open>A client connects, is registered and subscribes to event 3.\<close>

definition demo_hub :: hub where
  "demo_hub = NewHubWithConfig\<lparr>hbClients := [0], hbOpen := (\<lambda>_. False)(0 := True), hbNext := 1,
     hbReaders := [0], hbWriters := [0], hbEventIDs := (\<lambda>_. {})(0 := {3})\<rparr>"

lemma demo_hub_reachable: "hub_reachable demo_lib demo_hub"
proof -
  let ?h1 = "HandleClient NewHubWithConfig"
  let ?h2 = "?h1\<lparr>hbRegister := [], hbClients := List.insert 0 (hbClients ?h1)\<rparr>"
  have 0: "hub_reachable demo_lib NewHubWithConfig" by (simp add: hub_reachable_def)
  have "hub_reachable demo_lib ?h1"
    by (rule reachable_step [OF 0 hub_step.connects]) (simp add: NewHubWithConfig_def hub_sizes)
  moreover have "hbRegister ?h1 = [0]" by (simp add: HandleClient_def NewHubWithConfig_def)
  ultimately have "hub_reachable demo_lib ?h2"
    using reachable_step hub_step.registers by blast
  moreover have "0 \<in> set (hbReaders ?h2)" by (simp add: HandleClient_def NewHubWithConfig_def)
  ultimately have r: "hub_reachable demo_lib (readPump demo_lib 0 (Some ((\<lambda>_. None)
      (''type'' := Some ''subscribe'', ''event_id'' := Some ''3''))) ?h2)"
    using reachable_step hub_step.reads by blast
  have "uuid_Parse demo_lib ''3'' = Some 3" by code_simp
  then have "readPump demo_lib 0 (Some ((\<lambda>_. None) (''type'' := Some ''subscribe'', ''event_id'' := Some ''3''))) ?h2
      = demo_hub"
    by (simp add: readPump_def subscribe_def demo_hub_def HandleClient_def NewHubWithConfig_def fun_eq_iff)
  with r show ?thesis by simp
qed

lemma hub_delivers_witness:
  "let m = \<lparr>msType = ''seat_update'', msEventID = 3, msSeatID = 12, msData = []\<rparr> in
   got (deliverToClients m demo_hub) 0 = [m] \<and> \<not> hbPanic demo_hub"
proof -
  let ?m = "\<lparr>msType = ''seat_update'', msEventID = 3, msSeatID = 12, msData = []\<rparr>"
  note t = hub_delivers [OF demo_hub_reachable]
  have "0 \<in> set (hbClients demo_hub) \<and> subscribedTo demo_hub 0 (msEventID ?m)"
    "length (hbSend demo_hub 0) < 256" "got demo_hub 0 = []"
    by (simp_all add: demo_hub_def NewHubWithConfig_def subscribedTo_def got_def)
  with t show ?thesis unfolding Let_def by (metis append_Nil)
qed

text \<open>
  A client whose socket closes at once may be unregistered before it is registered: the loop
  picks either channel. It then stays connected, with nobody left to unregister it.
\<close>

lemma unregistered_first:
  "\<exists>h. hub_reachable L h \<and> hbClients h = [0] \<and> hbReaders h = [] \<and> hbUnregister h = [] \<and> hbRegister h = []"
proof -
  let ?h1 = "HandleClient NewHubWithConfig"
  let ?h2 = "?h1\<lparr>hbReaders := removeAll 0 (hbReaders ?h1), hbUnregister := hbUnregister ?h1 @ [0]\<rparr>"
  let ?h3 = "removeClient 0 (?h2\<lparr>hbUnregister := []\<rparr>)"
  let ?h4 = "?h3\<lparr>hbRegister := [], hbClients := List.insert 0 (hbClients ?h3)\<rparr>"
  have e: "hbReaders ?h1 = [0]" "hbUnregister ?h1 = []" "hbRegister ?h1 = [0]" "hbClients ?h1 = []"
    by (simp_all add: HandleClient_def NewHubWithConfig_def)
  have 0: "hub_reachable L NewHubWithConfig" by (simp add: hub_reachable_def)
  have 1: "hub_reachable L ?h1"
    by (rule reachable_step [OF 0 hub_step.connects]) (simp add: NewHubWithConfig_def hub_sizes)
  have 2: "hub_reachable L ?h2"
    by (rule reachable_step [OF 1 hub_step.disconnects]) (simp_all add: e hub_sizes)
  have 3: "hub_reachable L ?h3"
    by (rule reachable_step [OF 2 hub_step.unregisters]) (simp add: e)
  have r: "hbRegister ?h3 = [0]" "hbClients ?h3 = []" "hbReaders ?h3 = []" "hbUnregister ?h3 = []"
    by (simp_all add: removeClient_def HandleClient_def NewHubWithConfig_def)
  have "hub_reachable L ?h4"
    by (rule reachable_step [OF 3 hub_step.registers [OF r(1)]])
  moreover have "hbClients ?h4 = [0]" "hbReaders ?h4 = []" "hbUnregister ?h4 = []" "hbRegister ?h4 = []"
    using r by simp_all
  ultimately show ?thesis by blast
qed

end
