(* ===== verification/Workers.thy ===== *)
theory Workers
  imports Booking_Service Command_Queue Catalog_Repo
begin

text \<open>
  The background workers of internal/services: batch_release_worker.go polls the expiry queue
  and releases what is due, cleanup_worker.go releases what the queue missed and backs off on
  failures, booking_worker.go carries out queued jobs. A worker runs until its context is
  cancelled; a run is the list of its rounds, and each round's environment is given.
\<close>

section \<open>batch_release_worker.go\<close>

record expiryReleasePartitionPlan =
  epConcurrency :: int
  epCount :: int
  epOffset :: int

definition expiryReleasePartitionPlanFromConfig ::
  "BookingConfig option \<Rightarrow> expiryReleasePartitionPlan res" where
  "expiryReleasePartitionPlanFromConfig cfg =
     (case cfg of None \<Rightarrow> Inl (Foreign ''config is required'')
      | Some c \<Rightarrow>
          let concurrency = (if bcExpiryReleaseConcurrency c < 1 then 4 else bcExpiryReleaseConcurrency c);
              count = (if bcExpiryReleasePartitionCount c \<le> 0 then concurrency
                       else bcExpiryReleasePartitionCount c);
              offset = bcExpiryReleasePartitionOffset c
          in if offset < 0 then Inl (Foreign ''EXPIRY_RELEASE_PARTITION_OFFSET must be >= 0'')
             else if wrap64 (offset + concurrency) > count
               then Inl (Foreign (''partition offset '' @ Itoa offset @ '' + concurrency '' @
                 Itoa concurrency @ '' exceeds partition count '' @ Itoa count))
             else Inr \<lparr>epConcurrency = concurrency, epCount = count, epOffset = offset\<rparr>)"

text \<open>The partitions of the goroutines \<open>Run\<close> starts.\<close>

definition worker_partitions :: "expiryReleasePartitionPlan \<Rightarrow> int list" where
  "worker_partitions p = map (\<lambda>i. wrap64 (epOffset p + int i)) [0..<nat (epConcurrency p)]"

text \<open>The loop over the claimed members: \<open>envs k\<close> is the environment of the \<open>k\<close>th.\<close>

fun release_due :: "(nat \<Rightarrow> senv) \<Rightarrow> nat \<Rightarrow> string list \<Rightarrow> world \<Rightarrow> world" where
  "release_due envs k [] w = w"
| "release_due envs k (idStr # ids) w = release_due envs (Suc k) ids
     (case uuid_Parse (sLib (envs k)) idStr of
        None \<Rightarrow> w
      | Some bookingID \<Rightarrow>
          (case ReleaseExpiredBookingByID (envs k) bookingID w of
             (Inl _, w1) \<Rightarrow> w1
           | (Inr _, w1) \<Rightarrow> wExpiry_update (\<lambda>q. snd (expiry_Remove (sRedis (envs k))
                 (sRedisFault (envs k) 0) idStr q)) w1))"

definition processDue ::
  "expiryReleasePartitionPlan \<Rightarrow> bool \<Rightarrow> redis_fault \<Rightarrow> time \<Rightarrow> (nat \<Rightarrow> senv) \<Rightarrow> int \<Rightarrow> world \<Rightarrow> world" where
  "processDue plan redis f now envs partitionIndex w =
     (case PollDue redis f now ExpiryPollBatchSize partitionIndex (epCount plan) (wExpiry w) of
        (Inl _, q) \<Rightarrow> w\<lparr>wExpiry := q\<rparr>
      | (Inr ids, q) \<Rightarrow> release_due envs 0 ids (w\<lparr>wExpiry := q\<rparr>))"

section \<open>cleanup_worker.go\<close>

definition cleanupJobInitialInterval :: duration where "cleanupJobInitialInterval = Minute"
definition cleanupJobMaxBackoff :: duration where "cleanupJobMaxBackoff = 15 * Minute"

definition nextCleanupBackoff :: "duration \<Rightarrow> duration" where
  "nextCleanupBackoff current =
     (let next0 = wrap64 (current * 2);
          next1 = (if next0 < cleanupJobInitialInterval then cleanupJobInitialInterval else next0)
      in if next1 > cleanupJobMaxBackoff then cleanupJobMaxBackoff else next1)"

text \<open>The rounds of a run, and the waits after them.\<close>

fun cleanup_rounds :: "senv list \<Rightarrow> duration \<Rightarrow> world \<Rightarrow> duration list \<times> world" where
  "cleanup_rounds [] interval w = ([], w)"
| "cleanup_rounds (env # envs) interval w =
     (case CleanupExpiredReservations env w of (r, w1) \<Rightarrow>
      let interval' = (case r of Inl _ \<Rightarrow> nextCleanupBackoff interval
                       | Inr _ \<Rightarrow> cleanupJobInitialInterval)
      in case cleanup_rounds envs interval' w1 of (waits, w2) \<Rightarrow> (interval' # waits, w2))"

definition RunExpiredReservationCleanup :: "senv list \<Rightarrow> world \<Rightarrow> duration list \<times> world" where
  "RunExpiredReservationCleanup envs = cleanup_rounds envs cleanupJobInitialInterval"

section \<open>booking_worker.go\<close>

text \<open>What the job workers change: the world, the command queue, the hub's broadcasts.\<close>

record jobs =
  jwWorld :: world
  jwQueue :: qstate
  jwHub :: "(uuid \<times> uuid \<times> string) list"

definition BroadcastSeat :: "uuid \<Rightarrow> uuid \<Rightarrow> string \<Rightarrow> jobs \<Rightarrow> jobs" where
  "BroadcastSeat eventID seatID status = jwHub_update (\<lambda>h. h @ [(eventID, seatID, status)])"

definition in_queue :: "(qstate \<Rightarrow> unit res \<times> qstate) \<Rightarrow> jobs \<Rightarrow> jobs" where
  "in_queue f = jwQueue_update (\<lambda>q. snd (f q))"

text \<open>\<open>hub\<close>: whether the worker has one. \<open>messageID\<close> is not used by the code.\<close>

definition processBookingJob ::
  "senv \<Rightarrow> qenv \<Rightarrow> bool \<Rightarrow> BookingJob \<Rightarrow> jobs \<Rightarrow> unit res \<times> jobs" where
  "processBookingJob env qe hub job s =
     (case ReserveSeat env (bjUserID job) (bjEventID job) (bjSeatNumber job) (jwWorld s) of
        (Inl err, w1) \<Rightarrow>
          (Inl (Wrap ''failed to reserve seat'' err),
           in_queue (HandleBookingJobFailure qe job (err_Error err)) (s\<lparr>jwWorld := w1\<rparr>))
      | (Inr booking, w1) \<Rightarrow>
          let s2 = in_queue (CompleteJob qe (bjID job) (bID booking)) (s\<lparr>jwWorld := w1\<rparr>) in
          if \<not> hub then (Inr (), s2)
          else (case repo env 1 (read_only (\<lambda>t d.
                   FindByEventAndSeatNumber t d (bjEventID job) (bjSeatNumber job))) (jwWorld s2) of
              (Inl _, w3) \<Rightarrow> (Inr (), s2\<lparr>jwWorld := w3\<rparr>)
            | (Inr seat, w3) \<Rightarrow>
                (Inr (), BroadcastSeat (bjEventID job) (sID seat) ''reserved'' (s2\<lparr>jwWorld := w3\<rparr>))))"

definition processPurchaseJob ::
  "senv \<Rightarrow> qenv \<Rightarrow> bool \<Rightarrow> PurchaseJob \<Rightarrow> jobs \<Rightarrow> unit res \<times> jobs" where
  "processPurchaseJob env qe hub job s =
     (case PurchaseBooking env (pjUserID job) (pjBookingID job) (jwWorld s) of
        (Inl err, w1) \<Rightarrow>
          (Inl (Wrap ''failed to purchase booking'' err),
           in_queue (HandlePurchaseJobFailure qe job (err_Error err)) (s\<lparr>jwWorld := w1\<rparr>))
      | (Inr booking, w1) \<Rightarrow>
          let s2 = in_queue (CompleteJob qe (pjID job) (bID booking)) (s\<lparr>jwWorld := w1\<rparr>) in
          (Inr (), if hub then BroadcastSeat (bEventID booking) (bSeatID booking) ''sold'' s2 else s2))"

end
