(* ===== verification/Auth.thy ===== *)
theory Auth
  imports Redis_Kv Booking_Specs Config
begin

text \<open>
  Who the caller is: pkg/jwt/jwt.go, internal/utils/password.go, internal/services/
  auth_service.go and internal/middleware/auth_middleware.go. bcrypt and golang-jwt are
  parameters (\<open>crypto\<close>), with their documented behaviour as \<open>crypto_ok\<close>.
\<close>

section \<open>Third-party functions\<close>

text \<open>
  The claims of a token. \<open>jwt_NumericDate\<close> is what \<open>jwt.NewNumericDate\<close> keeps of a time;
  \<open>jwt_Sign\<close> is signing with HS256 and a secret; \<open>jwt_Parse\<close> gets the time, the key function
  of the caller (from whether the token's method is an HMAC to the key or an error) and the
  token, and returns the claims and the token's \<open>Valid\<close> field.
\<close>

record Claims =
  cUserID :: uuid
  cEmail :: string
  cRole :: string
  cExpiresAt :: time
  cIssuedAt :: time
  cNotBefore :: time
  cIssuer :: string

datatype jwt_err = TokenExpired | TokenInvalid string

record crypto =
  bcrypt_Generate :: "string \<Rightarrow> string res"
  bcrypt_Compare :: "string \<Rightarrow> string \<Rightarrow> bool"
  jwt_NumericDate :: "time \<Rightarrow> time"
  jwt_Sign :: "string \<Rightarrow> Claims \<Rightarrow> string res"
  jwt_Parse :: "time \<Rightarrow> (bool \<Rightarrow> string res) \<Rightarrow> string \<Rightarrow> jwt_err + (Claims \<times> bool)"

text \<open>
  A password matches its own hash; dates are kept to the second; a signed token has no blank,
  and when the dates of its claims are whole dates, it parses under the same key to the claims
  while they are in force, and as expired from the expiry on.
\<close>

definition whole_dates :: "crypto \<Rightarrow> Claims \<Rightarrow> bool" where
  "whole_dates C c \<longleftrightarrow> jwt_NumericDate C (cExpiresAt c) = cExpiresAt c \<and>
     jwt_NumericDate C (cIssuedAt c) = cIssuedAt c \<and> jwt_NumericDate C (cNotBefore c) = cNotBefore c"

definition crypto_ok :: "crypto \<Rightarrow> bool" where
  "crypto_ok C \<longleftrightarrow>
     (\<forall>p h. bcrypt_Generate C p = Inr h \<longrightarrow> bcrypt_Compare C h p) \<and>
     (\<forall>t. jwt_NumericDate C t \<le> t \<and> t < jwt_NumericDate C t + Second \<and>
        jwt_NumericDate C (jwt_NumericDate C t) = jwt_NumericDate C t) \<and>
     (\<forall>secret c tok. jwt_Sign C secret c = Inr tok \<longrightarrow> CHR '' '' \<notin> set tok \<and>
        (\<forall>now kf. kf True = Inr secret \<longrightarrow> whole_dates C c \<longrightarrow> cNotBefore c \<le> now \<longrightarrow>
           jwt_Parse C now kf tok =
             (if now < cExpiresAt c then Inr (c, True) else Inl TokenExpired)))"

section \<open>jwt.go and password.go\<close>

definition jwt_ErrInvalidToken :: err where
  "jwt_ErrInvalidToken = Foreign ''invalid token''"

definition jwt_ErrExpiredToken :: err where
  "jwt_ErrExpiredToken = Foreign ''token has expired''"

text \<open>\<open>clock\<close> gives the successive values of \<open>time.Now()\<close>.\<close>

definition GenerateToken ::
  "crypto \<Rightarrow> (nat \<Rightarrow> time) \<Rightarrow> uuid \<Rightarrow> string \<Rightarrow> string \<Rightarrow> string \<Rightarrow> int \<Rightarrow> string res" where
  "GenerateToken C clk userID email role secret expiryHours =
     (let expirationTime = clk 0 + wrap64 (expiryHours * Hour)
      in jwt_Sign C secret \<lparr>cUserID = userID, cEmail = email, cRole = role,
           cExpiresAt = jwt_NumericDate C expirationTime, cIssuedAt = jwt_NumericDate C (clk 1),
           cNotBefore = jwt_NumericDate C (clk 2), cIssuer = ''event-ticketing-system''\<rparr>)"

definition ValidateToken :: "crypto \<Rightarrow> time \<Rightarrow> string \<Rightarrow> string \<Rightarrow> Claims res" where
  "ValidateToken C now tokenString secret =
     (case jwt_Parse C now (\<lambda>hmac. if \<not> hmac then Inl jwt_ErrInvalidToken else Inr secret)
        tokenString of
        Inl e \<Rightarrow> Inl (if e = TokenExpired then jwt_ErrExpiredToken else jwt_ErrInvalidToken)
      | Inr (claims, valid) \<Rightarrow> if \<not> valid then Inl jwt_ErrInvalidToken else Inr claims)"

definition HashPassword :: "crypto \<Rightarrow> string \<Rightarrow> string res" where
  "HashPassword C password = bcrypt_Generate C password"

definition CheckPasswordHash :: "crypto \<Rightarrow> string \<Rightarrow> string \<Rightarrow> bool" where
  "CheckPasswordHash C password hash = bcrypt_Compare C hash password"

section \<open>auth_service.go\<close>

text \<open>
  One call of the service: the environment of its \<open>k\<close>-th repository call, the transactions
  of other requests that commit before it, the clock, the JWT configuration.
\<close>

record aenv =
  aCrypto :: crypto
  aJWT :: JWTConfig
  aNow :: "nat \<Rightarrow> time"
  aTx :: "nat \<Rightarrow> tenv"
  aOthers :: "nat \<Rightarrow> txop list"

type_synonym 'a auth = "db \<Rightarrow> 'a res \<times> db"

definition arepo :: "aenv \<Rightarrow> nat \<Rightarrow> (tenv \<Rightarrow> db \<Rightarrow> 'a res \<times> db) \<Rightarrow> 'a auth" where
  "arepo env k f d = f (aTx env k) (run exec_tx (aOthers env k) d)"

definition aread :: "(tenv \<Rightarrow> db \<Rightarrow> 'a res) \<Rightarrow> tenv \<Rightarrow> db \<Rightarrow> 'a res \<times> db" where
  "aread f t d = (f t d, d)"

definition abind :: "'a auth \<Rightarrow> ('a res \<Rightarrow> 'b auth) \<Rightarrow> 'b auth" where
  "abind m k d = (case m d of (r, d') \<Rightarrow> k r d')"

definition aret :: "'a res \<Rightarrow> 'a auth" where
  "aret r d = (r, d)"

record RegisterRequest =
  rrEmail :: string
  rrPassword :: string
  rrFullName :: string

record LoginRequest =
  lrEmail :: string
  lrPassword :: string

record AuthResponse =
  arUser :: User
  arToken :: string

text \<open>\<open>string(user.Role)\<close>\<close>

fun role_string :: "UserRole \<Rightarrow> string" where
  "role_string RoleUser = ''user''"
| "role_string RoleAdmin = ''admin''"

definition token_response :: "aenv \<Rightarrow> User \<Rightarrow> AuthResponse res" where
  "token_response env user =
     (case GenerateToken (aCrypto env) (aNow env) (uID user) (uEmail user) (role_string (uRole user))
        (jwtSecret (aJWT env)) (jwtExpiryHours (aJWT env)) of
        Inl e \<Rightarrow> Inl (Wrap ''generate token'' e)
      | Inr token \<Rightarrow> Inr \<lparr>arUser = user, arToken = token\<rparr>)"

definition Register :: "aenv \<Rightarrow> RegisterRequest \<Rightarrow> AuthResponse auth" where
  "Register env req =
     abind (arepo env 0 (aread (\<lambda>t d. user_FindByEmail t d (rrEmail req)))) (\<lambda>found.
     case found of
       Inr _ \<Rightarrow> aret (Inl SvcErrUserExists)
     | Inl e \<Rightarrow>
         if \<not> errors_Is e RepoErrUserNotFound then aret (Inl (Wrap ''check existing user'' e))
         else (case HashPassword (aCrypto env) (rrPassword req) of
             Inl e \<Rightarrow> aret (Inl (Wrap ''hash password'' e))
           | Inr hashedPassword \<Rightarrow>
               abind (arepo env 1 (\<lambda>t d. user_Create t d \<lparr>uID = uuid_Nil, uEmail = rrEmail req,
                 uPasswordHash = hashedPassword, uFullName = rrFullName req, uRole = RoleUser,
                 uCreatedAt = 0, uUpdatedAt = 0\<rparr>)) (\<lambda>created.
               case created of
                 Inl e \<Rightarrow> aret (Inl (Wrap ''create user'' e))
               | Inr user \<Rightarrow> aret (token_response env user))))"

definition Login :: "aenv \<Rightarrow> LoginRequest \<Rightarrow> AuthResponse auth" where
  "Login env req =
     abind (arepo env 0 (aread (\<lambda>t d. user_FindByEmail t d (lrEmail req)))) (\<lambda>found.
     case found of
       Inl e \<Rightarrow> aret (Inl (if errors_Is e RepoErrUserNotFound then SvcErrInvalidCreds
                         else Wrap ''find user'' e))
     | Inr user \<Rightarrow>
         if \<not> CheckPasswordHash (aCrypto env) (lrPassword req) (uPasswordHash user)
         then aret (Inl SvcErrInvalidCreds)
         else aret (token_response env user))"

definition find_user_error :: "'a res \<Rightarrow> 'a res" where
  "find_user_error r = (case r of Inl e \<Rightarrow> Inl (Wrap ''find user'' e) | Inr u \<Rightarrow> Inr u)"

definition GetUserByID :: "aenv \<Rightarrow> uuid \<Rightarrow> User auth" where
  "GetUserByID env userID =
     abind (arepo env 0 (aread (\<lambda>t d. user_FindByID t d userID))) (\<lambda>r. aret (find_user_error r))"

text \<open>\<open>PromoteToAdmin\<close> and \<open>DemoteToUser\<close> differ in the role and the error.\<close>

definition change_role :: "aenv \<Rightarrow> uuid \<Rightarrow> UserRole \<Rightarrow> err \<Rightarrow> User auth" where
  "change_role env userID role already =
     abind (arepo env 0 (aread (\<lambda>t d. user_FindByID t d userID))) (\<lambda>found.
     case find_user_error found of
       Inl e \<Rightarrow> aret (Inl e)
     | Inr user \<Rightarrow>
         if uRole user = role then aret (Inl already)
         else abind (arepo env 1 (\<lambda>t d. UpdateRole t d userID role)) (\<lambda>updated.
           case updated of
             Inl e \<Rightarrow> aret (Inl (Wrap ''update role'' e))
           | Inr _ \<Rightarrow> aret (Inr (user\<lparr>uRole := role\<rparr>))))"

definition PromoteToAdmin :: "aenv \<Rightarrow> uuid \<Rightarrow> User auth" where
  "PromoteToAdmin env userID = change_role env userID RoleAdmin SvcErrAlreadyAdmin"

definition DemoteToUser :: "aenv \<Rightarrow> uuid \<Rightarrow> User auth" where
  "DemoteToUser env userID = change_role env userID RoleUser SvcErrAlreadyRegular"

definition ListUsers :: "aenv \<Rightarrow> db option \<Rightarrow> User list auth" where
  "ListUsers env ReadDB =
     abind (arepo env 0 (aread (\<lambda>t d. repo_ListUsers t ReadDB d))) (\<lambda>r.
     aret (case r of Inl e \<Rightarrow> Inl (Wrap ''list users'' e) | Inr us \<Rightarrow> Inr us))"

section \<open>auth_middleware.go\<close>

text \<open>What the middleware stores in the request's context; \<open>None\<close> before it.\<close>

record gin_context =
  ctxUserID :: "uuid option"
  ctxUserEmail :: "string option"
  ctxUserRole :: "string option"

definition anonymous :: gin_context where
  "anonymous = \<lparr>ctxUserID = None, ctxUserEmail = None, ctxUserRole = None\<rparr>"

text \<open>A middleware answers with a status and a message (\<open>Inl\<close>) or passes a context on.\<close>

definition RequireAuth ::
  "crypto \<Rightarrow> string \<Rightarrow> time \<Rightarrow> string \<Rightarrow> gin_context \<Rightarrow> (int \<times> string) + gin_context" where
  "RequireAuth C secret now authHeader c =
     (if authHeader = '''' then Inl (401, ''authorization header required'') else
      let parts = Split authHeader (CHR '' '') in
      if length parts \<noteq> 2 \<or> parts ! 0 \<noteq> ''Bearer''
      then Inl (401, ''invalid authorization header format'')
      else case ValidateToken C now (parts ! 1) secret of
          Inl _ \<Rightarrow> Inl (401, ''invalid or expired token'')
        | Inr claims \<Rightarrow> Inr (c\<lparr>ctxUserID := Some (cUserID claims),
            ctxUserEmail := Some (cEmail claims), ctxUserRole := Some (cRole claims)\<rparr>))"

definition RequireAdmin :: "gin_context \<Rightarrow> (int \<times> string) + gin_context" where
  "RequireAdmin c = (if ctxUserRole c \<noteq> Some ''admin'' then Inl (403, ''admin access required'')
     else Inr c)"

definition GetUserID :: "gin_context \<Rightarrow> uuid res" where
  "GetUserID c = (case ctxUserID c of None \<Rightarrow> Inl (Foreign '''') | Some u \<Rightarrow> Inr u)"

end
