(* ===== verification/Api.thy ===== *)
theory Api
  imports Workers Auth Event_Service Seat_Routing
begin

text \<open>
  The HTTP layer: internal/handlers (what each handler answers and does), the \<open>binding\<close> tags of
  the request types in internal/models, and internal/routes/routes.go (which middleware guards
  which route). Gin's routing and the JSON decoding are left out: a handler gets the decoded
  request, or the decoder's error, and the path parameter as text.
\<close>

section \<open>Answers\<close>

record UserResponse =
  urID :: uuid
  urEmail :: string
  urFullName :: string
  urRole :: UserRole
  urCreatedAt :: "time option"

text \<open>\<open>gin.H{"error": s}\<close> is \<open>ErrorBody s\<close>; the other constructors are the other bodies.\<close>

datatype body =
    ErrorBody string
  | MessageBody string
  | JobAccepted string uuid
  | BookingBody Booking
  | BookingsBody "BookingWithDetails list"
  | BulkBody string int "Booking list"
  | JobStatusBody JobStatus
  | MetricsBody QueueMetrics
  | AuthBody AuthResponse
  | UserBody User
  | UsersBody "UserResponse list"
  | RoleChangedBody string UserResponse
  | EventBody Event
  | EventsBody "Event list"
  | SeatsBody SeatsResponse
  | VenueBody Venue
  | VenuesBody "Venue list"

type_synonym reply = "int \<times> body"

section \<open>Requests\<close>

text \<open>
  \<open>ShouldBindJSON\<close>: the decoder's result, checked against the \<open>binding\<close> tags; the validator's
  error is given. \<open>required\<close> refuses a type's zero value.
\<close>

definition ShouldBindJSON :: "('a \<Rightarrow> bool) \<Rightarrow> err \<Rightarrow> 'a res \<Rightarrow> 'a res" where
  "ShouldBindJSON valid verr decoded = ebind decoded (\<lambda>r. if valid r then Inr r else Inl verr)"

record ReserveSeatRequest =
  rqEventID :: uuid
  rqSeatNumber :: string

record BulkReserveRequest =
  bqEventID :: uuid
  bqSeatNumbers :: "string list"

record PurchaseBookingRequest =
  pqBookingID :: uuid
  pqIdempotencyKey :: string

definition valid_ReserveSeatRequest :: "ReserveSeatRequest \<Rightarrow> bool" where
  "valid_ReserveSeatRequest r \<longleftrightarrow> rqEventID r \<noteq> uuid_Nil \<and> rqSeatNumber r \<noteq> ''''"

definition valid_BulkReserveRequest :: "BulkReserveRequest \<Rightarrow> bool" where
  "valid_BulkReserveRequest r \<longleftrightarrow> bqEventID r \<noteq> uuid_Nil \<and>
     1 \<le> length (bqSeatNumbers r) \<and> length (bqSeatNumbers r) \<le> 500"

definition valid_PurchaseBookingRequest :: "PurchaseBookingRequest \<Rightarrow> bool" where
  "valid_PurchaseBookingRequest r \<longleftrightarrow> pqBookingID r \<noteq> uuid_Nil"

text \<open>\<open>is_email\<close> is the validator's check of the \<open>email\<close> tag.\<close>

definition valid_RegisterRequest :: "(string \<Rightarrow> bool) \<Rightarrow> RegisterRequest \<Rightarrow> bool" where
  "valid_RegisterRequest is_email r \<longleftrightarrow> rrEmail r \<noteq> '''' \<and> is_email (rrEmail r) \<and>
     6 \<le> length (rrPassword r) \<and> rrFullName r \<noteq> ''''"

definition valid_LoginRequest :: "(string \<Rightarrow> bool) \<Rightarrow> LoginRequest \<Rightarrow> bool" where
  "valid_LoginRequest is_email r \<longleftrightarrow> lrEmail r \<noteq> '''' \<and> is_email (lrEmail r) \<and> lrPassword r \<noteq> ''''"

definition valid_CreateEventRequest :: "CreateEventRequest \<Rightarrow> bool" where
  "valid_CreateEventRequest r \<longleftrightarrow> ceVenueID r \<noteq> uuid_Nil \<and> ceTitle r \<noteq> '''' \<and>
     ceEventDate r \<noteq> zero_time \<and> ceTicketPrice r \<noteq> 0 \<and> 0 \<le> ceTicketPrice r \<and> 1 \<le> ceTotalSeats r"

definition valid_CreateVenueRequest :: "CreateVenueRequest \<Rightarrow> bool" where
  "valid_CreateVenueRequest r \<longleftrightarrow> cvName r \<noteq> '''' \<and> cvAddress r \<noteq> '''' \<and> 1 \<le> cvCapacity r"

section \<open>booking_handler.go\<close>

text \<open>
  A handler maps the request's context, the request and the state to the answer and the new
  state. \<open>q\<close> is the command queue, \<open>None\<close> when it is nil.
\<close>

type_synonym 's handler = "gin_context \<Rightarrow> 's \<Rightarrow> reply \<times> 's"

definition answer :: "reply \<Rightarrow> 's \<Rightarrow> reply \<times> 's" where
  "answer r s = (r, s)"

definition on_world :: "'a svc \<Rightarrow> ('a res \<Rightarrow> reply) \<Rightarrow> jobs \<Rightarrow> reply \<times> jobs" where
  "on_world m f s = (case m (jwWorld s) of (r, w) \<Rightarrow> (f r, s\<lparr>jwWorld := w\<rparr>))"

definition with_body :: "'a res \<Rightarrow> ('a \<Rightarrow> 's \<Rightarrow> reply \<times> 's) \<Rightarrow> 's \<Rightarrow> reply \<times> 's" where
  "with_body req k = (case req of Inl e \<Rightarrow> answer (400, ErrorBody (err_Error e)) | Inr r \<Rightarrow> k r)"

definition with_user :: "gin_context \<Rightarrow> (uuid \<Rightarrow> 's \<Rightarrow> reply \<times> 's) \<Rightarrow> 's \<Rightarrow> reply \<times> 's" where
  "with_user c k = (case GetUserID c of Inl _ \<Rightarrow> answer (401, ErrorBody ''unauthorized'') | Inr u \<Rightarrow> k u)"

definition with_id :: "lib \<Rightarrow> string \<Rightarrow> string \<Rightarrow> (uuid \<Rightarrow> 's \<Rightarrow> reply \<times> 's) \<Rightarrow> 's \<Rightarrow> reply \<times> 's" where
  "with_id L param msg k =
     (case uuid_Parse L param of None \<Rightarrow> answer (400, ErrorBody msg) | Some u \<Rightarrow> k u)"

definition handleReservationError :: "err \<Rightarrow> reply" where
  "handleReservationError err =
     (if errors_Is err SvcErrSeatBeingBooked \<or> errors_Is err SvcErrSeatNotAvailable \<or>
         errors_Is err SvcErrNoAvailableSeats then (409, ErrorBody (err_Error err))
      else if errors_Is err RepoErrEventNotFound then (404, ErrorBody ''event not found'')
      else (500, ErrorBody ''reservation failed''))"

definition post_ReserveSeat :: "senv \<Rightarrow> qenv option \<Rightarrow> ReserveSeatRequest res \<Rightarrow> jobs handler" where
  "post_ReserveSeat env q req c = with_body req (\<lambda>req. with_user c (\<lambda>userID.
     case q of
       Some qe \<Rightarrow> (\<lambda>s. case EnqueueBookingJob qe \<lparr>bjID = uuid_Nil, bjUserID = userID,
             bjEventID = rqEventID req, bjSeatNumber = rqSeatNumber req, bjAttempt = 0,
             bjCreatedAt = zero_time\<rparr> (jwQueue s) of
           (Inl _, q') \<Rightarrow> ((500, ErrorBody ''failed to queue booking request''), s\<lparr>jwQueue := q'\<rparr>)
         | (Inr job, q') \<Rightarrow> ((202, JobAccepted ''booking request received, processing...'' (bjID job)),
             s\<lparr>jwQueue := q'\<rparr>))
     | None \<Rightarrow> on_world (ReserveSeat env userID (rqEventID req) (rqSeatNumber req))
         (\<lambda>r. case r of Inl e \<Rightarrow> handleReservationError e | Inr b \<Rightarrow> (201, BookingBody b))))"

definition handlePurchaseError :: "err \<Rightarrow> reply" where
  "handlePurchaseError err =
     (if errors_Is err SvcErrBookingExpired \<or> errors_Is err SvcErrNotReserved
      then (400, ErrorBody (err_Error err))
      else if errors_Is err SvcErrBookingNotFound then (404, ErrorBody ''booking not found'')
      else if errors_Is err SvcErrUnauthorized then (403, ErrorBody ''unauthorized'')
      else (500, ErrorBody ''purchase failed''))"

text \<open>\<open>header\<close> is the request's \<open>Idempotency-Key\<close>.\<close>

definition post_PurchaseBooking ::
  "senv \<Rightarrow> qenv option \<Rightarrow> string \<Rightarrow> PurchaseBookingRequest res \<Rightarrow> jobs handler" where
  "post_PurchaseBooking env q header req c = with_body req (\<lambda>req. with_user c (\<lambda>userID.
     let idempotencyKey = (if header = '''' \<and> pqIdempotencyKey req \<noteq> '''' then pqIdempotencyKey req else header)
     in case q of
       Some qe \<Rightarrow> (\<lambda>s. case EnqueuePurchaseJob qe \<lparr>pjID = uuid_Nil, pjUserID = userID,
             pjBookingID = pqBookingID req, pjIdempotencyKey = idempotencyKey, pjAttempt = 0,
             pjCreatedAt = zero_time\<rparr> (jwQueue s) of
           (Inl _, q') \<Rightarrow> ((500, ErrorBody ''failed to queue purchase request''), s\<lparr>jwQueue := q'\<rparr>)
         | (Inr job, q') \<Rightarrow> ((202, JobAccepted ''purchase request received, processing...'' (pjID job)),
             s\<lparr>jwQueue := q'\<rparr>))
     | None \<Rightarrow> on_world (PurchaseBooking env userID (pqBookingID req))
         (\<lambda>r. case r of Inl e \<Rightarrow> handlePurchaseError e | Inr b \<Rightarrow> (200, BookingBody b))))"

definition handleBulkReserveError :: "err \<Rightarrow> reply" where
  "handleBulkReserveError err =
     (if errors_Is err SvcErrNoSeatsRequested \<or> errors_Is err SvcErrTooManySeats \<or>
         errors_Is err RepoErrEventNotFound \<or> errors_Is err SvcErrNoAvailableSeats
      then (400, ErrorBody (err_Error err)) else (409, ErrorBody (err_Error err)))"

definition post_BulkReserve ::
  "(nat \<Rightarrow> senv) \<Rightarrow> (nat \<Rightarrow> nat) \<Rightarrow> senv \<Rightarrow> BulkReserveRequest res \<Rightarrow> jobs handler" where
  "post_BulkReserve envs sched env req c = with_body req (\<lambda>req. with_user c (\<lambda>userID.
     on_world (BulkReserve envs sched env userID (bqEventID req) (bqSeatNumbers req))
       (\<lambda>r. case r of Inl e \<Rightarrow> handleBulkReserveError e
        | Inr bs \<Rightarrow> (201, BulkBody ''bulk reservation completed'' (int (length bs)) bs))))"

definition get_GetMyBookings :: "senv \<Rightarrow> db option \<Rightarrow> jobs handler" where
  "get_GetMyBookings env ReadDB c = with_user c (\<lambda>userID.
     on_world (GetUserBookings env ReadDB userID)
       (\<lambda>r. case r of Inl _ \<Rightarrow> (500, ErrorBody ''failed to get bookings'') | Inr bs \<Rightarrow> (200, BookingsBody bs)))"

definition delete_CancelBooking :: "senv \<Rightarrow> string \<Rightarrow> jobs handler" where
  "delete_CancelBooking env param c = with_id (sLib env) param ''invalid booking ID'' (\<lambda>bookingID.
     with_user c (\<lambda>userID. on_world (CancelBooking env userID bookingID)
       (\<lambda>r. case r of
          Inl err \<Rightarrow>
            if errors_Is err SvcErrBookingNotFound then (404, ErrorBody ''booking not found'')
            else if errors_Is err SvcErrOnlyReservedCancel then (400, ErrorBody (err_Error err))
            else if errors_Is err SvcErrUnauthorized then (403, ErrorBody ''unauthorized'')
            else (500, ErrorBody ''cancellation failed'')
        | Inr _ \<Rightarrow> (200, MessageBody ''booking cancelled successfully''))))"

definition get_GetBooking :: "senv \<Rightarrow> string \<Rightarrow> jobs handler" where
  "get_GetBooking env param c = with_id (sLib env) param ''invalid booking ID'' (\<lambda>bookingID.
     with_user c (\<lambda>userID. on_world (GetBookingByID env userID bookingID)
       (\<lambda>r. case r of
          Inl err \<Rightarrow>
            if errors_Is err SvcErrBookingNotFound \<or> errors_Is err SvcErrUnauthorized
            then (404, ErrorBody ''booking not found'')
            else (500, ErrorBody ''failed to get booking'')
        | Inr b \<Rightarrow> (200, BookingBody b))))"

definition get_GetJobStatus :: "lib \<Rightarrow> qenv option \<Rightarrow> string \<Rightarrow> jobs handler" where
  "get_GetJobStatus L q param c = with_id L param ''invalid job ID'' (\<lambda>jobID.
     case q of
       None \<Rightarrow> answer (503, ErrorBody ''async processing not available'')
     | Some qe \<Rightarrow> (\<lambda>s. case GetJobStatus qe jobID (jwQueue s) of
           Inl err \<Rightarrow>
             if errors_Is err QueueErrJobNotFound then answer (404, ErrorBody ''job not found'') s
             else answer (500, ErrorBody ''failed to get job status'') s
         | Inr status \<Rightarrow> answer (200, JobStatusBody status) s))"

definition get_GetQueueMetrics :: "qenv option \<Rightarrow> bool \<Rightarrow> bool \<Rightarrow> jobs handler" where
  "get_GetQueueMetrics q bg pg c =
     (case q of
        None \<Rightarrow> answer (503, ErrorBody ''async processing not available'')
      | Some qe \<Rightarrow> (\<lambda>s. case GetMetrics qe bg pg (jwQueue s) of
           Inl _ \<Rightarrow> answer (500, ErrorBody ''failed to get queue metrics'') s
         | Inr m \<Rightarrow> answer (200, MetricsBody m) s))"

section \<open>auth_handler.go\<close>

definition on_auth :: "'a auth \<Rightarrow> ('a res \<Rightarrow> reply) \<Rightarrow> db \<Rightarrow> reply \<times> db" where
  "on_auth m f d = (case m d of (r, d') \<Rightarrow> (f r, d'))"

definition post_Register :: "aenv \<Rightarrow> RegisterRequest res \<Rightarrow> db handler" where
  "post_Register env req c = with_body req (\<lambda>req. on_auth (Register env req)
     (\<lambda>r. case r of
        Inl err \<Rightarrow> if errors_Is err SvcErrUserExists then (409, ErrorBody ''user already exists'')
                   else (500, ErrorBody ''registration failed'')
      | Inr response \<Rightarrow> (201, AuthBody response)))"

definition post_Login :: "aenv \<Rightarrow> LoginRequest res \<Rightarrow> db handler" where
  "post_Login env req c = with_body req (\<lambda>req. on_auth (Login env req)
     (\<lambda>r. case r of
        Inl err \<Rightarrow> if errors_Is err SvcErrInvalidCreds then (401, ErrorBody ''invalid credentials'')
                   else (500, ErrorBody ''login failed'')
      | Inr response \<Rightarrow> (200, AuthBody response)))"

definition get_GetMe :: "aenv \<Rightarrow> db handler" where
  "get_GetMe env c = with_user c (\<lambda>userID. on_auth (GetUserByID env userID)
     (\<lambda>r. case r of
        Inl err \<Rightarrow> if errors_Is err RepoErrUserNotFound then (404, ErrorBody ''user not found'')
                   else (500, ErrorBody ''failed to get user'')
      | Inr user \<Rightarrow> (200, UserBody user)))"

definition get_ListUsers :: "aenv \<Rightarrow> db option \<Rightarrow> db handler" where
  "get_ListUsers env ReadDB c = on_auth (ListUsers env ReadDB)
     (\<lambda>r. case r of
        Inl _ \<Rightarrow> (500, ErrorBody ''failed to list users'')
      | Inr us \<Rightarrow> (200, UsersBody (map (\<lambda>user. \<lparr>urID = uID user, urEmail = uEmail user,
          urFullName = uFullName user, urRole = uRole user, urCreatedAt = Some (uCreatedAt user)\<rparr>) us)))"

definition role_changed :: "string \<Rightarrow> User \<Rightarrow> reply" where
  "role_changed msg user = (200, RoleChangedBody msg \<lparr>urID = uID user, urEmail = uEmail user,
     urFullName = uFullName user, urRole = uRole user, urCreatedAt = None\<rparr>)"

definition post_PromoteToAdmin :: "lib \<Rightarrow> aenv \<Rightarrow> string \<Rightarrow> db handler" where
  "post_PromoteToAdmin L env param c = with_id L param ''invalid user ID'' (\<lambda>userID.
     on_auth (PromoteToAdmin env userID)
       (\<lambda>r. case r of
          Inl err \<Rightarrow>
            if errors_Is err SvcErrAlreadyAdmin then (409, ErrorBody ''user is already an admin'')
            else if errors_Is err RepoErrUserNotFound then (404, ErrorBody ''user not found'')
            else (500, ErrorBody ''failed to promote user'')
        | Inr user \<Rightarrow> role_changed ''user promoted to admin'' user))"

text \<open>The current user's id is \<open>uuid.Nil\<close> when \<open>GetUserID\<close> fails; the error is ignored.\<close>

definition post_DemoteToUser :: "lib \<Rightarrow> aenv \<Rightarrow> string \<Rightarrow> db handler" where
  "post_DemoteToUser L env param c = with_id L param ''invalid user ID'' (\<lambda>userID.
     let currentUserID = (case GetUserID c of Inl _ \<Rightarrow> uuid_Nil | Inr u \<Rightarrow> u) in
     if currentUserID = userID then answer (400, ErrorBody ''cannot demote yourself'')
     else on_auth (DemoteToUser env userID)
       (\<lambda>r. case r of
          Inl err \<Rightarrow>
            if errors_Is err SvcErrAlreadyRegular then (409, ErrorBody ''user is already a regular user'')
            else if errors_Is err RepoErrUserNotFound then (404, ErrorBody ''user not found'')
            else (500, ErrorBody ''failed to demote user'')
        | Inr user \<Rightarrow> role_changed ''user demoted to regular user'' user))"

section \<open>event_handler.go, venue_handler.go\<close>

definition on_events :: "'a esvc \<Rightarrow> ('a res \<Rightarrow> reply) \<Rightarrow> estate \<Rightarrow> reply \<times> estate" where
  "on_events m f s = (case m s of (r, s') \<Rightarrow> (f r, s'))"

definition validSeatStatuses :: "string set" where
  "validSeatStatuses = {''available'', ''reserved'', ''sold''}"

definition post_CreateEvent :: "eenv \<Rightarrow> CreateEventRequest res \<Rightarrow> estate handler" where
  "post_CreateEvent env req c = with_body req (\<lambda>req. with_user c (\<lambda>userID.
     on_events (CreateEvent env req userID)
       (\<lambda>r. case r of
          Inl err \<Rightarrow> if errors_Is err SvcErrVenueNotFound then (400, ErrorBody ''venue not found'')
                     else (500, ErrorBody ''failed to create event'')
        | Inr event \<Rightarrow> (201, EventBody event))))"

definition get_GetEvent :: "eenv \<Rightarrow> string \<Rightarrow> estate handler" where
  "get_GetEvent env param c = with_id (evLib env) param ''invalid event ID'' (\<lambda>eid.
     on_events (GetEventByID env eid)
       (\<lambda>r. case r of
          Inl err \<Rightarrow> if errors_Is err SvcErrEventNotFound then (404, ErrorBody ''event not found'')
                     else (500, ErrorBody ''failed to get event'')
        | Inr event \<Rightarrow> (200, EventBody event)))"

definition get_ListEvents :: "eenv \<Rightarrow> estate handler" where
  "get_ListEvents env c = on_events (ListEvents env)
     (\<lambda>r. case r of Inl _ \<Rightarrow> (500, ErrorBody ''failed to list events'') | Inr es \<Rightarrow> (200, EventsBody es))"

text \<open>\<open>marks\<close> are the seat-read marks in Redis, \<open>f\<close> how their lookup fares.\<close>

definition get_GetEventSeats ::
  "eenv \<Rightarrow> time \<Rightarrow> redis_fault \<Rightarrow> unit kv \<Rightarrow> string \<Rightarrow> string \<Rightarrow> estate handler" where
  "get_GetEventSeats env now f marks param statusFilter c = with_id (evLib env) param ''invalid event ID'' (\<lambda>eid.
     if statusFilter \<noteq> '''' \<and> statusFilter \<notin> validSeatStatuses
     then answer (400, ErrorBody ''invalid status filter, must be: available, reserved, or sold'')
     else let usePrimary = (case GetUserID c of Inl _ \<Rightarrow> False
            | Inr userID \<Rightarrow> ContextForSeatReads (evLib env) (evRedis env) now f False userID eid marks)
     in on_events (GetEventSeats env usePrimary eid statusFilter)
       (\<lambda>r. case r of
          Inl err \<Rightarrow> if errors_Is err SvcErrEventNotFound then (404, ErrorBody ''event not found'')
                     else (500, ErrorBody ''failed to get seats'')
        | Inr response \<Rightarrow> (200, SeatsBody response)))"

definition post_CreateVenue :: "eenv \<Rightarrow> CreateVenueRequest res \<Rightarrow> estate handler" where
  "post_CreateVenue env req c = with_body req (\<lambda>req. on_events (CreateVenue env req)
     (\<lambda>r. case r of Inl err \<Rightarrow> (500, ErrorBody (err_Error err)) | Inr v \<Rightarrow> (201, VenueBody v)))"

definition get_GetVenue :: "eenv \<Rightarrow> string \<Rightarrow> estate handler" where
  "get_GetVenue env param c = on_events (GetVenueByID env param)
     (\<lambda>r. case r of Inl _ \<Rightarrow> (404, ErrorBody ''venue not found'') | Inr v \<Rightarrow> (200, VenueBody v))"

definition get_ListVenues :: "eenv \<Rightarrow> estate handler" where
  "get_ListVenues env c = on_events (ListVenues env)
     (\<lambda>r. case r of Inl err \<Rightarrow> (500, ErrorBody (err_Error err)) | Inr vs \<Rightarrow> (200, VenuesBody vs))"

section \<open>routes.go\<close>

datatype guard = UseRequireAuth | UseRequireAdmin | UseSimpleRateLimit | UseEventAdmissionControl
  | UseIdempotencyKey

datatype endpoint = EpRegister | EpLogin | EpListEvents | EpGetEvent | EpGetEventSeats | EpGetMe
  | EpListUsers | EpPromoteToAdmin | EpDemoteToUser | EpGetQueueMetrics | EpCreateVenue
  | EpListVenues | EpGetVenue | EpCreateEvent | EpReserveSeat | EpBulkReserve | EpPurchaseBooking
  | EpGetMyBookings | EpGetJobStatus | EpGetBooking | EpCancelBooking | EpHandleWebSocket

definition route :: "guard list \<Rightarrow> string \<Rightarrow> string \<Rightarrow> endpoint \<Rightarrow> string \<times> string \<times> guard list \<times> endpoint" where
  "route gs meth path e = (meth, path, gs, e)"

text \<open>The routes of the group \<open>/api\<close>; \<open>protected\<close>, \<open>admin\<close> and \<open>venues\<close> are nested groups.\<close>

definition api_routes :: "(string \<times> string \<times> guard list \<times> endpoint) list" where
  "api_routes =
     (let protected = [UseRequireAuth, UseSimpleRateLimit];
          admin = protected @ [UseRequireAdmin];
          venues = protected @ [UseRequireAdmin]
      in [route [] ''POST'' ''/api/auth/register'' EpRegister,
          route [] ''POST'' ''/api/auth/login'' EpLogin,
          route [UseSimpleRateLimit] ''GET'' ''/api/events'' EpListEvents,
          route [UseSimpleRateLimit] ''GET'' ''/api/events/:id'' EpGetEvent,
          route [UseSimpleRateLimit] ''GET'' ''/api/events/:id/seats'' EpGetEventSeats,
          route protected ''GET'' ''/api/auth/me'' EpGetMe,
          route admin ''GET'' ''/api/admin/users'' EpListUsers,
          route admin ''POST'' ''/api/admin/users/:id/promote'' EpPromoteToAdmin,
          route admin ''POST'' ''/api/admin/users/:id/demote'' EpDemoteToUser,
          route admin ''GET'' ''/api/admin/queue-metrics'' EpGetQueueMetrics,
          route venues ''POST'' ''/api/venues'' EpCreateVenue,
          route venues ''GET'' ''/api/venues'' EpListVenues,
          route venues ''GET'' ''/api/venues/:id'' EpGetVenue,
          route (protected @ [UseRequireAdmin]) ''POST'' ''/api/events'' EpCreateEvent,
          route (protected @ [UseEventAdmissionControl]) ''POST'' ''/api/bookings/reserve'' EpReserveSeat,
          route protected ''POST'' ''/api/bookings/bulk-reserve'' EpBulkReserve,
          route (protected @ [UseIdempotencyKey]) ''POST'' ''/api/bookings/purchase'' EpPurchaseBooking,
          route protected ''GET'' ''/api/bookings/my-bookings'' EpGetMyBookings,
          route protected ''GET'' ''/api/bookings/job/:job_id'' EpGetJobStatus,
          route protected ''GET'' ''/api/bookings/:id'' EpGetBooking,
          route protected ''DELETE'' ''/api/bookings/:id'' EpCancelBooking,
          route protected ''GET'' ''/api/ws'' EpHandleWebSocket])"

text \<open>
  What the guards make of a request: \<open>header\<close> is its \<open>Authorization\<close>, and \<open>lim g\<close> is what the
  limiter or the idempotency middleware \<open>g\<close> answers it (Rate_Limiter, Idempotency), \<open>None\<close>
  where it lets it pass. Those neither look at the context nor change it. The first guard that
  answers ends the request.
\<close>

fun authorize ::
  "crypto \<Rightarrow> string \<Rightarrow> time \<Rightarrow> string \<Rightarrow> (guard \<Rightarrow> reply option) \<Rightarrow> guard list \<Rightarrow> gin_context \<Rightarrow>
   reply + gin_context" where
  "authorize C secret now header lim [] c = Inr c"
| "authorize C secret now header lim (g # gs) c =
     (case (case g of
          UseRequireAuth \<Rightarrow> map_sum (\<lambda>(st, msg). (st, ErrorBody msg)) id (RequireAuth C secret now header c)
        | UseRequireAdmin \<Rightarrow> map_sum (\<lambda>(st, msg). (st, ErrorBody msg)) id (RequireAdmin c)
        | _ \<Rightarrow> (case lim g of Some r \<Rightarrow> Inl r | None \<Rightarrow> Inr c)) of
        Inl r \<Rightarrow> Inl r
      | Inr c' \<Rightarrow> authorize C secret now header lim gs c')"

definition serve ::
  "crypto \<Rightarrow> string \<Rightarrow> time \<Rightarrow> string \<Rightarrow> (guard \<Rightarrow> reply option) \<Rightarrow> guard list \<Rightarrow> 's handler \<Rightarrow> 's \<Rightarrow>
   reply \<times> 's" where
  "serve C secret now header lim gs h s =
     (case authorize C secret now header lim gs anonymous of
        Inl r \<Rightarrow> (r, s)
      | Inr c \<Rightarrow> h c s)"

end
