(* ===== verification/Auth_Theorems.thy ===== *)
theory Auth_Theorems
  imports Auth Demo
begin

text \<open>
  The properties of authentication. The rows of the users table under every transaction of
  the program are a bounded system of their own (\<open>accounts_run\<close>): accounts keep their id,
  e-mail and password hash.
\<close>

section \<open>A concrete \<open>crypto\<close> for the witnesses\<close>

definition join :: "char \<Rightarrow> string list \<Rightarrow> string" where
  "join sep fs = concat (map (\<lambda>f. f @ [sep]) fs)"

lemma Split_join: "\<forall>f \<in> set fs. sep \<notin> set f \<Longrightarrow> Split (join sep fs) sep = fs @ [[]]"
  by (induction fs) (simp_all add: join_def Split_append)

definition enc_str :: "string \<Rightarrow> string" where
  "enc_str s = join (CHR ''.'') (map (\<lambda>c. Itoa_nat (of_char c)) s)"

definition dec_str :: "string \<Rightarrow> string" where
  "dec_str t = map (\<lambda>d. char_of (the (parse_digits d))) (butlast (Split t (CHR ''.'')))"

definition enc_int :: "int \<Rightarrow> string" where
  "enc_int n = Itoa_nat (if 0 \<le> n then nat (2 * n) else nat (- 2 * n - 1))"

definition dec_int :: "string \<Rightarrow> int" where
  "dec_int t = (let n = the (parse_digits t) in if even n then int (n div 2) else - int ((n + 1) div 2))"

lemma digits_plain: "\<not> is_digit c \<Longrightarrow> c \<notin> set (Itoa_nat n)"
  using Itoa_nat_chars by blast

lemma dec_enc_str [simp]: "dec_str (enc_str s) = s"
  by (simp add: dec_str_def enc_str_def Split_join digits_plain is_digit_def parse_Itoa_nat map_idI comp_def)

lemma dec_enc_int [simp]: "dec_int (enc_int n) = n"
  by (auto simp: dec_int_def enc_int_def parse_Itoa_nat Let_def even_nat_iff nat_div_distrib)

definition token_fields :: "string \<Rightarrow> Claims \<Rightarrow> string list" where
  "token_fields secret c = [enc_str secret, Itoa_nat (unat (cUserID c)), enc_str (cEmail c),
     enc_str (cRole c), enc_int (cExpiresAt c), enc_int (cIssuedAt c), enc_int (cNotBefore c),
     enc_str (cIssuer c)]"

definition parse_fields :: "string list \<Rightarrow> Claims" where
  "parse_fields f = \<lparr>cUserID = of_nat (the (parse_digits (f ! 1))), cEmail = dec_str (f ! 2),
     cRole = dec_str (f ! 3), cExpiresAt = dec_int (f ! 4), cIssuedAt = dec_int (f ! 5),
     cNotBefore = dec_int (f ! 6), cIssuer = dec_str (f ! 7)\<rparr>"

definition demo_crypto :: crypto where
  "demo_crypto = \<lparr>bcrypt_Generate = (\<lambda>p. Inr (''$'' @ p)), bcrypt_Compare = (\<lambda>h p. h = ''$'' @ p),
     jwt_NumericDate = (\<lambda>t. t - t mod Second),
     jwt_Sign = (\<lambda>secret c. Inr (join (CHR '','') (token_fields secret c))),
     jwt_Parse = (\<lambda>now kf tok. let f = Split tok (CHR '','') in
       if length f \<noteq> 9 \<or> kf True \<noteq> Inr (dec_str (f ! 0)) then Inl (TokenInvalid ''signature'')
       else let c = parse_fields f in
         if now < cNotBefore c then Inl (TokenInvalid ''not valid yet'')
         else if now < cExpiresAt c then Inr (c, True) else Inl TokenExpired)\<rparr>"

lemma plain_fields: "\<not> is_digit x \<Longrightarrow> x \<noteq> CHR ''.'' \<Longrightarrow> \<forall>f \<in> set (token_fields secret c). x \<notin> set f"
  by (auto simp: token_fields_def enc_str_def enc_int_def join_def digits_plain)

lemma parse_token_fields [simp]: "parse_fields (token_fields secret c @ [[]]) = c"
  by (simp add: parse_fields_def token_fields_def parse_Itoa_nat)

lemma token_fields_simps: "length (token_fields secret c) = 8" "token_fields secret c ! 0 = enc_str secret"
  by (simp_all add: token_fields_def)

lemma demo_crypto_ok: "crypto_ok demo_crypto"
proof -
  have s: "Split (join (CHR '','') (token_fields secret c)) (CHR '','') = token_fields secret c @ [[]]" for secret c
    by (rule Split_join) (rule plain_fields; simp add: is_digit_def)
  have b: "CHR '' '' \<notin> set (join (CHR '','') (token_fields secret c))" for secret c
    using plain_fields [of "CHR '' ''" secret c] by (simp add: join_def is_digit_def)
  show ?thesis
    unfolding crypto_ok_def
    by (auto simp: demo_crypto_def s b Let_def token_fields_simps nth_append Second_def)
qed

section \<open>Accounts under the program's transactions\<close>

definition accounts_ok :: "db \<Rightarrow> bool" where
  "accounts_ok d \<longleftrightarrow> distinct (map uID (users d)) \<and> distinct (map uEmail (users d))"

text \<open>What never changes of a row: only the role and the update time do.\<close>

definition account :: "User \<Rightarrow> uuid \<times> string \<times> string \<times> string \<times> time" where
  "account u = (uID u, uEmail u, uPasswordHash u, uFullName u, uCreatedAt u)"

definition keeps_accounts :: "db \<Rightarrow> db \<Rightarrow> bool" where
  "keeps_accounts d d' \<longleftrightarrow> account ` set (users d) \<subseteq> account ` set (users d')"

definition user_step :: "(UserRole \<Rightarrow> bool) \<Rightarrow> db \<Rightarrow> db \<Rightarrow> bool" where
  "user_step G d d' \<longleftrightarrow> users d' = users d \<or>
     (\<exists>u. G (uRole u) \<and> uID u \<notin> uID ` set (users d) \<and> uEmail u \<notin> uEmail ` set (users d) \<and>
        users d' = users d @ [u]) \<or>
     (\<exists>p r t. G r \<and> users d' = sql_update p (\<lambda>u. u\<lparr>uRole := r, uUpdatedAt := t\<rparr>) (users d))"

lemma user_step_ok: "user_step G d d' \<Longrightarrow> accounts_ok d \<Longrightarrow> accounts_ok d' \<and> keeps_accounts d d'"
  unfolding user_step_def
proof (elim disjE exE conjE)
  fix p r t assume ok: "accounts_ok d"
    and u: "users d' = sql_update p (\<lambda>u. u\<lparr>uRole := r, uUpdatedAt := t\<rparr>) (users d)"
  have "map uID (users d') = map uID (users d)" "map uEmail (users d') = map uEmail (users d)"
    "account ` set (users d') = account ` set (users d)"
    unfolding u by (rule map_sql_update key_sql_update; simp add: account_def)+
  then show ?thesis using ok by (simp add: accounts_ok_def keeps_accounts_def)
qed (auto simp: accounts_ok_def keeps_accounts_def)

lemma create_users: "createReservationTx env u ev num until d = Inr (b, d') \<Longrightarrow> users d' = users d"
  by (auto simp: createReservationTx_def reserveSeatTx_def ebind_Inr_iff insert_Inr_iff Let_def)

lemma purchase_users: "completePurchaseTx env bid d = Inr (b, d') \<Longrightarrow> users d' = users d"
  by (auto simp: completePurchaseTx_def ebind_Inr_iff Let_def split: if_splits)

lemma revert_users: "revertFailedPurchaseTx env bid d = Inr (b, d') \<Longrightarrow> users d' = users d"
  by (auto simp: revertFailedPurchaseTx_def ebind_Inr_iff Let_def dest!: increment_available_Inr)

lemma extend_users: "extendReservationTx env bid until d = Inr (b, d') \<Longrightarrow> users d' = users d"
  by (auto simp: extendReservationTx_def ebind_Inr_iff Let_def)

lemma release_users: "releaseReservationTx env bid st req d = Inr (b, d') \<Longrightarrow> users d' = users d"
  by (auto simp: releaseReservationTx_def ebind_Inr_iff Let_def dest!: increment_available_Inr)

lemma insert_seats_users: "insert_seats env ev i n d = Inr d' \<Longrightarrow> users d' = users d"
  by (induction n arbitrary: i d) (auto simp: ebind_Inr_iff insert_Inr_iff)

lemmas body_users = create_users purchase_users revert_users extend_users release_users
  insert_seats_users

lemma same_users: "users d' = users d \<Longrightarrow> user_step G d d'"
  by (simp add: user_step_def)

lemma booking_ops_step:
  "user_step G d (snd (CreateReservation env d u ev num until))"
  "user_step G d (snd (CompletePurchase env d bid))"
  "user_step G d (snd (RevertFailedPurchase env d bid))"
  "user_step G d (snd (ExtendReservation env d bid until))"
  "user_step G d (snd (releaseReservation env d bid st req))"
  "user_step G d (snd (CreateBulkSeats env d ev n))"
proof -
  have tx: "user_step G d (snd (run_tx env body d))"
    if "\<And>x d'. body d = Inr (x, d') \<Longrightarrow> users d' = users d" for body :: "db \<Rightarrow> ('x \<times> db) res"
    by (rule run_tx_inv) (rule same_users; (rule refl | erule that))+
  show "user_step G d (snd (CreateReservation env d u ev num until))"
    "user_step G d (snd (CompletePurchase env d bid))"
    "user_step G d (snd (RevertFailedPurchase env d bid))"
    "user_step G d (snd (releaseReservation env d bid st req))"
    unfolding CreateReservation_def CompletePurchase_def RevertFailedPurchase_def releaseReservation_def
    by (rule tx, erule body_users)+
  show "user_step G d (snd (ExtendReservation env d bid until))"
    unfolding ExtendReservation_def
    by (cases "clock env 0 < until") (simp_all add: same_users tx [OF extend_users])
  show "user_step G d (snd (CreateBulkSeats env d ev n))"
    unfolding CreateBulkSeats_def by (rule tx) (auto simp: ebind_Inr_iff dest: insert_seats_users)
qed

lemma catalog_ops_step:
  "user_step G d (snd (SetPaymentIntentID env d bid i))" "user_step G d (snd (venue_Create env d v))"
  "user_step G d (snd (event_Create env d e))"
proof -
  note ac = auto_commit_inv [where P = "user_step G d", OF same_users [OF refl]]
  have "snd (SetPaymentIntentID env d bid i) = snd (auto_commit env (Stmt 1) (\<lambda>d. Inr (rows_affected
      (\<lambda>b. bID b = bid \<and> (bStatus b = BookingStatusReserved \<or> bStatus b = BookingStatusPurchased) \<and>
         (bPaymentIntentID b = None \<or> bPaymentIntentID b = Some '''')) (bookings d),
      bookings_update (sql_update (\<lambda>b. bID b = bid \<and>
         (bStatus b = BookingStatusReserved \<or> bStatus b = BookingStatusPurchased) \<and>
         (bPaymentIntentID b = None \<or> bPaymentIntentID b = Some ''''))
        (\<lambda>b. b\<lparr>bPaymentIntentID := Some i, bUpdatedAt := tx_time env\<rparr>)) d)) d)"
    by (auto simp: SetPaymentIntentID_def Let_def split: sum.splits prod.splits)
  also have "user_step G d \<dots>" by (rule ac) (auto intro: same_users)
  finally show "user_step G d (snd (SetPaymentIntentID env d bid i))" .
  show "user_step G d (snd (venue_Create env d v))" "user_step G d (snd (event_Create env d e))"
    unfolding venue_Create_def event_Create_def Let_def
    by (rule ac; auto simp: ebind_Inr_iff insert_Inr_iff intro: same_users)+
qed

lemma user_ops_step:
  "G (uRole u) \<Longrightarrow> user_step G d (snd (user_Create env d u))"
  "G role \<Longrightarrow> user_step G d (snd (UpdateRole env d uid role))"
proof -
  note ac = auto_commit_inv [where P = "user_step G d", OF same_users [OF refl]]
  have 1: "snd (case r of (Inl a, d') \<Rightarrow> (Inl (f a), d') | (Inr b, d') \<Rightarrow> (Inr b, d')) = snd r"
    for r :: "'x res \<times> db" and f by (auto split: prod.splits sum.splits)
  show "user_step G d (snd (user_Create env d u))" if "G (uRole u)"
    unfolding user_Create_def Let_def 1
    by (rule ac) (use that in \<open>auto simp: ebind_Inr_iff insert_Inr_iff user_step_def sql_insert_def\<close>)
  assume g: "G role"
  have "snd (UpdateRole env d uid role) = snd (auto_commit env (Stmt 2) (\<lambda>d. Inr (rows_affected
      (\<lambda>u. uID u = uid) (users d), users_update (sql_update (\<lambda>u. uID u = uid)
          (\<lambda>u. u\<lparr>uRole := role, uUpdatedAt := tx_time env\<rparr>)) d)) d)"
    by (auto simp: UpdateRole_def split: sum.splits prod.splits)
  also have "user_step G d \<dots>" by (rule ac) (use g in \<open>auto simp: user_step_def\<close>)
  finally show "user_step G d (snd (UpdateRole env d uid role))" .
qed

text \<open>The roles a transaction gives to an account.\<close>

fun grants :: "txop \<Rightarrow> UserRole \<Rightarrow> bool" where
  "grants (TxCreateUser env u) r \<longleftrightarrow> r = uRole u"
| "grants (TxUpdateRole env uid role) r \<longleftrightarrow> r = role"
| "grants _ r \<longleftrightarrow> False"

lemma exec_user_step: "user_step (grants op) d (exec_tx op d)"
  by (cases op) (simp_all add: booking_ops_step catalog_ops_step user_ops_step
      ReleaseExpiredReservation_def CancelReservation_def)

lemma user_step_roles:
  "user_step G d d' \<Longrightarrow> uRole ` set (users d') \<subseteq> uRole ` set (users d) \<union> Collect G"
  by (auto simp: user_step_def sql_update_def split: if_splits)

lemma roles_granted:
  "uRole ` set (users (run exec_tx ops d)) \<subseteq> uRole ` set (users d) \<union> (\<Union>op\<in>set ops. Collect (grants op))"
proof (induction ops arbitrary: d)
  case (Cons op ops)
  from Cons.IH [of "exec_tx op d"] user_step_roles [OF exec_user_step [of op d]] show ?case by auto
qed simp

interpretation accounts_run: bounded_system exec_tx accounts_ok keeps_accounts
proof
  show "accounts_ok s \<Longrightarrow> accounts_ok (exec_tx op s)" for s op
    using user_step_ok [OF exec_user_step] by blast
  show "accounts_ok s \<Longrightarrow> keeps_accounts s (exec_tx op s)" for s op
    using user_step_ok [OF exec_user_step] by blast
qed (auto simp: keeps_accounts_def)

section \<open>Registering and logging in\<close>

lemma arepo_Inr: "arepo env k f d = (r, d') \<longleftrightarrow> f (aTx env k) (run exec_tx (aOthers env k) d) = (r, d')"
  by (simp add: arepo_def)

lemma user_Create_Inr:
  assumes "user_Create t d u = (Inr u', d')"
  shows "users d' = users d @ [u']" "u' = u\<lparr>uID := new_uuid t 0, uCreatedAt := clock t 0, uUpdatedAt := clock t 0\<rparr>"
  using assms
  by (auto simp: user_Create_def Let_def ebind_Inr_iff insert_Inr_iff sql_insert_def
      dest!: auto_commit_Inr split: sum.splits prod.splits if_splits)

lemma Register_Inr:
  assumes "Register env req d = (Inr resp, d')"
  obtains d0 h where "HashPassword (aCrypto env) (rrPassword req) = Inr h"
    "user_Create (aTx env 1) (run exec_tx (aOthers env 1) (run exec_tx (aOthers env 0) d))
       \<lparr>uID = uuid_Nil, uEmail = rrEmail req, uPasswordHash = h, uFullName = rrFullName req,
        uRole = RoleUser, uCreatedAt = 0, uUpdatedAt = 0\<rparr> = (Inr (arUser resp), d')"
    "token_response env (arUser resp) = Inr resp"
  using assms
  by (auto simp: Register_def abind_def aret_def arepo_def aread_def token_response_def
      split: sum.splits prod.splits if_splits)

lemma Login_Inr:
  assumes "Login env req d = (Inr resp, d')"
  shows "token_response env (arUser resp) = Inr resp"
    and "d' = run exec_tx (aOthers env 0) d"
    and "arUser resp \<in> set (users d')" "uEmail (arUser resp) = lrEmail req"
    and "CheckPasswordHash (aCrypto env) (lrPassword req) (uPasswordHash (arUser resp))"
  using assms
  by (auto simp: Login_def abind_def aret_def arepo_def aread_def token_response_def
      user_FindByEmail_def user_lookup_def ebind_Inr_iff dest!: query_row_Inr
      split: sum.splits prod.splits if_splits)

lemma FindByEmail_account:
  assumes "accounts_ok d" "u \<in> set (users d)" "fault_free t"
  shows "user_FindByEmail t d (uEmail u) = Inr u"
proof -
  have "query_row (sql_select (\<lambda>x. uEmail x = uEmail u) (users d)) = Inr u"
    using assms(1,2) by (intro query_row_unique) (auto simp: accounts_ok_def dest: key_inj)
  then show ?thesis using assms(3) by (simp add: user_FindByEmail_def user_lookup_def)
qed

lemma FindByEmail_unknown:
  assumes "email \<notin> uEmail ` set (users d)" "fault_free t"
  shows "user_FindByEmail t d email = Inl RepoErrUserNotFound"
proof -
  have "sql_select (\<lambda>x. uEmail x = email) (users d) = []"
    using assms(1) by (auto simp: sql_select_def filter_empty_conv)
  then show ?thesis using assms(2) by (simp add: user_FindByEmail_def user_lookup_def query_row_def)
qed

definition signs :: "aenv \<Rightarrow> bool" where
  "signs env \<longleftrightarrow> (\<forall>c. is_ok (jwt_Sign (aCrypto env) (jwtSecret (aJWT env)) c))"

lemma token_response_signs:
  assumes "signs env"
  shows "\<exists>tok. token_response env u = Inr \<lparr>arUser = u, arToken = tok\<rparr>"
proof -
  let ?g = "GenerateToken (aCrypto env) (aNow env) (uID u) (uEmail u) (role_string (uRole u))
      (jwtSecret (aJWT env)) (jwtExpiryHours (aJWT env))"
  have "is_ok ?g" unfolding GenerateToken_def Let_def using assms unfolding signs_def by (rule spec)
  then obtain tok where "?g = Inr tok" by (cases ?g) simp_all
  then show ?thesis by (simp add: token_response_def)
qed

text \<open>
  C35. An account works from its registration on, whatever the program's transactions do
  afterwards (role changes included): a login with the registered e-mail succeeds, for the
  account that was registered, exactly with the passwords bcrypt accepts for the hash stored at
  the registration; the registered password is one of them. Every other password is refused as
  invalid credentials, and so is every login with an e-mail that no account has. Which other
  passwords bcrypt accepts is its own: it compares the first 72 bytes.
\<close>

theorem registered_account_works:
  assumes "crypto_ok (aCrypto env)" "accounts_ok d" "Register env req d = (Inr resp, d1)"
    and "aCrypto env' = aCrypto env" "signs env'" "fault_free (aTx env' 0)"
  shows "CheckPasswordHash (aCrypto env) (rrPassword req) (uPasswordHash (arUser resp)) \<and>
    (\<forall>p. if CheckPasswordHash (aCrypto env) p (uPasswordHash (arUser resp))
       then \<exists>resp'. Login env' \<lparr>lrEmail = rrEmail req, lrPassword = p\<rparr> (run exec_tx ops d1) =
              (Inr resp', run exec_tx (ops @ aOthers env' 0) d1) \<and>
            account (arUser resp') = account (arUser resp)
       else Login env' \<lparr>lrEmail = rrEmail req, lrPassword = p\<rparr> (run exec_tx ops d1) =
              (Inl SvcErrInvalidCreds, run exec_tx (ops @ aOthers env' 0) d1)) \<and>
    (\<forall>email p. email \<notin> uEmail ` set (users (run exec_tx (ops @ aOthers env' 0) d1)) \<longrightarrow>
       Login env' \<lparr>lrEmail = email, lrPassword = p\<rparr> (run exec_tx ops d1) =
         (Inl SvcErrInvalidCreds, run exec_tx (ops @ aOthers env' 0) d1))"
proof -
  let ?d = "run exec_tx (aOthers env 1) (run exec_tx (aOthers env 0) d)"
  let ?e = "run exec_tx (ops @ aOthers env' 0) d1"
  obtain h where h: "HashPassword (aCrypto env) (rrPassword req) = Inr h"
    and c: "user_Create (aTx env 1) ?d \<lparr>uID = uuid_Nil, uEmail = rrEmail req, uPasswordHash = h,
        uFullName = rrFullName req, uRole = RoleUser, uCreatedAt = 0, uUpdatedAt = 0\<rparr> = (Inr (arUser resp), d1)"
    using assms(3) by (rule Register_Inr)
  have "accounts_ok ?d" using accounts_run.run_inv assms(2) by blast
  then have ok1: "accounts_ok d1"
    using user_step_ok [OF user_ops_step(1) [where G = "\<lambda>_. True"]] c by (metis snd_conv)
  then have ok: "accounts_ok ?e" by (rule accounts_run.run_inv)
  have u: "arUser resp \<in> set (users d1)" "uEmail (arUser resp) = rrEmail req"
    "uPasswordHash (arUser resp) = h" using user_Create_Inr [OF c] by auto
  obtain v where v: "v \<in> set (users ?e)" "account v = account (arUser resp)"
    using accounts_run.run_rel [OF ok1, of "ops @ aOthers env' 0"] u(1)
    by (fastforce simp: keeps_accounts_def)
  then have v': "uEmail v = rrEmail req" "uPasswordHash v = h" using u by (simp_all add: account_def)
  have f: "user_FindByEmail (aTx env' 0) ?e (rrEmail req) = Inr v"
    using FindByEmail_account [OF ok v(1) assms(6)] v'(1) by simp
  have m: "CheckPasswordHash (aCrypto env) (rrPassword req) h"
    using assms(1) h by (simp add: crypto_ok_def HashPassword_def CheckPasswordHash_def)
  obtain tok where t: "token_response env' v = Inr \<lparr>arUser = v, arToken = tok\<rparr>"
    using token_response_signs [OF assms(5)] by blast
  have unknown: "user_FindByEmail (aTx env' 0) ?e email = Inl RepoErrUserNotFound"
    if "email \<notin> uEmail ` set (users ?e)" for email
    by (rule FindByEmail_unknown) (use that assms(6) in simp_all)
  have "if CheckPasswordHash (aCrypto env) p (uPasswordHash (arUser resp))
      then \<exists>resp'. Login env' \<lparr>lrEmail = rrEmail req, lrPassword = p\<rparr> (run exec_tx ops d1) = (Inr resp', ?e) \<and>
        account (arUser resp') = account (arUser resp)
      else Login env' \<lparr>lrEmail = rrEmail req, lrPassword = p\<rparr> (run exec_tx ops d1) = (Inl SvcErrInvalidCreds, ?e)" for p
    using f v v' t u(3) by (auto simp: Login_def abind_def arepo_def aread_def aret_def run_append assms(4))
  moreover have "Login env' \<lparr>lrEmail = email, lrPassword = p\<rparr> (run exec_tx ops d1) = (Inl SvcErrInvalidCreds, ?e)"
    if "email \<notin> uEmail ` set (users ?e)" for email p
    using unknown [OF that] by (simp add: Login_def abind_def arepo_def aread_def aret_def run_append)
  ultimately show ?thesis using m u(3) by blast
qed

definition demo_aenv :: "time \<Rightarrow> aenv" where
  "demo_aenv t = \<lparr>aCrypto = demo_crypto, aJWT = \<lparr>jwtSecret = ''s'', jwtExpiryHours = 24\<rparr>,
     aNow = (\<lambda>_. t), aTx = (\<lambda>_. quiet_env t 1), aOthers = (\<lambda>_. [])\<rparr>"

lemma demo_aenv_simps [simp]:
  "aCrypto (demo_aenv t) = demo_crypto" "aTx (demo_aenv t) k = quiet_env t 1"
  "aOthers (demo_aenv t) k = []" "aNow (demo_aenv t) k = t"
  "jwtSecret (aJWT (demo_aenv t)) = ''s''" "jwtExpiryHours (aJWT (demo_aenv t)) = 24"
  by (simp_all add: demo_aenv_def)

lemma demo_signs: "signs (demo_aenv t)"
  by (simp add: signs_def demo_crypto_def)

definition demo_register :: RegisterRequest where
  "demo_register = \<lparr>rrEmail = ''a@b.c'', rrPassword = ''secret'', rrFullName = ''A B''\<rparr>"

definition registered_user :: User where
  "registered_user = \<lparr>uID = 1, uEmail = ''a@b.c'', uPasswordHash = ''$secret'', uFullName = ''A B'',
     uRole = RoleUser, uCreatedAt = 5, uUpdatedAt = 5\<rparr>"

lemma demo_Register:
  "Register (demo_aenv 5) demo_register empty_db =
    (token_response (demo_aenv 5) registered_user, empty_db\<lparr>users := [registered_user]\<rparr>)"
  by (simp add: Register_def abind_def arepo_def aread_def aret_def demo_register_def empty_db_def
      user_FindByEmail_def user_lookup_def sql_select_def query_row_def HashPassword_def
      demo_crypto_def user_Create_def Let_def auto_commit_def commit_def insert_user_def
      sql_insert_def registered_user_def)

lemma registered_account_works_witness:
  "(\<exists>resp'. Login (demo_aenv 9) \<lparr>lrEmail = ''a@b.c'', lrPassword = ''secret''\<rparr>
     (empty_db\<lparr>users := [registered_user\<lparr>uRole := RoleAdmin, uUpdatedAt := 7\<rparr>]\<rparr>) =
     (Inr resp', empty_db\<lparr>users := [registered_user\<lparr>uRole := RoleAdmin, uUpdatedAt := 7\<rparr>]\<rparr>) \<and>
   account (arUser resp') = account registered_user) \<and>
   fst (Login (demo_aenv 9) \<lparr>lrEmail = ''a@b.c'', lrPassword = ''other''\<rparr>
     (empty_db\<lparr>users := [registered_user\<lparr>uRole := RoleAdmin, uUpdatedAt := 7\<rparr>]\<rparr>)) = Inl SvcErrInvalidCreds"
proof -
  obtain tok where tok: "token_response (demo_aenv 5) registered_user = Inr \<lparr>arUser = registered_user, arToken = tok\<rparr>"
    using token_response_signs [OF demo_signs] by blast
  have d: "run exec_tx [TxUpdateRole (quiet_env 7 0) 1 RoleAdmin] (empty_db\<lparr>users := [registered_user]\<rparr>) =
      empty_db\<lparr>users := [registered_user\<lparr>uRole := RoleAdmin, uUpdatedAt := 7\<rparr>]\<rparr>"
    by (simp add: UpdateRole_def auto_commit_def commit_def registered_user_def sql_update_def rows_affected_def)
  have ok: "accounts_ok empty_db" by (simp add: accounts_ok_def empty_db_def)
  have c: "crypto_ok (aCrypto (demo_aenv 5))" by (simp add: demo_crypto_ok)
  have p: "CheckPasswordHash demo_crypto ''secret'' (uPasswordHash registered_user)"
    "\<not> CheckPasswordHash demo_crypto ''other'' (uPasswordHash registered_user)"
    by (simp_all add: CheckPasswordHash_def demo_crypto_def registered_user_def)
  note w = registered_account_works [OF c ok demo_Register [unfolded tok], of "demo_aenv 9"
    "[TxUpdateRole (quiet_env 7 0) 1 RoleAdmin]", THEN conjunct2, THEN conjunct1, THEN spec]
  show ?thesis
    using w [of "''secret''"] w [of "''other''"] d p by (simp add: demo_signs demo_register_def)
qed

section \<open>Tokens\<close>

lemma response_token:
  assumes "Login env req d = (Inr resp, d') \<or> Register env req' d = (Inr resp, d')"
  shows "token_response env (arUser resp) = Inr resp"
  using assms by (elim disjE) (auto dest: Login_Inr(1) elim: Register_Inr)

lemma token_parses:
  assumes "crypto_ok (aCrypto env)" "token_response env u = Inr resp" "aNow env 2 \<le> now"
  obtains c where "cUserID c = uID u" "cEmail c = uEmail u" "cRole c = role_string (uRole u)"
    "ValidateToken (aCrypto env) now (arToken resp) (jwtSecret (aJWT env)) =
       (if now < jwt_NumericDate (aCrypto env) (aNow env 0 + ExpiryDuration (aJWT env))
        then Inr c else Inl jwt_ErrExpiredToken)"
    "CHR '' '' \<notin> set (arToken resp)"
proof -
  define c where "c = \<lparr>cUserID = uID u, cEmail = uEmail u, cRole = role_string (uRole u),
    cExpiresAt = jwt_NumericDate (aCrypto env) (aNow env 0 + ExpiryDuration (aJWT env)),
    cIssuedAt = jwt_NumericDate (aCrypto env) (aNow env 1),
    cNotBefore = jwt_NumericDate (aCrypto env) (aNow env 2), cIssuer = ''event-ticketing-system''\<rparr>"
  have s: "jwt_Sign (aCrypto env) (jwtSecret (aJWT env)) c = Inr (arToken resp)"
    using assms(2) by (auto simp: token_response_def GenerateToken_def Let_def c_def ExpiryDuration_def
        split: sum.splits)
  have w: "whole_dates (aCrypto env) c"
    using assms(1) by (simp add: crypto_ok_def whole_dates_def c_def)
  have nb: "cNotBefore c \<le> now" using assms(1,3) by (auto simp: crypto_ok_def c_def intro: order_trans)
  have p: "jwt_Parse (aCrypto env) now (\<lambda>hmac. if \<not> hmac then Inl jwt_ErrInvalidToken
      else Inr (jwtSecret (aJWT env))) (arToken resp) =
      (if now < cExpiresAt c then Inr (c, True) else Inl TokenExpired)"
    and b: "CHR '' '' \<notin> set (arToken resp)"
    using assms(1) s w nb unfolding crypto_ok_def by auto
  show thesis
    by (rule that [of c]) (simp_all add: c_def p [unfolded c_def] b ValidateToken_def)
qed

lemma token_admits:
  assumes "crypto_ok (aCrypto env)" "token_response env (arUser resp) = Inr resp" "aNow env 2 \<le> now"
    and "c' = c\<lparr>ctxUserID := Some (uID (arUser resp)), ctxUserEmail := Some (uEmail (arUser resp)),
         ctxUserRole := Some (role_string (uRole (arUser resp)))\<rparr>"
  shows "RequireAuth (aCrypto env) (jwtSecret (aJWT env)) now (''Bearer '' @ arToken resp) c =
      (if now < jwt_NumericDate (aCrypto env) (aNow env 0 + ExpiryDuration (aJWT env))
       then Inr c' else Inl (401, ''invalid or expired token'')) \<and>
    RequireAdmin c' = (if uRole (arUser resp) = RoleAdmin then Inr c'
      else Inl (403, ''admin access required''))"
proof -
  obtain cl where cl: "cUserID cl = uID (arUser resp)" "cEmail cl = uEmail (arUser resp)"
    "cRole cl = role_string (uRole (arUser resp))"
    and v: "ValidateToken (aCrypto env) now (arToken resp) (jwtSecret (aJWT env)) =
       (if now < jwt_NumericDate (aCrypto env) (aNow env 0 + ExpiryDuration (aJWT env))
        then Inr cl else Inl jwt_ErrExpiredToken)"
    and b: "CHR '' '' \<notin> set (arToken resp)"
    using token_parses [OF assms(1-3)] by blast
  have "Split (''Bearer'' @ CHR '' '' # arToken resp) (CHR '' '') = [''Bearer'', arToken resp]"
    by (subst Split_append) (simp_all add: Split_none b)
  then have "Split (''Bearer '' @ arToken resp) (CHR '' '') = [''Bearer'', arToken resp]" by simp
  moreover have "(role_string r = ''admin'') = (r = RoleAdmin)" for r by (cases r) simp_all
  ultimately show ?thesis
    using cl v by (simp add: RequireAuth_def RequireAdmin_def Let_def assms(4) del: Split.simps)
qed

text \<open>
  C36. A token says who the caller is until it expires: a request whose \<open>Authorization\<close> header
  carries the token of a login or a registration passes \<open>RequireAuth\<close> as that user, with the
  role the user had then, until \<open>ExpiryHours\<close> later (to the second), and is then refused with
  401; \<open>RequireAdmin\<close> lets the request pass exactly when the user was an administrator.
\<close>

theorem token_authenticates:
  assumes "crypto_ok (aCrypto env)" "Login env req d = (Inr resp, d') \<or> Register env req' d = (Inr resp, d')"
    and "aNow env 2 \<le> now"
    and "c' = c\<lparr>ctxUserID := Some (uID (arUser resp)), ctxUserEmail := Some (uEmail (arUser resp)),
         ctxUserRole := Some (role_string (uRole (arUser resp)))\<rparr>"
  shows "RequireAuth (aCrypto env) (jwtSecret (aJWT env)) now (''Bearer '' @ arToken resp) c =
      (if now < jwt_NumericDate (aCrypto env) (aNow env 0 + ExpiryDuration (aJWT env))
       then Inr c' else Inl (401, ''invalid or expired token'')) \<and>
    RequireAdmin c' = (if uRole (arUser resp) = RoleAdmin then Inr c'
      else Inl (403, ''admin access required''))"
  by (rule token_admits [OF assms(1) response_token [OF assms(2)] assms(3,4)])

text \<open>The token of the registration above, one hour and two days later.\<close>

lemma token_authenticates_witness:
  "\<exists>tok. Register (demo_aenv 5) demo_register empty_db =
     (Inr \<lparr>arUser = registered_user, arToken = tok\<rparr>, empty_db\<lparr>users := [registered_user]\<rparr>) \<and>
   RequireAuth demo_crypto ''s'' Hour (''Bearer '' @ tok) anonymous =
     Inr \<lparr>ctxUserID = Some 1, ctxUserEmail = Some ''a@b.c'', ctxUserRole = Some ''user''\<rparr> \<and>
   RequireAuth demo_crypto ''s'' (48 * Hour) (''Bearer '' @ tok) anonymous =
     Inl (401, ''invalid or expired token'')"
proof -
  let ?c = "\<lparr>ctxUserID = Some 1, ctxUserEmail = Some ''a@b.c'', ctxUserRole = Some ''user''\<rparr>"
  obtain tok where tok: "token_response (demo_aenv 5) registered_user = Inr \<lparr>arUser = registered_user, arToken = tok\<rparr>"
    using token_response_signs [OF demo_signs] by blast
  have c: "crypto_ok (aCrypto (demo_aenv 5))" by (simp add: demo_crypto_ok)
  have e: "ExpiryDuration (aJWT (demo_aenv 5)) = 24 * Hour"
    by (simp add: ExpiryDuration_def wrap64_id int64_def duration_defs)
  have n: "jwt_NumericDate demo_crypto (5 + 24 * Hour) = 24 * Hour"
    by (simp add: demo_crypto_def duration_defs)
  note t = token_authenticates [OF c disjI2 [OF demo_Register [unfolded tok]], where c = anonymous and c' = ?c]
  show ?thesis
    using t [of Hour] t [of "48 * Hour"] demo_Register [unfolded tok]
    by (intro exI [of _ tok]) (simp add: e n [simplified duration_defs, simplified] anonymous_def registered_user_def duration_defs)
qed

section \<open>What roles in tokens mean\<close>

text \<open>
  The role is read from the token, not from the database: the token of an administrator who
  has been demoted passes \<open>RequireAdmin\<close> until it expires.
\<close>

lemma demoted_admin_passes:
  "\<exists>tok u d. Login (demo_aenv 9) \<lparr>lrEmail = ''a@b.c'', lrPassword = ''secret''\<rparr>
       (empty_db\<lparr>users := [registered_user\<lparr>uRole := RoleAdmin\<rparr>]\<rparr>) =
       (Inr \<lparr>arUser = registered_user\<lparr>uRole := RoleAdmin\<rparr>, arToken = tok\<rparr>,
        empty_db\<lparr>users := [registered_user\<lparr>uRole := RoleAdmin\<rparr>]\<rparr>) \<and>
     DemoteToUser (demo_aenv 20) 1 (empty_db\<lparr>users := [registered_user\<lparr>uRole := RoleAdmin\<rparr>]\<rparr>) = (Inr u, d) \<and>
     uRole u = RoleUser \<and>
     (\<exists>c. RequireAuth demo_crypto ''s'' Hour (''Bearer '' @ tok) anonymous = Inr c \<and> RequireAdmin c = Inr c)"
proof -
  let ?u = "registered_user\<lparr>uRole := RoleAdmin\<rparr>"
  let ?d = "empty_db\<lparr>users := [?u]\<rparr>"
  obtain tok where tok: "token_response (demo_aenv 9) ?u = Inr \<lparr>arUser = ?u, arToken = tok\<rparr>"
    using token_response_signs [OF demo_signs] by blast
  have l: "Login (demo_aenv 9) \<lparr>lrEmail = ''a@b.c'', lrPassword = ''secret''\<rparr> ?d =
      (Inr \<lparr>arUser = ?u, arToken = tok\<rparr>, ?d)"
    using tok by (simp add: Login_def abind_def arepo_def aread_def aret_def user_FindByEmail_def
        user_lookup_def sql_select_def query_row_def registered_user_def CheckPasswordHash_def
        demo_crypto_def)
  have dm: "\<exists>d. DemoteToUser (demo_aenv 20) 1 ?d = (Inr (?u\<lparr>uRole := RoleUser\<rparr>), d)"
    by (simp add: DemoteToUser_def change_role_def abind_def arepo_def aread_def aret_def
        user_FindByID_def user_lookup_def sql_select_def query_row_def registered_user_def
        find_user_error_def UpdateRole_def auto_commit_def commit_def rows_affected_def)
  have c: "crypto_ok (aCrypto (demo_aenv 9))" by (simp add: demo_crypto_ok)
  have e: "ExpiryDuration (aJWT (demo_aenv 9)) = 24 * Hour"
    by (simp add: ExpiryDuration_def wrap64_id int64_def duration_defs)
  obtain cl where "cRole cl = ''admin''" "ValidateToken demo_crypto Hour tok ''s'' = Inr cl"
    "CHR '' '' \<notin> set tok"
    using token_parses [OF c tok, of Hour] by (auto simp: e demo_crypto_def duration_defs)
  moreover from this(3) have "Split (''Bearer'' @ CHR '' '' # tok) (CHR '' '') = [''Bearer'', tok]"
    by (subst Split_append) (simp_all add: Split_none)
  ultimately show ?thesis using l dm
    by (auto simp: RequireAuth_def RequireAdmin_def Let_def simp del: Split.simps)
qed

text \<open>
  Two registrations of one e-mail at the same time: the second one's \<open>Create\<close> fails on the
  unique constraint, and the error is not the service's \<open>ErrUserExists\<close>.
\<close>

lemma register_race:
  "\<exists>e d. Register ((demo_aenv 5)\<lparr>aOthers := (\<lambda>k. if k = 1 then [TxCreateUser (quiet_env 4 9) demo_user] else [])\<rparr>)
       demo_register empty_db = (Inl e, d) \<and>
     \<not> errors_Is e SvcErrUserExists \<and> errors_Is e RepoErrUserExists"
  by (simp add: Register_def abind_def arepo_def aread_def aret_def demo_register_def empty_db_def
      user_FindByEmail_def user_lookup_def sql_select_def query_row_def HashPassword_def
      demo_crypto_def user_Create_def Let_def auto_commit_def commit_def insert_user_def
      sql_insert_def demo_user_def unique_violation_def demo_aenv_def)

section \<open>The first administrator\<close>

text \<open>
  Roles come from the transactions that grant them. Where there is no administrator and
  nobody else makes one, registering and logging in make none either, and no token they hand
  out passes \<open>RequireAdmin\<close>: the routes that could promote somebody stay closed. The first
  administrator has to be made in the database, past the API.
\<close>

definition no_admin :: "db \<Rightarrow> bool" where
  "no_admin d \<longleftrightarrow> RoleAdmin \<notin> uRole ` set (users d)"

lemma no_admin_run: "no_admin d \<Longrightarrow> \<forall>op\<in>set ops. \<not> grants op RoleAdmin \<Longrightarrow> no_admin (run exec_tx ops d)"
  using roles_granted [of ops d] by (auto simp: no_admin_def)

lemma no_first_admin:
  assumes "no_admin d" "\<forall>k. \<forall>op\<in>set (aOthers env k). \<not> grants op RoleAdmin"
    and "Login env req d = (Inr resp, d') \<or> Register env req' d = (Inr resp, d')"
  shows "no_admin d' \<and> uRole (arUser resp) = RoleUser"
  using assms(3)
proof (elim disjE)
  assume l: "Login env req d = (Inr resp, d')"
  then have "no_admin d'" using Login_Inr(2) no_admin_run assms(1,2) by blast
  with Login_Inr(3) [OF l] show ?thesis by (cases "uRole (arUser resp)") (auto simp: no_admin_def image_iff)
next
  assume "Register env req' d = (Inr resp, d')"
  then show ?thesis
  proof (rule Register_Inr)
    fix h
    assume c: "user_Create (aTx env 1) (run exec_tx (aOthers env 1) (run exec_tx (aOthers env 0) d))
       \<lparr>uID = uuid_Nil, uEmail = rrEmail req', uPasswordHash = h, uFullName = rrFullName req',
        uRole = RoleUser, uCreatedAt = 0, uUpdatedAt = 0\<rparr> = (Inr (arUser resp), d')"
    have "no_admin (run exec_tx (aOthers env 1) (run exec_tx (aOthers env 0) d))"
      using no_admin_run assms(1,2) by blast
    with user_Create_Inr [OF c] show ?thesis by (auto simp: no_admin_def)
  qed
qed

lemma ordinary_token_refused:
  assumes "uRole (arUser resp) = RoleUser" "crypto_ok (aCrypto env)"
    and "token_response env (arUser resp) = Inr resp" "aNow env 2 \<le> now"
    and "RequireAuth (aCrypto env) (jwtSecret (aJWT env)) now (''Bearer '' @ arToken resp) c = Inr c'"
  shows "RequireAdmin c' = Inl (403, ''admin access required'')"
  using token_admits [OF assms(2-4) refl, of c] assms(1,5) by (auto split: if_splits)

end
