(* ===== verification/Queue_Theorems.thy ===== *)
theory Queue_Theorems
  imports Command_Queue
begin

text \<open>
  The properties of the command queue. The retry contract is an interface that both kinds of
  job provide: \<open>job_retry\<close> states what one failure does, and its client lemma follows a job
  through all its failures.
\<close>

section \<open>The retry contract\<close>

definition working :: "qenv \<Rightarrow> bool" where
  "working env \<longleftrightarrow> qEnabled env \<and> (\<forall>k. qFault env k = None)"

fun fail_all :: "('j \<Rightarrow> 's \<Rightarrow> 's) \<Rightarrow> ('j \<Rightarrow> 'j) \<Rightarrow> nat \<Rightarrow> 'j \<Rightarrow> 's \<Rightarrow> 's" where
  "fail_all f next_job 0 j s = s"
| "fail_all f next_job (Suc n) j s = fail_all f next_job n (next_job j) (f j s)"

locale job_retry =
  fixes fail :: "qenv \<Rightarrow> 'j \<Rightarrow> string \<Rightarrow> qstate \<Rightarrow> unit res \<times> qstate"
    and attempt :: "'j \<Rightarrow> int"
    and at_attempt :: "int \<Rightarrow> 'j \<Rightarrow> 'j"
    and topic :: "qstate \<Rightarrow> (string \<times> 'j) list"
    and dead :: "qstate \<Rightarrow> (string \<times> 'j) list"
    and key :: "qenv \<Rightarrow> 'j \<Rightarrow> string"
  assumes attempt_at: "attempt (at_attempt i j) = i"
    and at_at: "at_attempt i (at_attempt k j) = at_attempt i j"
    and at_same: "at_attempt (attempt j) j = j"
    and key_at: "key env (at_attempt i j) = key env j"
    and fail_retries: "working env \<Longrightarrow> attempt j < qMaxRetries env \<Longrightarrow>
      topic (snd (fail env j m q)) = topic q @ [(key env j, at_attempt (attempt j + 1) j)] \<and>
      dead (snd (fail env j m q)) = dead q"
    and fail_buries: "working env \<Longrightarrow> \<not> attempt j < qMaxRetries env \<Longrightarrow>
      topic (snd (fail env j m q)) = topic q \<and> dead (snd (fail env j m q)) = dead q @ [(key env j, j)]"
begin

lemma failures:
  assumes w: "working env"
  shows "attempt j + int n = qMaxRetries env \<Longrightarrow>
    topic (fail_all (\<lambda>j q. snd (fail env j m q)) (\<lambda>j. at_attempt (attempt j + 1) j) (Suc n) j q) =
      topic q @ map (\<lambda>i. (key env j, at_attempt (attempt j + int i) j)) [1..<Suc n] \<and>
    dead (fail_all (\<lambda>j q. snd (fail env j m q)) (\<lambda>j. at_attempt (attempt j + 1) j) (Suc n) j q) =
      dead q @ [(key env j, at_attempt (qMaxRetries env) j)]"
proof (induction n arbitrary: j q)
  case 0
  then have "\<not> attempt j < qMaxRetries env" "at_attempt (qMaxRetries env) j = j"
    using at_same [of j] by simp_all
  with fail_buries [OF w] show ?case by simp
next
  case (Suc n)
  let ?j = "at_attempt (attempt j + 1) j"
  have lt: "attempt j < qMaxRetries env" using Suc.prems by linarith
  have "attempt ?j + int n = qMaxRetries env" using Suc.prems by (simp add: attempt_at)
  note IH = Suc.IH [OF this, of "snd (fail env j m q)"]
  have "map (\<lambda>i. (key env ?j, at_attempt (attempt ?j + int i) ?j)) [1..<Suc n] =
      map (\<lambda>i. (key env j, at_attempt (attempt j + int i) j)) [2..<Suc (Suc n)]"
  proof -
    have "[2..<Suc (Suc n)] = map Suc [1..<Suc n]"
      by (simp only: map_Suc_upt numeral_2_eq_2 One_nat_def)
    then show ?thesis by (simp only: map_map comp_def) (simp add: attempt_at at_at key_at algebra_simps)
  qed
  moreover have "[1..<Suc (Suc n)] = 1 # [2..<Suc (Suc n)]"
    by (simp add: upt_conv_Cons numeral_2_eq_2)
  ultimately show ?case
    using IH fail_retries [OF w lt, of m q] by (simp add: at_at key_at del: upt_Suc)
qed

end

lemmas queue_ok = working_def setJobStatus_def write_and_count_def kafka_call_def redis_call_def Let_def

lemma bumpCounter_topics [simp]:
  "qBooking (bumpCounter env k d q) = qBooking q" "qPurchase (bumpCounter env k d q) = qPurchase q"
  "qBookingDLQ (bumpCounter env k d q) = qBookingDLQ q"
  "qPurchaseDLQ (bumpCounter env k d q) = qPurchaseDLQ q"
  "qStatus (bumpCounter env k d q) = qStatus q"
  by (simp_all add: bumpCounter_def kafka_call_def redis_call_def Let_def split: option.splits)

interpretation booking_jobs: job_retry HandleBookingJobFailure bjAttempt "\<lambda>i j. j\<lparr>bjAttempt := i\<rparr>"
  qBooking qBookingDLQ "\<lambda>env j. uuid_String (qLib env) (bjEventID j)"
  by unfold_locales (simp_all add: HandleBookingJobFailure_def queue_ok)

interpretation purchase_jobs: job_retry HandlePurchaseJobFailure pjAttempt "\<lambda>i j. j\<lparr>pjAttempt := i\<rparr>"
  qPurchase qPurchaseDLQ "\<lambda>env j. uuid_String (qLib env) (pjID j)"
  by unfold_locales (simp_all add: HandlePurchaseJobFailure_def queue_ok)

text \<open>
  C29. A job whose every attempt fails is written back exactly \<open>MaxRetries\<close> times, with
  attempts counted from one, and then once to the dead-letter topic: it is neither lost nor
  retried for ever. Stated for booking jobs and for purchase jobs.
\<close>

theorem failing_jobs_are_buried_once:
  assumes "working env" "qMaxRetries env = int n" "bjAttempt bj = 0" "pjAttempt pj = 0"
  shows "(let q1 = fail_all (\<lambda>j q. snd (HandleBookingJobFailure env j m q))
        (\<lambda>j. j\<lparr>bjAttempt := bjAttempt j + 1\<rparr>) (Suc n) bj q;
        k = uuid_String (qLib env) (bjEventID bj)
      in qBooking q1 = qBooking q @ map (\<lambda>i. (k, bj\<lparr>bjAttempt := int i\<rparr>)) [1..<Suc n] \<and>
         qBookingDLQ q1 = qBookingDLQ q @ [(k, bj\<lparr>bjAttempt := int n\<rparr>)]) \<and>
    (let q2 = fail_all (\<lambda>j q. snd (HandlePurchaseJobFailure env j m q))
        (\<lambda>j. j\<lparr>pjAttempt := pjAttempt j + 1\<rparr>) (Suc n) pj q;
        k = uuid_String (qLib env) (pjID pj)
      in qPurchase q2 = qPurchase q @ map (\<lambda>i. (k, pj\<lparr>pjAttempt := int i\<rparr>)) [1..<Suc n] \<and>
         qPurchaseDLQ q2 = qPurchaseDLQ q @ [(k, pj\<lparr>pjAttempt := int n\<rparr>)])"
  using booking_jobs.failures [OF assms(1), of bj n m q] purchase_jobs.failures [OF assms(1), of pj n m q] assms(2-4)
  by (simp add: Let_def del: upt_Suc fail_all.simps)

definition demo_qenv :: qenv where
  "demo_qenv = \<lparr>qLib = demo_lib, qEnabled = True, qRedis = True, qMaxRetries = 2, qNewID = 5,
     qNow = 1000, qFault = (\<lambda>_. None)\<rparr>"

definition demo_bjob :: BookingJob where
  "demo_bjob = \<lparr>bjID = 5, bjUserID = 1, bjEventID = 3, bjSeatNumber = ''R1-S1'', bjAttempt = 0,
     bjCreatedAt = 1000\<rparr>"

definition demo_pjob :: PurchaseJob where
  "demo_pjob = \<lparr>pjID = 6, pjUserID = 1, pjBookingID = 21, pjIdempotencyKey = ''k'', pjAttempt = 0,
     pjCreatedAt = 1000\<rparr>"

lemma failing_jobs_are_buried_once_witness:
  "length (qBooking (fail_all (\<lambda>j q. snd (HandleBookingJobFailure demo_qenv j ''x'' q))
      (\<lambda>j. j\<lparr>bjAttempt := bjAttempt j + 1\<rparr>) (Suc 2) demo_bjob empty_queue)) = 2 \<and>
   map (bjAttempt \<circ> snd) (qBookingDLQ (fail_all (\<lambda>j q. snd (HandleBookingJobFailure demo_qenv j ''x'' q))
      (\<lambda>j. j\<lparr>bjAttempt := bjAttempt j + 1\<rparr>) (Suc 2) demo_bjob empty_queue)) = [2]"
  using failing_jobs_are_buried_once [of demo_qenv 2 demo_bjob demo_pjob "''x''" empty_queue]
  by (simp add: demo_qenv_def working_def demo_bjob_def demo_pjob_def empty_queue_def Let_def
      del: fail_all.simps)

text \<open>
  The depth counter does not follow the topic: each failure counts a message in and none
  out, so after the last one the counter stands at \<open>MaxRetries\<close> above its start although no
  message of the job is left to be read.
\<close>

lemma depth_counter_drifts:
  assumes "working env" "qRedis env"
  shows "qCounter (snd (HandleBookingJobFailure env j m q)) bookingDepthKey =
    qCounter q bookingDepthKey + (if bjAttempt j < qMaxRetries env then 1 else 0)"
  using assms by (simp add: HandleBookingJobFailure_def queue_ok bumpCounter_def depth_keys)

section \<open>Status\<close>

text \<open>
  The status a successful operation stores is what \<open>GetJobStatus\<close> returns for that job
  until its time to live is over, and only until then; other jobs' statuses are not touched.
\<close>

lemma status_readback:
  assumes L: "lib_ok (qLib env)" and r: "qRedis env" and s: "setJobStatus env st q = (Inr (), q')"
    and e: "qLib env' = qLib env" "qRedis env'" "\<forall>k. qFault env' k = None"
  shows "GetJobStatus env' (jsJobID st) q' =
      (if qNow env' < qNow env + 24 * Hour
       then Inr (st\<lparr>jsUpdatedAt := qNow env,
           jsCreatedAt := (if jsCreatedAt st = zero_time then qNow env else jsCreatedAt st)\<rparr>)
       else Inl QueueErrJobNotFound) \<and>
    (j = jsJobID st \<or> GetJobStatus env' j q' = GetJobStatus env' j q)"
proof -
  have k: "status_key env' i = status_key env i" for i by (simp add: status_key_def e)
  have inj: "status_key env i = status_key env i' \<longleftrightarrow> i = i'" for i i'
    by (simp add: status_key_def uuid_String_inj [OF L])
  have q': "q' = qStatus_update (\<lambda>m. m(status_key env (jsJobID st) \<mapsto>
      (st\<lparr>jsUpdatedAt := qNow env,
           jsCreatedAt := (if jsCreatedAt st = zero_time then qNow env else jsCreatedAt st)\<rparr>,
       Some (qNow env + jobStatusTTL)))) q"
    using s r by (auto simp: setJobStatus_def Let_def kafka_call_def redis_call_def split: option.splits prod.splits)
  show ?thesis using e by (auto simp: GetJobStatus_def Let_def k inj q' jobStatusTTL_def)
qed

section \<open>Messages\<close>

lemma Itoa_no_colon: "CHR '':'' \<notin> set (Itoa n)"
proof -
  have "\<not> is_digit (CHR '':'')" by (simp add: is_digit_def)
  then have "CHR '':'' \<notin> set (Itoa_nat m)" for m using Itoa_nat_chars by blast
  then show ?thesis by (simp add: Itoa_def)
qed

text \<open>A message id parses back to its partition and offset.\<close>

lemma message_id_roundtrip:
  assumes "int64 p" "int64 off"
  shows "parseMessageID (message_id p off) = Inr (p, off)"
  using assms by (simp add: parseMessageID_def message_id_def Split_append Itoa_no_colon Split_none ParseInt_Itoa)

text \<open>The messages a generation finishes: handled without error, or not decodable.\<close>

definition finished :: "('j \<Rightarrow> bool) \<Rightarrow> 'j option \<Rightarrow> bool" where
  "finished ok m \<longleftrightarrow> (case m of None \<Rightarrow> True | Some j \<Rightarrow> ok j)"

lemma consume_log:
  "consume (\<lambda>j mid log. (ok j, log @ [mid])) (\<lambda>log. log) part msgs
     (replicate n ReadMessage @ [GenerationEnded]) pos cur log =
   (Some (last (cur # map int (filter (\<lambda>p. finished ok (msgs ! p)) [pos..<min (pos + n) (length msgs)])) + 1),
    log @ map (\<lambda>p. message_id part (int p)) (filter (\<lambda>p. msgs ! p \<noteq> None) [pos..<min (pos + n) (length msgs)]))"
proof (induction n arbitrary: pos cur log)
  case 0
  then show ?case by simp
next
  case (Suc n)
  show ?case
  proof (cases "length msgs \<le> pos")
    case True
    with Suc [of pos cur log] show ?thesis by simp
  next
    case False
    then have u: "[pos..<min (pos + Suc n) (length msgs)] = pos # [Suc pos..<min (Suc pos + n) (length msgs)]"
      by (simp add: upt_conv_Cons)
    show ?thesis
    proof (cases "msgs ! pos")
      case None
      with False Suc [of "Suc pos" "int pos" log] show ?thesis unfolding u by (simp add: finished_def)
    next
      case (Some j)
      with False Suc [of "Suc pos" "int pos" "log @ [message_id part (int pos)]"]
        Suc [of "Suc pos" cur "log @ [message_id part (int pos)]"]
      show ?thesis unfolding u by (cases "ok j") (simp_all add: finished_def)
    qed
  qed
qed

text \<open>
  One generation of a consumer that reads \<open>n\<close> messages from \<open>offset\<close>: every message that
  decodes is handed to the handler exactly once, in order, and the offset committed at the
  end is one past the last finished message (one past the starting offset when there is
  none).
\<close>

lemma generation_delivers_in_order:
  "run_partition (\<lambda>j mid log. (ok j, log @ [mid])) (\<lambda>log. log) part msgs
     (replicate n ReadMessage @ [GenerationEnded]) (int off) [] =
   (Some (last (int off # map int (filter (\<lambda>p. finished ok (msgs ! p)) [off..<min (off + n) (length msgs)])) + 1),
    map (\<lambda>p. message_id part (int p)) (filter (\<lambda>p. msgs ! p \<noteq> None) [off..<min (off + n) (length msgs)]))"
  by (simp add: run_partition_def consume_log)

text \<open>
  When a generation ends before anything was read, the offset committed skips the first
  message: it was never handed to the handler, and the next generation starts after it.
\<close>

lemma idle_generation_skips_a_message:
  "run_partition h b part msgs [GenerationEnded] off s = (Some (off + 1), s)"
  by (simp add: run_partition_def)

end
