(* ===== verification/Worker_Theorems.thy ===== *)
theory Worker_Theorems
  imports Workers Service_Theorems Queue_Theorems
begin

text \<open>
  What the background workers achieve: a round of the release worker releases exactly the due
  reservations it claimed, the cleanup job's waits stay within its bounds, and a queued job
  has the effect and the status its request promised.
\<close>

section \<open>Releasing one booking\<close>

text \<open>\<open>expires t v\<close>: a transaction in \<open>t\<close> finds the booking reserved and its deadline passed.\<close>

fun expires :: "tenv \<Rightarrow> booking_view \<Rightarrow> bool" where
  "expires t Absent \<longleftrightarrow> False"
| "expires t (View u ev s a r x st) \<longleftrightarrow>
     st = BookingStatusReserved \<and> x \<le> clock t 0 \<and> x \<le> tx_time t"

fun expired_view :: "booking_view \<Rightarrow> booking_view" where
  "expired_view Absent = Absent"
| "expired_view (View u ev s a r x st) = View u ev s a r x BookingStatusExpired"

lemma expired_twice [simp]: "\<not> expires t (expired_view v)" "expired_view (expired_view v) = expired_view v"
  by (cases v; simp)+

text \<open>Nothing fails, and no other transaction commits during the rounds \<open>envs\<close>.\<close>

definition undisturbed :: "lib \<Rightarrow> (nat \<Rightarrow> senv) \<Rightarrow> bool" where
  "undisturbed L envs \<longleftrightarrow> (\<forall>k. sLib (envs k) = L \<and> sRedis (envs k) \<and> sRedisFault (envs k) 0 = None \<and>
     (\<forall>i. sOthers (envs k) i = [] \<and> fault_free (sTx (envs k) i)))"

lemma find_booking_view:
  "find_booking d bid = None \<longleftrightarrow> booking_view d bid = Absent"
  "find_booking d bid = Some b \<Longrightarrow> booking_view d bid = view_of b"
  by (auto simp: booking_view_find view_of_def split: option.splits)

lemma release_world [simp]:
  "wDB (snd (after (markSeatReadPrimary env u e) (after (invalidateCache env e')
     (after (publishEvent env t b m) (sret r))) w)) = wDB w"
  "wExpiry (snd (after (markSeatReadPrimary env u e) (after (invalidateCache env e')
     (after (publishEvent env t b m) (sret r))) w)) = wExpiry w"
  "fst (after (markSeatReadPrimary env u e) (after (invalidateCache env e')
     (after (publishEvent env t b m) (sret r))) w) = r"
  by (simp_all add: after_def sret_def markSeatReadPrimary_def invalidateCache_def publishEvent_def trace_def)

lemma release_one:
  assumes inv: "db_inv (wDB w)" and o: "\<And>i. sOthers env i = []" and ff: "\<And>i. fault_free (sTx env i)"
    and r: "ReleaseExpiredBookingByID env bid w = (r, w')"
  shows "r = Inr () \<and> wExpiry w' = wExpiry w \<and> db_inv (wDB w') \<and>
    booking_view (wDB w') v = (if v = bid \<and> expires (sTx env 1) (booking_view (wDB w) bid)
       then expired_view (booking_view (wDB w) bid) else booking_view (wDB w) v)"
proof -
  have t: "db_inv (wDB w')"
    using r inv svc_inv [OF transacts_calls(4), of w env bid] by simp
  show ?thesis
  proof (cases "find_booking (wDB w) bid")
    case None
    then have "r = Inr () \<and> w' = w"
      using r by (simp add: ReleaseExpiredBookingByID_def shandle_def repo_def o read_only_def
          FindByID_ff ff sret_def)
    then show ?thesis using None inv by (simp add: find_booking_view)
  next
    case (Some b)
    then have b: "b \<in> set (bookings (wDB w))" "bID b = bid" by (simp_all add: find_booking_Some)
    have v: "booking_view (wDB w) bid = view_of b" using Some by (rule find_booking_view)
    note e = r [unfolded ReleaseExpiredBookingByID_def ReleaseExpiredBooking_def shandle_def repo_def]
    note rel = release_spec [OF inv ff, where bid = bid and st = BookingStatusExpired and req = True]
    show ?thesis
    proof (cases "expires (sTx env 1) (view_of b)")
      case True
      then have "r = Inr () \<and> wExpiry w' = wExpiry w \<and>
          wDB w' = touch b (release_row (tx_time (sTx env 1)) BookingStatusExpired) free_seat
             (give_back (tx_time (sTx env 1))) (wDB w)"
        using e by (auto simp: o read_only_def FindByID_ff ff Some b rel ReleaseExpiredReservation_def
            view_of_def after_def sret_def markSeatReadPrimary_def invalidateCache_def publishEvent_def
            trace_def split: if_splits)
      then show ?thesis using True t v
        by (auto simp: booking_view_touch [OF inv b(1)] row_defs b(2) view_of_def)
    next
      case False
      then have "r = Inr () \<and> w' = w"
        using e by (auto simp: o read_only_def FindByID_ff ff Some b rel ReleaseExpiredReservation_def
            view_of_def sret_def split: if_splits)
      then show ?thesis using False inv v by simp
    qed
  qed
qed

section \<open>A round of the release worker\<close>

lemma release_due_step:
  assumes u: "undisturbed L envs" and inv: "db_inv (wDB w)"
  obtains w1 where "release_due envs k (m # ids) w = release_due envs (Suc k) ids w1" "db_inv (wDB w1)"
    "tracked (wExpiry w1) = tracked (wExpiry w) - {x. x = m \<and> uuid_Parse L m \<noteq> None}"
    "\<And>v. booking_view (wDB w1) v =
      (if uuid_Parse L m = Some v \<and> expires (sTx (envs k) 1) (booking_view (wDB w) v)
       then expired_view (booking_view (wDB w) v) else booking_view (wDB w) v)"
proof (cases "uuid_Parse L m")
  case None
  have "release_due envs k (m # ids) w = release_due envs (Suc k) ids w"
    using u None by (simp add: undisturbed_def)
  then show thesis using that inv None by simp
next
  case (Some bid)
  have e: "sLib (envs k) = L" "sRedis (envs k)" "sRedisFault (envs k) 0 = None"
    "\<And>i. sOthers (envs k) i = []" "\<And>i. fault_free (sTx (envs k) i)"
    using u by (simp_all add: undisturbed_def)
  obtain r w' where r: "ReleaseExpiredBookingByID (envs k) bid w = (r, w')" by fastforce
  note o = release_one [OF inv e(4,5) r]
  let ?w1 = "wExpiry_update (\<lambda>q. snd (expiry_Remove True None m q)) w'"
  have "release_due envs k (m # ids) w = release_due envs (Suc k) ids ?w1"
    using o r e(1-3) Some by simp
  moreover have "tracked (wExpiry ?w1) = tracked (wExpiry w) - {x. x = m \<and> uuid_Parse L m \<noteq> None}"
    using o Some by (auto simp: expiry_Remove_def redis_call_def tracked_def)
  moreover have "booking_view (wDB ?w1) v =
      (if uuid_Parse L m = Some v \<and> expires (sTx (envs k) 1) (booking_view (wDB w) v)
       then expired_view (booking_view (wDB w) v) else booking_view (wDB w) v)" for v
    using o [of v] Some by auto
  ultimately show thesis using that o by simp
qed

lemma release_due_tracked:
  "undisturbed L envs \<Longrightarrow> db_inv (wDB w) \<Longrightarrow> tracked (wExpiry (release_due envs k ids w)) =
     tracked (wExpiry w) - {m \<in> set ids. uuid_Parse L m \<noteq> None}"
proof (induction ids arbitrary: k w)
  case (Cons m ids)
  show ?case
    by (rule release_due_step [OF Cons.prems, where k = k and m = m and ids = ids])
      (use Cons in auto)
qed simp

lemma release_due_keeps:
  "undisturbed L envs \<Longrightarrow> db_inv (wDB w) \<Longrightarrow> \<forall>k. \<not> expires (sTx (envs k) 1) (booking_view (wDB w) b) \<Longrightarrow>
   booking_view (wDB (release_due envs k ids w)) b = booking_view (wDB w) b"
proof (induction ids arbitrary: k w)
  case (Cons m ids)
  show ?case
    by (rule release_due_step [OF Cons.prems(1,2), where k = k and m = m and ids = ids])
      (use Cons in auto)
qed simp

lemma release_due_expires:
  "undisturbed L envs \<Longrightarrow> db_inv (wDB w) \<Longrightarrow> \<forall>k. expires (sTx (envs k) 1) v \<Longrightarrow>
   booking_view (wDB w) b = v \<and> (\<exists>m\<in>set ids. uuid_Parse L m = Some b) \<or>
     booking_view (wDB w) b = expired_view v \<Longrightarrow>
   booking_view (wDB (release_due envs k ids w)) b = expired_view v"
proof (induction ids arbitrary: k w)
  case (Cons m ids)
  obtain w1 where w1: "release_due envs k (m # ids) w = release_due envs (Suc k) ids w1" "db_inv (wDB w1)"
    and v: "booking_view (wDB w1) b =
      (if uuid_Parse L m = Some b \<and> expires (sTx (envs k) 1) (booking_view (wDB w) b)
       then expired_view (booking_view (wDB w) b) else booking_view (wDB w) b)"
    using release_due_step [OF Cons.prems(1,2)] by metis
  have "booking_view (wDB w1) b = v \<and> (\<exists>m\<in>set ids. uuid_Parse L m = Some b) \<or>
      booking_view (wDB w1) b = expired_view v"
    using Cons.prems(3,4) v by auto
  with Cons.IH [OF Cons.prems(1) w1(2) Cons.prems(3)] w1(1) show ?case by simp
qed simp

lemma plan_bounds:
  assumes "expiryReleasePartitionPlanFromConfig (Some c) = Inr p"
  shows "0 < epConcurrency p" "0 < epCount p" "0 \<le> epOffset p"
    "int64 (epOffset p + epConcurrency p) \<Longrightarrow> epOffset p + epConcurrency p \<le> epCount p"
  using assms by (auto simp: expiryReleasePartitionPlanFromConfig_def Let_def wrap64_id split: if_splits)

text \<open>One process has one worker for each of its partitions, and they are partitions of the plan.\<close>

lemma worker_partitions_cover:
  assumes "expiryReleasePartitionPlanFromConfig (Some c) = Inr p" "int64 (epOffset p + epConcurrency p)"
  shows "distinct (worker_partitions p) \<and>
    set (worker_partitions p) = {epOffset p ..< epOffset p + epConcurrency p} \<and>
    set (worker_partitions p) \<subseteq> {0 ..< epCount p}"
proof -
  note b = plan_bounds [OF assms(1)] and b4 = plan_bounds(4) [OF assms]
  have w: "worker_partitions p = map (\<lambda>i. epOffset p + int i) [0..<nat (epConcurrency p)]"
    unfolding worker_partitions_def using assms(2) b(3)
    by (intro map_cong refl wrap64_id) (auto simp: int64_def)
  have "x \<in> (\<lambda>i. epOffset p + int i) ` {0..<nat (epConcurrency p)}"
    if "epOffset p \<le> x" "x < epOffset p + epConcurrency p" for x
    using that by (intro image_eqI [of _ _ "nat (x - epOffset p)"]) auto
  then have "set (worker_partitions p) = {epOffset p ..< epOffset p + epConcurrency p}"
    unfolding w by auto
  then show ?thesis using b(3) b4 by (auto simp: w distinct_map inj_on_def)
qed

lemma claimed_when_due:
  assumes ok: "expiry_ok q" and n: "0 < n" and m: "(m, s) \<in> set (pending q)" "s \<le> Unix now"
    and few: "int (length (filter (\<lambda>(_, s). s \<le> Unix now) (pending q)) +
      length (filter (\<lambda>(_, s). s \<le> Unix now - 120) (inflight q))) \<le> 100"
  obtains ids q' where "PollDue True None now ExpiryPollBatchSize (ExpiryPartitionIndex m n) n q = (Inr ids, q')"
    "m \<in> set ids" "tracked q' = tracked q"
proof -
  let ?p = "ExpiryPartitionIndex m n"
  have r: "0 \<le> ?p" "?p < n" using n by (simp_all add: ExpiryPartitionIndex_range)
  then obtain ids q' where p: "PollDue True None now ExpiryPollBatchSize ?p n q = (Inr ids, q')"
    using n by (auto simp: PollDue_def Let_def redis_call_def ExpiryPollBatchSize_def)
  have l: "0 < ExpiryPollBatchSize" by (simp add: ExpiryPollBatchSize_def)
  have "\<not> (\<exists>s'\<le>Unix now. (m, s') \<in> set (pending q'))"
    using poll_leaves_none [OF ok p l] few by (auto simp: ExpiryPollBatchSize_def due_count_def)
  then have "m \<in> set ids" using poll_pending [OF ok p l m] by blast
  with p poll_props [OF ok p] that show thesis by blast
qed

text \<open>
  C39. A round of the release worker over the partition of a reservation, when the queue holds
  its deadline among at most a batch of due ones and nothing fails: if the reservation is due,
  it is expired afterwards and its deadline is no longer queued; and whatever booking is not
  reserved, or not due, is left as it is.
\<close>

theorem release_worker:
  assumes "expiryReleasePartitionPlanFromConfig (Some c) = Inr plan" "lib_ok L" "undisturbed L envs"
    and "db_inv (wDB w)" "expiry_ok (wExpiry w)"
    and "(uuid_String L bid, s) \<in> set (pending (wExpiry w))" "s \<le> Unix now"
    and "int (length (filter (\<lambda>(_, s). s \<le> Unix now) (pending (wExpiry w))) +
      length (filter (\<lambda>(_, s). s \<le> Unix now - 120) (inflight (wExpiry w)))) \<le> 100"
    and "w' = processDue plan True None now envs (ExpiryPartitionIndex (uuid_String L bid) (epCount plan)) w"
  shows "((\<forall>k. expires (sTx (envs k) 1) (booking_view (wDB w) bid)) \<longrightarrow>
      booking_view (wDB w') bid = expired_view (booking_view (wDB w) bid)) \<and>
    uuid_String L bid \<notin> tracked (wExpiry w') \<and>
    (\<forall>b. (\<forall>k. \<not> expires (sTx (envs k) 1) (booking_view (wDB w) b)) \<longrightarrow>
       booking_view (wDB w') b = booking_view (wDB w) b)"
proof -
  let ?m = "uuid_String L bid"
  have m: "uuid_Parse L ?m = Some bid" using assms(2) by (simp add: lib_ok_def)
  obtain ids q' where p: "PollDue True None now ExpiryPollBatchSize (ExpiryPartitionIndex ?m (epCount plan))
      (epCount plan) (wExpiry w) = (Inr ids, q')" and i: "?m \<in> set ids" "tracked q' = tracked (wExpiry w)"
    using claimed_when_due [OF assms(5) plan_bounds(2) [OF assms(1)] assms(6,7,8)] .
  have w': "w' = release_due envs 0 ids (w\<lparr>wExpiry := q'\<rparr>)"
    using p by (simp add: assms(9) processDue_def)
  have inv: "db_inv (wDB (w\<lparr>wExpiry := q'\<rparr>))" using assms(4) by simp
  show ?thesis
  proof (intro conjI impI allI)
    show "booking_view (wDB w') bid = expired_view (booking_view (wDB w) bid)"
      if "\<forall>k. expires (sTx (envs k) 1) (booking_view (wDB w) bid)"
      unfolding w' by (rule release_due_expires [OF assms(3) inv that]) (use i(1) m in auto)
    show "?m \<notin> tracked (wExpiry w')"
      using i(1) m by (simp add: w' release_due_tracked [OF assms(3) inv])
    show "booking_view (wDB w') b = booking_view (wDB w) b"
      if "\<forall>k. \<not> expires (sTx (envs k) 1) (booking_view (wDB w) b)" for b
      using release_due_keeps [OF assms(3) inv, of b] that by (simp add: w')
  qed
qed

definition due_world :: world where
  "due_world = \<lparr>wDB = demo_db, wExpiry = \<lparr>pending = [(''21'', 0)], inflight = []\<rparr>, wTrace = []\<rparr>"

definition quiet_rounds :: "time \<Rightarrow> nat \<Rightarrow> senv" where
  "quiet_rounds t k = quiet_senv ''succeeded'' t 60"

lemma quiet_rounds_ok: "undisturbed demo_lib (quiet_rounds t)"
  by (simp add: undisturbed_def quiet_rounds_def quiet_senv_def)

lemma demo_views: "booking_view demo_db 21 = View 1 3 12 2500 20 100 BookingStatusReserved"
  "booking_view demo_db 22 = View 1 3 13 2500 20 100 BookingStatusPurchased"
  by (simp_all add: booking_view_def demo_db_def demo_booking_def view_of_def)

lemma demo_uuid_21: "uuid_String demo_lib 21 = ''21''"
  by code_simp

lemma demo_plan:
  "expiryReleasePartitionPlanFromConfig (Some (sBooking (quiet_senv sc t u))) =
     Inr \<lparr>epConcurrency = 4, epCount = 4, epOffset = 0\<rparr>"
  by (simp add: expiryReleasePartitionPlanFromConfig_def quiet_senv_def wrap64_def)

lemma release_worker_witness:
  "booking_view (wDB (processDue \<lparr>epConcurrency = 4, epCount = 4, epOffset = 0\<rparr> True None 200
       (quiet_rounds 200) (ExpiryPartitionIndex ''21'' 4) due_world)) 21 =
     View 1 3 12 2500 20 100 BookingStatusExpired \<and>
   booking_view (wDB (processDue \<lparr>epConcurrency = 4, epCount = 4, epOffset = 0\<rparr> True None 200
       (quiet_rounds 200) (ExpiryPartitionIndex ''21'' 4) due_world)) 22 =
     View 1 3 13 2500 20 100 BookingStatusPurchased"
proof -
  have q: "expiry_ok (wExpiry due_world)" "(uuid_String demo_lib 21, 0) \<in> set (pending (wExpiry due_world))"
    "db_inv (wDB due_world)" "0 \<le> Unix 200"
    by (simp_all add: due_world_def expiry_ok_def zset_ok_def demo_uuid_21 demo_inv Unix_def Second_def)
  have few: "int (length (filter (\<lambda>(_, s). s \<le> Unix 200) (pending (wExpiry due_world))) +
      length (filter (\<lambda>(_, s). s \<le> Unix 200 - 120) (inflight (wExpiry due_world)))) \<le> 100"
    by (simp add: due_world_def)
  note r = release_worker [OF demo_plan demo_lib_ok quiet_rounds_ok q(3,1,2,4) few refl,
      of 200, unfolded demo_uuid_21, simplified]
  show ?thesis
    using r by (auto simp: due_world_def demo_views quiet_rounds_def)
qed

text \<open>
  A reservation whose deadline a purchase moved forward, and queued again, after the poll had
  claimed it: the release finds it not due and does nothing, and the worker still removes the
  member from both sets, with the new deadline.
\<close>

lemma extended_deadline_dropped:
  assumes "undisturbed L envs" "lib_ok L" "db_inv (wDB w)"
    and "booking_view (wDB w) bid = View u ev seat a r x BookingStatusReserved"
    and "\<forall>k. tx_time (sTx (envs k) 1) < x"
  shows "booking_view (wDB (release_due envs k [uuid_String L bid] w)) bid = booking_view (wDB w) bid \<and>
    uuid_String L bid \<notin> tracked (wExpiry (release_due envs k [uuid_String L bid] w))"
proof -
  have "\<forall>k. \<not> expires (sTx (envs k) 1) (booking_view (wDB w) bid)"
    using assms(4,5) by (simp add: not_le del: One_nat_def)
  from release_due_keeps [OF assms(1,3) this] release_due_tracked [OF assms(1,3)] assms(2)
  show ?thesis by (simp add: lib_ok_def del: release_due.simps)
qed

section \<open>The cleanup job\<close>

text \<open>The waits are between one and fifteen minutes, and a run has one after every round.\<close>

lemma nextCleanupBackoff_bounds:
  "Minute \<le> nextCleanupBackoff d \<and> nextCleanupBackoff d \<le> 15 * Minute"
  by (simp add: nextCleanupBackoff_def Let_def cleanupJobInitialInterval_def cleanupJobMaxBackoff_def
      duration_defs)

lemma cleanup_waits:
  "length (fst (cleanup_rounds envs d w)) = length envs \<and>
   (\<forall>x\<in>set (fst (cleanup_rounds envs d w)). Minute \<le> x \<and> x \<le> 15 * Minute)"
proof (induction envs arbitrary: d w)
  case (Cons env envs)
  have "Minute \<le> nextCleanupBackoff d" "nextCleanupBackoff d \<le> 15 * Minute"
    "Minute \<le> cleanupJobInitialInterval" "cleanupJobInitialInterval \<le> 15 * Minute"
    using nextCleanupBackoff_bounds by (simp_all add: cleanupJobInitialInterval_def duration_defs)
  with Cons show ?case by (simp add: Let_def split: prod.splits sum.splits) (metis fst_conv)
qed simp

text \<open>After \<open>n\<close> failures in a row the job waits \<open>2 ^ n\<close> minutes, or fifteen.\<close>

lemma backoff_doubles:
  "0 < n \<Longrightarrow> (nextCleanupBackoff ^^ n) cleanupJobInitialInterval = min (2 ^ n * Minute) (15 * Minute)"
proof (induction n)
  case (Suc n)
  have "(nextCleanupBackoff ^^ n) cleanupJobInitialInterval = min (2 ^ n * Minute) (15 * Minute)"
    using Suc.IH by (cases n) (simp_all add: cleanupJobInitialInterval_def duration_defs)
  moreover have "nextCleanupBackoff (min (2 ^ n * Minute) (15 * Minute)) = min (2 ^ Suc n * Minute) (15 * Minute)"
  proof -
    have "(1::int) \<le> 2 ^ n" by simp
    then have "int64 (min (2 ^ n * Minute) (15 * Minute) * 2)" "\<not> 2 * 2 ^ n < (1::int)"
      unfolding int64_def min_def duration_defs by (auto simp del: one_le_power)
    then show ?thesis
      by (simp add: nextCleanupBackoff_def wrap64_id Let_def cleanupJobInitialInterval_def
          cleanupJobMaxBackoff_def duration_defs min_def)
  qed
  ultimately show ?case by simp
qed simp

section \<open>Queued reservations\<close>

definition queue_up :: "lib \<Rightarrow> qenv \<Rightarrow> bool" where
  "queue_up L env \<longleftrightarrow> working env \<and> qRedis env \<and> qLib env = L"

text \<open>What is read for a job whose status \<open>setJobStatus\<close> stored less than a day ago.\<close>

lemma status_stored:
  assumes "lib_ok L" "queue_up L env" "queue_up L env'" "qNow env' < qNow env + 24 * Hour"
  shows "fst (setJobStatus env st q) = Inr ()"
    "qStatus q' = qStatus (snd (setJobStatus env st q)) \<Longrightarrow>
     GetJobStatus env' (jsJobID st) q' = Inr (st\<lparr>jsUpdatedAt := qNow env,
       jsCreatedAt := (if jsCreatedAt st = zero_time then qNow env else jsCreatedAt st)\<rparr>)"
proof -
  show ok: "fst (setJobStatus env st q) = Inr ()"
    using assms(2) by (simp add: queue_up_def queue_ok)
  assume q': "qStatus q' = qStatus (snd (setJobStatus env st q))"
  have "GetJobStatus env' j q' = GetJobStatus env' j (snd (setJobStatus env st q))" for j
    unfolding GetJobStatus_def Let_def q' by (rule refl)
  with status_readback [of env st q "snd (setJobStatus env st q)" env'] assms ok
  show "GetJobStatus env' (jsJobID st) q' = Inr (st\<lparr>jsUpdatedAt := qNow env,
       jsCreatedAt := (if jsCreatedAt st = zero_time then qNow env else jsCreatedAt st)\<rparr>)"
    by (simp add: queue_up_def working_def prod_eq_iff)
qed

lemma failure_status:
  assumes "lib_ok L" "queue_up L env" "queue_up L env'" "qNow env' < qNow env + 24 * Hour"
  shows "map_sum id (\<lambda>st. (jsStatus st, jsError st))
      (GetJobStatus env' (bjID j) (snd (HandleBookingJobFailure env j m q))) =
    Inr (if bjAttempt j < qMaxRetries env then JobStatusRetrying else JobStatusDeadLetter, m)"
proof -
  let ?st = "\<lparr>jsJobID = bjID j,
    jsStatus = (if bjAttempt j < qMaxRetries env then JobStatusRetrying else JobStatusDeadLetter),
    jsBookingID = None, jsAttempt = (if bjAttempt j < qMaxRetries env then bjAttempt j + 1 else bjAttempt j),
    jsError = m, jsCreatedAt = zero_time, jsUpdatedAt = zero_time\<rparr>"
  have "qStatus (snd (HandleBookingJobFailure env j m q)) = qStatus (snd (setJobStatus env ?st q))"
    using assms(2) by (simp add: HandleBookingJobFailure_def queue_up_def queue_ok)
  from status_stored(2) [OF assms this] show ?thesis by simp
qed

lemma enqueued_status:
  assumes "lib_ok L" "queue_up L qe" "queue_up L qe'" "qNow qe' < qNow qe + 24 * Hour"
  shows "case EnqueueBookingJob qe j q of (r, q1) \<Rightarrow>
      \<exists>job. r = Inr job \<and> job = j\<lparr>bjID := qNewID qe, bjAttempt := 0, bjCreatedAt := qNow qe\<rparr> \<and>
        qBooking q1 = qBooking q @ [(uuid_String L (bjEventID j), job)] \<and>
        map_sum id jsStatus (GetJobStatus qe' (bjID job) q1) = Inr JobStatusPending"
proof -
  note up = assms(2) [unfolded queue_up_def]
  let ?st = "\<lparr>jsJobID = qNewID qe, jsStatus = JobStatusPending, jsBookingID = None, jsAttempt = 0,
    jsError = '''', jsCreatedAt = qNow qe, jsUpdatedAt = qNow qe\<rparr>"
  have "qStatus (snd (EnqueueBookingJob qe j q)) = qStatus (snd (setJobStatus qe ?st q))"
    using up by (simp add: EnqueueBookingJob_def queue_ok)
  from status_stored(2) [OF assms this] show ?thesis using up by (simp add: EnqueueBookingJob_def queue_ok)
qed

lemma completed_status:
  assumes "lib_ok L" "queue_up L qe" "queue_up L qe'" "qNow qe' < qNow qe + 24 * Hour"
  shows "GetJobStatus qe' jid (snd (CompleteJob qe jid bid q)) =
      Inr \<lparr>jsJobID = jid, jsStatus = JobStatusCompleted, jsBookingID = Some bid, jsAttempt = 0,
        jsError = '''', jsCreatedAt = qNow qe, jsUpdatedAt = qNow qe\<rparr>"
    "qBooking (snd (CompleteJob qe jid bid q)) = qBooking q"
  using status_stored(2) [OF assms refl, of "\<lparr>jsJobID = jid, jsStatus = JobStatusCompleted,
      jsBookingID = Some bid, jsAttempt = 0, jsError = '''', jsCreatedAt = zero_time, jsUpdatedAt = zero_time\<rparr>" q]
    assms(2) by (simp_all add: CompleteJob_def queue_ok queue_up_def)

text \<open>
  C30. A queued reservation, with Kafka and Redis working: enqueueing it appends one message
  with the job, whose status then reads pending. Processing a job is \<open>ReserveSeat\<close> for the
  job's user, event and seat. When that reserves a booking, the handler succeeds
  and the status reads completed with the booking's id; when it fails, the handler fails, and
  the job is back in the topic with one more attempt and the status retrying, or, its attempts
  used up, in the dead-letter topic with that status, in both cases with the error's text.
\<close>

theorem queued_reservation:
  assumes "lib_ok L" "queue_up L qe" "queue_up L qe'" "qNow qe' < qNow qe + 24 * Hour"
  shows "(case EnqueueBookingJob qe j q of (r, q1) \<Rightarrow>
      \<exists>job. r = Inr job \<and> job = j\<lparr>bjID := qNewID qe, bjAttempt := 0, bjCreatedAt := qNow qe\<rparr> \<and>
        qBooking q1 = qBooking q @ [(uuid_String L (bjEventID j), job)] \<and>
        map_sum id jsStatus (GetJobStatus qe' (bjID job) q1) = Inr JobStatusPending) \<and>
    (case processBookingJob env qe hub j s of (r, s') \<Rightarrow>
     case ReserveSeat env (bjUserID j) (bjEventID j) (bjSeatNumber j) (jwWorld s) of
       (Inr b, w1) \<Rightarrow> is_ok r \<and> qBooking (jwQueue s') = qBooking (jwQueue s) \<and>
         map_sum id (\<lambda>st. (jsStatus st, jsBookingID st)) (GetJobStatus qe' (bjID j) (jwQueue s')) =
           Inr (JobStatusCompleted, Some (bID b))
     | (Inl e, w1) \<Rightarrow> \<not> is_ok r \<and> jwWorld s' = w1 \<and>
         (let retry = bjAttempt j < qMaxRetries qe; k = uuid_String L (bjEventID j) in
          qBooking (jwQueue s') = qBooking (jwQueue s) @
            (if retry then [(k, j\<lparr>bjAttempt := bjAttempt j + 1\<rparr>)] else []) \<and>
          qBookingDLQ (jwQueue s') = qBookingDLQ (jwQueue s) @ (if retry then [] else [(k, j)]) \<and>
          map_sum id (\<lambda>st. (jsStatus st, jsError st)) (GetJobStatus qe' (bjID j) (jwQueue s')) =
            Inr (if retry then JobStatusRetrying else JobStatusDeadLetter, err_Error e)))"
  (is "_ \<and> ?processed")
proof (intro conjI enqueued_status [OF assms], cases "ReserveSeat env (bjUserID j) (bjEventID j) (bjSeatNumber j) (jwWorld s)")
  note up = assms(2) [unfolded queue_up_def]
  case (Pair res w1)
  show "?processed"
  proof (cases res)
    case (Inl e)
    with Pair booking_jobs.fail_retries [of qe j "err_Error e" "jwQueue s"]
      booking_jobs.fail_buries [of qe j "err_Error e" "jwQueue s"] failure_status [OF assms]
    show ?thesis using up by (simp add: processBookingJob_def in_queue_def Let_def)
  next
    case (Inr b)
    with Pair show ?thesis
      by (auto simp: processBookingJob_def Let_def in_queue_def completed_status [OF assms] BroadcastSeat_def
          split: prod.splits sum.splits)
  qed
qed

lemma demo_queue_up: "queue_up demo_lib demo_qenv" "queue_up demo_lib (demo_qenv\<lparr>qNow := t\<rparr>)"
  by (simp_all add: queue_up_def working_def demo_qenv_def)

lemma queued_reservation_witness:
  "map_sum id jsStatus (GetJobStatus (demo_qenv\<lparr>qNow := 2000\<rparr>) 5 (jwQueue (snd (processBookingJob
     (quiet_senv ''succeeded'' 50 60) demo_qenv True demo_bjob
     \<lparr>jwWorld = demo_world, jwQueue = empty_queue, jwHub = []\<rparr>)))) = Inr JobStatusCompleted"
proof -
  let ?e = "quiet_senv ''succeeded'' 50 60" and ?s = "\<lparr>jwWorld = demo_world, jwQueue = empty_queue, jwHub = []\<rparr>"
  obtain b w' where r: "ReserveSeat ?e 1 3 ''R1-S1'' demo_world = (Inr b, w')"
    by (simp add: ReserveSeat_def sbind_def shandle_def repo_def Let_def demo_reserve after_def sret_def)
  have j: "bjUserID demo_bjob = 1" "bjEventID demo_bjob = 3" "bjSeatNumber demo_bjob = ''R1-S1''"
    "bjID demo_bjob = 5" by (simp_all add: demo_bjob_def)
  obtain x s' where p: "processBookingJob ?e demo_qenv True demo_bjob ?s = (x, s')" by fastforce
  have t: "qNow (demo_qenv\<lparr>qNow := 2000\<rparr>) < qNow demo_qenv + 24 * Hour"
    by (simp add: demo_qenv_def duration_defs)
  have "map_sum id (\<lambda>st. (jsStatus st, jsBookingID st)) (GetJobStatus (demo_qenv\<lparr>qNow := 2000\<rparr>) 5 (jwQueue s')) =
      Inr (JobStatusCompleted, Some (bID b))"
    using queued_reservation [OF demo_lib_ok demo_queue_up t, where j = demo_bjob and env = ?e and hub = True and s = ?s]
    by (simp add: p j r)
  then show ?thesis
    unfolding p snd_conv by (cases "GetJobStatus (demo_qenv\<lparr>qNow := 2000\<rparr>) 5 (jwQueue s')") simp_all
qed

end
