(* ===== verification/Api_Theorems.thy ===== *)
theory Api_Theorems
  imports Api Auth_Theorems Worker_Theorems
begin

text \<open>
  What the HTTP layer guarantees: which requests reach a handler, and as whom; and the answers
  the handlers give to errors they do not expect.
\<close>

section \<open>Who reaches a handler\<close>

definition public_endpoints :: "endpoint set" where
  "public_endpoints = {EpRegister, EpLogin, EpListEvents, EpGetEvent, EpGetEventSeats}"

definition admin_endpoints :: "endpoint set" where
  "admin_endpoints = {EpListUsers, EpPromoteToAdmin, EpDemoteToUser, EpGetQueueMetrics,
     EpCreateVenue, EpListVenues, EpGetVenue, EpCreateEvent}"

lemma RequireAuth_Inr:
  assumes "RequireAuth C secret now header c = Inr c'"
  obtains token claims where "token \<in> set (Split header (CHR '' ''))"
    "ValidateToken C now token secret = Inr claims"
    "ctxUserID c' = Some (cUserID claims)" "ctxUserRole c' = Some (cRole claims)"
proof -
  from assms obtain claims where p: "length (Split header (CHR '' '')) = 2"
    and v: "ValidateToken C now (Split header (CHR '' '') ! 1) secret = Inr claims"
    and c: "ctxUserID c' = Some (cUserID claims)" "ctxUserRole c' = Some (cRole claims)"
    by (auto simp: RequireAuth_def Let_def split: if_splits sum.splits)
  have "Split header (CHR '' '') ! 1 \<in> set (Split header (CHR '' ''))" using p by simp
  then show thesis using that v c by blast
qed

lemma admin_guards:
  "(meth, path, gs, e) \<in> set api_routes \<Longrightarrow> e \<in> admin_endpoints \<Longrightarrow>
   gs = [UseRequireAuth, UseSimpleRateLimit, UseRequireAdmin]"
  by (auto simp: api_routes_def route_def Let_def admin_endpoints_def)

lemma RequireAuth_Inl: "RequireAuth C secret now header c = Inl (st, msg) \<Longrightarrow> st = 401"
  by (auto simp: RequireAuth_def Let_def split: if_splits sum.splits)

text \<open>The answer of the first limiter of a route that refuses a request.\<close>

definition limited :: "(guard \<Rightarrow> reply option) \<Rightarrow> guard list \<Rightarrow> reply option" where
  "limited lim gs =
     (case filter (\<lambda>g. g \<notin> {UseRequireAuth, UseRequireAdmin} \<and> lim g \<noteq> None) gs of
        [] \<Rightarrow> None | g # _ \<Rightarrow> lim g)"

text \<open>
  C21. Only authenticated callers reach the protected handlers, and only administrators the
  administrative ones: for every route, a request reaches the handler of a public endpoint as
  nobody; of any other endpoint only past \<open>RequireAuth\<close>, as the user and with the role of a
  valid token in its \<open>Authorization\<close> header, and of an administrative endpoint only with the
  role \<open>admin\<close>. Every other request changes nothing; it is answered 401, then as the route's
  first limiter (or the idempotency middleware) that refuses it answers, then 403.
\<close>

theorem protected_routes:
  assumes "(meth, path, gs, e) \<in> set api_routes"
  shows "serve C secret now header lim gs h s =
      (if e \<in> public_endpoints then (case limited lim gs of Some r \<Rightarrow> (r, s) | None \<Rightarrow> h anonymous s)
       else case RequireAuth C secret now header anonymous of
           Inl (_, msg) \<Rightarrow> ((401, ErrorBody msg), s)
         | Inr c \<Rightarrow> (case limited lim gs of
               Some r \<Rightarrow> (r, s)
             | None \<Rightarrow> if e \<in> admin_endpoints \<and> ctxUserRole c \<noteq> Some ''admin''
                 then ((403, ErrorBody ''admin access required''), s) else h c s)) \<and>
    (\<forall>c. RequireAuth C secret now header anonymous = Inr c \<longrightarrow>
       (\<exists>token claims. token \<in> set (Split header (CHR '' '')) \<and>
          ValidateToken C now token secret = Inr claims \<and>
          GetUserID c = Inr (cUserID claims) \<and> ctxUserRole c = Some (cRole claims)))"
proof
  have gs: "gs \<in> {[UseSimpleRateLimit], []}" if "e \<in> public_endpoints"
    using assms that by (auto simp: api_routes_def route_def Let_def public_endpoints_def)
  have ga: "gs = [UseRequireAuth, UseSimpleRateLimit, UseRequireAdmin]" if "e \<in> admin_endpoints"
    using assms that by (rule admin_guards)
  have gu: "gs \<in> {[UseRequireAuth, UseSimpleRateLimit],
      [UseRequireAuth, UseSimpleRateLimit, UseEventAdmissionControl],
      [UseRequireAuth, UseSimpleRateLimit, UseIdempotencyKey]}"
    if "e \<notin> public_endpoints" "e \<notin> admin_endpoints"
    using assms that
    by (auto simp: api_routes_def route_def Let_def public_endpoints_def admin_endpoints_def)
  have "e \<notin> public_endpoints \<or> e \<notin> admin_endpoints"
    by (auto simp: public_endpoints_def admin_endpoints_def)
  then show "serve C secret now header lim gs h s =
      (if e \<in> public_endpoints then (case limited lim gs of Some r \<Rightarrow> (r, s) | None \<Rightarrow> h anonymous s)
       else case RequireAuth C secret now header anonymous of
           Inl (_, msg) \<Rightarrow> ((401, ErrorBody msg), s)
         | Inr c \<Rightarrow> (case limited lim gs of
               Some r \<Rightarrow> (r, s)
             | None \<Rightarrow> if e \<in> admin_endpoints \<and> ctxUserRole c \<noteq> Some ''admin''
                 then ((403, ErrorBody ''admin access required''), s) else h c s))"
    using gs ga gu RequireAuth_Inl [of C secret now header anonymous]
    by (cases "RequireAuth C secret now header anonymous"; cases "e \<in> public_endpoints"; cases "e \<in> admin_endpoints")
      (auto simp: serve_def RequireAdmin_def limited_def split: option.splits)
  show "\<forall>c. RequireAuth C secret now header anonymous = Inr c \<longrightarrow>
       (\<exists>token claims. token \<in> set (Split header (CHR '' '')) \<and>
          ValidateToken C now token secret = Inr claims \<and>
          GetUserID c = Inr (cUserID claims) \<and> ctxUserRole c = Some (cRole claims))"
    by (auto elim!: RequireAuth_Inr simp: GetUserID_def)
qed

text \<open>Nobody is let in without a token; the limiter does not even see the request.\<close>

lemma protected_routes_witness:
  "serve demo_crypto ''s'' 5 '''' (\<lambda>_. Some (429, ErrorBody ''rate limit exceeded'')) [UseRequireAuth, UseSimpleRateLimit]
     (delete_CancelBooking (quiet_senv ''succeeded'' 50 60) ''21'')
     \<lparr>jwWorld = demo_world, jwQueue = empty_queue, jwHub = []\<rparr> =
   ((401, ErrorBody ''authorization header required''),
     \<lparr>jwWorld = demo_world, jwQueue = empty_queue, jwHub = []\<rparr>)"
proof -
  have "(''DELETE'', ''/api/bookings/:id'', [UseRequireAuth, UseSimpleRateLimit], EpCancelBooking) \<in> set api_routes"
    by (simp add: api_routes_def route_def Let_def)
  note r = protected_routes [OF this, of demo_crypto "''s''" 5 "''''"
      "\<lambda>_. Some (429, ErrorBody ''rate limit exceeded'')"
      "delete_CancelBooking (quiet_senv ''succeeded'' 50 60) ''21''"
      "\<lparr>jwWorld = demo_world, jwQueue = empty_queue, jwHub = []\<rparr>"]
  show ?thesis
    using r by (simp add: public_endpoints_def admin_endpoints_def RequireAuth_def)
qed

section \<open>Answers\<close>

text \<open>
  The seat listing is a public route: nobody is authenticated in it, so the marks of recent
  changes are never looked up, and the listing never goes to the primary database.
\<close>

lemma seat_listing_never_primary:
  assumes "(meth, path, gs, EpGetEventSeats) \<in> set api_routes"
  shows "serve C secret now header lim gs (get_GetEventSeats env t f marks param status) s =
    serve C secret now header lim gs (get_GetEventSeats env t f (\<lambda>_. None) param status) s"
proof -
  have "gs = [UseSimpleRateLimit]"
    using assms by (auto simp: api_routes_def route_def Let_def)
  moreover have "get_GetEventSeats env t f marks param status anonymous =
      get_GetEventSeats env t f (\<lambda>_. None) param status anonymous"
    unfolding get_GetEventSeats_def GetUserID_def anonymous_def gin_context.simps option.case sum.case
    by (rule refl)
  ultimately show ?thesis by (cases "lim UseSimpleRateLimit") (simp_all add: serve_def)
qed

text \<open>Errors a client causes that are answered as errors of the server.\<close>

lemma unexpected_500:
  "handleReservationError (reserve_error RepoErrSeatNotFound) = (500, ErrorBody ''reservation failed'')"
  "handlePurchaseError (extend_error RepoErrSeatNotAvailable) = (500, ErrorBody ''purchase failed'')"
  "handlePurchaseError (Wrap ''payment failed'' (Wrap ''process payment'' PayErrPaymentDeclined)) =
     (500, ErrorBody ''purchase failed'')"
  by (simp_all add: handleReservationError_def reserve_error_def handlePurchaseError_def extend_error_def)

text \<open>The status of a job is shown to every authenticated user.\<close>

lemma job_status_for_everybody:
  "get_GetJobStatus L q param c = get_GetJobStatus L q param c'"
  by (simp add: get_GetJobStatus_def)

text \<open>An event whose tickets are free does not pass the validation of its request.\<close>

lemma free_event_refused: "ceTicketPrice r = 0 \<Longrightarrow> \<not> valid_CreateEventRequest r"
  by (simp add: valid_CreateEventRequest_def)

end
