(* ===== verification/Job_Consumers.thy ===== *)
theory Job_Consumers
  imports Workers Queue_Theorems
begin

text \<open>
  The job workers as consumers of their topics: the outer loops of internal/queue/queue.go
  (\<open>runConsumerGroup\<close>, \<open>runPurchaseConsumerGroup\<close>) over the generations of a group, with the
  handlers of internal/services/booking_worker.go.
\<close>

section \<open>Generations\<close>

text \<open>
  A partition in a group's successive generations. Each begins at the committed offset
  (negative when there is none); one whose context is cancelled, or whose commit fails, commits
  nothing. A generation without the partition is not in the list.
\<close>

fun run_generations ::
  "('j \<Rightarrow> string \<Rightarrow> 's \<Rightarrow> bool \<times> 's) \<Rightarrow> ('s \<Rightarrow> 's) \<Rightarrow> int \<Rightarrow> 'j option list \<Rightarrow> read list list \<Rightarrow> int \<Rightarrow> 's \<Rightarrow>
   int \<times> 's" where
  "run_generations handler bump part msgs [] committed s = (committed, s)"
| "run_generations handler bump part msgs (rs # gens) committed s =
     (case run_partition handler bump part msgs rs (assigned_offset committed) s of
        (None, s') \<Rightarrow> run_generations handler bump part msgs gens committed s'
      | (Some off, s') \<Rightarrow> run_generations handler bump part msgs gens off s')"

text \<open>\<open>envs k\<close> is the environment of the \<open>k\<close>th job handled; the state counts them.\<close>

definition booking_handler ::
  "(nat \<Rightarrow> senv \<times> qenv) \<Rightarrow> bool \<Rightarrow> BookingJob \<Rightarrow> string \<Rightarrow> nat \<times> jobs \<Rightarrow> bool \<times> nat \<times> jobs" where
  "booking_handler envs hub job messageID s =
     (case processBookingJob (fst (envs (fst s))) (snd (envs (fst s))) hub job (snd s) of
        (r, s') \<Rightarrow> (is_ok r, Suc (fst s), s'))"

definition purchase_handler ::
  "(nat \<Rightarrow> senv \<times> qenv) \<Rightarrow> bool \<Rightarrow> PurchaseJob \<Rightarrow> string \<Rightarrow> nat \<times> jobs \<Rightarrow> bool \<times> nat \<times> jobs" where
  "purchase_handler envs hub job messageID s =
     (case processPurchaseJob (fst (envs (fst s))) (snd (envs (fst s))) hub job (snd s) of
        (r, s') \<Rightarrow> (is_ok r, Suc (fst s), s'))"

definition count_down :: "(nat \<Rightarrow> senv \<times> qenv) \<Rightarrow> string \<Rightarrow> nat \<times> jobs \<Rightarrow> nat \<times> jobs" where
  "count_down envs depthKey s =
     (fst s, jwQueue_update (bumpCounter (snd (envs (fst s))) depthKey (-1)) (snd s))"

definition runConsumerGroup ::
  "(nat \<Rightarrow> senv \<times> qenv) \<Rightarrow> bool \<Rightarrow> int \<Rightarrow> BookingJob option list \<Rightarrow> read list list \<Rightarrow> int \<Rightarrow> jobs \<Rightarrow> int \<times> nat \<times> jobs" where
  "runConsumerGroup envs hub part msgs gens committed s =
     run_generations (booking_handler envs hub) (count_down envs bookingDepthKey) part msgs gens committed (0, s)"

definition runPurchaseConsumerGroup ::
  "(nat \<Rightarrow> senv \<times> qenv) \<Rightarrow> bool \<Rightarrow> int \<Rightarrow> PurchaseJob option list \<Rightarrow> read list list \<Rightarrow> int \<Rightarrow> jobs \<Rightarrow> int \<times> nat \<times> jobs" where
  "runPurchaseConsumerGroup envs hub part msgs gens committed s =
     run_generations (purchase_handler envs hub) (count_down envs purchaseDepthKey) part msgs gens committed (0, s)"

section \<open>Which messages are delivered\<close>

text \<open>The offset after a generation that read \<open>n\<close> messages, and what the generations deliver.\<close>

definition next_offset :: "('j \<Rightarrow> bool) \<Rightarrow> 'j option list \<Rightarrow> nat \<Rightarrow> nat \<Rightarrow> nat" where
  "next_offset ok msgs off n =
     Suc (last (off # filter (\<lambda>p. finished ok (msgs ! p)) [off..<min (off + n) (length msgs)]))"

fun delivered :: "('j \<Rightarrow> bool) \<Rightarrow> 'j option list \<Rightarrow> nat list \<Rightarrow> nat \<Rightarrow> nat list" where
  "delivered ok msgs [] off = []"
| "delivered ok msgs (n # ns) off =
     filter (\<lambda>p. msgs ! p \<noteq> None) [off..<min (off + n) (length msgs)] @
       delivered ok msgs ns (next_offset ok msgs off n)"

definition reads :: "nat \<Rightarrow> read list" where
  "reads n = replicate n ReadMessage @ [GenerationEnded]"

lemma last_int: "last (int x # map int xs) = int (last (x # xs))"
  by (cases "xs = []") (simp_all add: last_map)

lemma generation_delivers:
  "run_partition (\<lambda>j mid log. (ok j, log @ [mid])) (\<lambda>log. log) part msgs (reads n) (int off) log =
   (Some (int (next_offset ok msgs off n)),
    log @ map (\<lambda>p. message_id part (int p)) (filter (\<lambda>p. msgs ! p \<noteq> None) [off..<min (off + n) (length msgs)]))"
  unfolding run_partition_def reads_def consume_log last_int next_offset_def by simp

lemma generations_deliver:
  "snd (run_generations (\<lambda>j mid log. (ok j, log @ [mid])) (\<lambda>log. log) part msgs (map reads ns) (int off) log) =
   log @ map (\<lambda>p. message_id part (int p)) (delivered ok msgs ns off)"
  by (induction ns arbitrary: off log) (simp_all add: generation_delivers assigned_offset_def)

text \<open>
  When no handler fails and every generation reads something, the generations together
  deliver every message exactly once and in order.
\<close>

lemma delivered_exactly_once:
  assumes "\<forall>j. ok j" "\<forall>n\<in>set ns. 0 < n" "off + sum_list ns \<le> length msgs"
  shows "delivered ok msgs ns off = filter (\<lambda>p. msgs ! p \<noteq> None) [off..<off + sum_list ns]"
  using assms(2,3)
proof (induction ns arbitrary: off)
  case (Cons n ns)
  have fin: "finished ok m" for m using assms(1) by (simp add: finished_def split: option.splits)
  from Cons.prems have n: "0 < n" "min (off + n) (length msgs) = off + n" by auto
  then have "next_offset ok msgs off n = off + n" by (simp add: next_offset_def fin)
  moreover have "[off..<off + sum_list (n # ns)] = [off..<off + n] @ [off + n..<off + n + sum_list ns]"
    using upt_add_eq_append [of off "off + n" "sum_list ns"] by (simp add: add.assoc)
  ultimately show ?case using Cons.IH [of "off + n"] Cons.prems n by (simp add: add.assoc)
qed simp

text \<open>
  The two ways this goes wrong. A generation that reads nothing moves on by one message,
  which nobody is handed. A message whose handler fails, last in its generation, is handed out
  again by the next one, although its handler has already written the retry to the topic.
\<close>

lemma idle_generation_skips:
  "delivered ok msgs (0 # ns) off = delivered ok msgs ns (Suc off)"
  by (simp add: next_offset_def)

lemma failed_message_again:
  assumes "Suc (Suc off) \<le> length msgs" "finished ok (msgs ! off)" "msgs ! Suc off = Some j" "\<not> ok j"
  shows "delivered ok msgs (2 # [1]) off =
    (if msgs ! off = None then [] else [off]) @ [Suc off, Suc off]"
proof -
  have u: "[off..<min (off + 2) (length msgs)] = [off, Suc off]" "[Suc off..<min (Suc off + 1) (length msgs)] = [Suc off]"
    using assms(1) by (simp_all add: upt_conv_Cons min_def)
  have "next_offset ok msgs off 2 = Suc off"
    unfolding next_offset_def u using assms(2-4) by (simp add: finished_def)
  then show ?thesis unfolding delivered.simps u using assms(1,3) by (simp add: u min_absorb1)
qed

section \<open>No message is passed over\<close>

text \<open>A handler that also writes down which messages it was handed.\<close>

definition logging ::
  "('j \<Rightarrow> string \<Rightarrow> 's \<Rightarrow> bool \<times> 's) \<Rightarrow> 'j \<Rightarrow> string \<Rightarrow> 's \<times> string list \<Rightarrow> bool \<times> 's \<times> string list" where
  "logging h job messageID s =
     (case h job messageID (fst s) of (r, s') \<Rightarrow> (r, s', snd s @ [messageID]))"

definition log_bump :: "('s \<Rightarrow> 's) \<Rightarrow> 's \<times> string list \<Rightarrow> 's \<times> string list" where
  "log_bump bump s = (bump (fst s), snd s)"

lemma logging_simps [simp]:
  "h j m s = (r, s') \<Longrightarrow> logging h j m (s, log) = (r, s', log @ [m])"
  "log_bump bump (s, log) = (bump s, log)"
  by (simp_all add: logging_def log_bump_def)





text \<open>The reads of a generation up to its end; \<open>reads_some\<close>: it reads at least once.\<close>

fun reads_some :: "read list \<Rightarrow> bool" where
  "reads_some (ReadMessage # rs) = True"
| "reads_some (ReadError # rs) = reads_some rs"
| "reads_some rs = False"



lemma idle_commits:
  "consume h b part msgs rs pos cur s = (Some x, s') \<Longrightarrow> \<not> reads_some rs \<Longrightarrow> x = cur + 1"
  by (induction rs rule: reads_some.induct) auto












text \<open>When no handler ever fails, a generation hands its messages out once, in order.\<close>

definition ids :: "int \<Rightarrow> 'j option list \<Rightarrow> nat list \<Rightarrow> string list" where
  "ids part msgs ps = map (\<lambda>p. message_id part (int p)) (filter (\<lambda>p. msgs ! p \<noteq> None) ps)"

lemma ids_append [simp]: "ids part msgs (ps @ qs) = ids part msgs ps @ ids part msgs qs"
  and ids_Nil [simp]: "ids part msgs [] = []"
  by (simp_all add: ids_def)



text \<open>
  What an idle generation does: one that begins at a committed offset commits the next one, so
  the message there is handed to nobody. The first generation of a group has no committed
  offset; idle, it commits -1, which counts as none, and nothing is lost.
\<close>

lemma idle_generation:
  assumes "\<not> reads_some rs" "run_partition h bump part msgs rs (assigned_offset off) s = (Some x, s')"
  shows "x = (if off < 0 then -1 else off + 1)"
  using idle_commits [OF assms(2) [unfolded run_partition_def] assms(1)]
  by (simp add: assigned_offset_def FirstOffset_def split: if_splits)



end
