(* ===== verification/Startup.thy ===== *)
theory Startup
  imports Job_Consumers Event_Stream
begin

text \<open>
  How the server comes up: cmd/server/main.go with internal/database/database.go and
  migrate.go, internal/redis/redis.go, the construction of the command queue in
  internal/queue/queue.go and internal/middleware/request_id.go. Opening a connection
  succeeds or fails as the environment says; a data source is named by its connection string.
\<close>

section \<open>database.go\<close>

record databases =
  dsDB :: "string option"
  dsReadDB :: "string option"

record connect_env =
  ceOpen :: "err option"
  cePing :: "err option"
  ceReadOpen :: "err option"
  ceReadPing :: "err option"
  ceDBClose :: "err option"
  ceReadClose :: "err option"

definition Connect :: "DatabaseConfig \<Rightarrow> connect_env \<Rightarrow> databases \<Rightarrow> unit res \<times> databases" where
  "Connect cfg env s =
     (case ceOpen env of
        Some e \<Rightarrow> (Inl (Wrap ''failed to open database'' e), s\<lparr>dsDB := None\<rparr>)
      | None \<Rightarrow>
          let s1 = s\<lparr>dsDB := Some (DSN cfg)\<rparr> in
          (case cePing env of
             Some e \<Rightarrow> (Inl (Wrap ''failed to ping database'' e), s1)
           | None \<Rightarrow>
               if ReadDSN cfg = '''' then (Inr (), s1)
               else if ceReadOpen env \<noteq> None then (Inr (), s1\<lparr>dsReadDB := None\<rparr>)
               else if ceReadPing env \<noteq> None then (Inr (), s1\<lparr>dsReadDB := None\<rparr>)
               else (Inr (), s1\<lparr>dsReadDB := Some (ReadDSN cfg)\<rparr>)))"

definition read_source :: "databases \<Rightarrow> string option" where
  "read_source s = (if dsReadDB s \<noteq> None then dsReadDB s else dsDB s)"

definition close_databases :: "connect_env \<Rightarrow> databases \<Rightarrow> unit res" where
  "close_databases env s =
     (let err = (if dsDB s = None then None else ceDBClose env);
          err = (if dsReadDB s = None then err else
                 (case ceReadClose env of None \<Rightarrow> err
                  | Some closeErr \<Rightarrow> (case err of
                        Some e \<Rightarrow> Some (Foreign (err_Error e @ ''; '' @ err_Error closeErr))
                      | None \<Rightarrow> Some closeErr)))
      in case err of None \<Rightarrow> Inr () | Some e \<Rightarrow> Inl e)"

text \<open>
  Where reads go is decided at the start: the replica when it answered then, whatever it does
  afterwards, else the primary.
\<close>

lemma read_source_after_Connect:
  assumes "Connect cfg env \<lparr>dsDB = None, dsReadDB = None\<rparr> = (Inr (), s)"
  shows "dsDB s = Some (DSN cfg)"
    and "read_source s = Some (if ReadDSN cfg \<noteq> '''' \<and> ceReadOpen env = None \<and> ceReadPing env = None
      then ReadDSN cfg else DSN cfg)"
  using assms by (auto simp: Connect_def read_source_def Let_def split: option.splits if_splits)

section \<open>redis.go\<close>

record redis_options =
  roAddr :: string
  roPassword :: string
  roDB :: int

text \<open>\<open>parseURL\<close> is go-redis's \<open>ParseURL\<close>.\<close>

definition redis_Connect ::
  "(string \<Rightarrow> redis_options res) \<Rightarrow> err option \<Rightarrow> RedisConfig \<Rightarrow> redis_options res" where
  "redis_Connect parseURL ping cfg =
     ebind (if rdURL cfg \<noteq> ''''
            then (case parseURL (rdURL cfg) of Inl e \<Rightarrow> Inl (Wrap ''parse Redis URL'' e) | Inr r \<Rightarrow> Inr r)
            else Inr \<lparr>roAddr = Addr cfg, roPassword = rdPassword cfg, roDB = rdDB cfg\<rparr>)
       (\<lambda>client. case ping of
            Some e \<Rightarrow> Inl (Wrap ''failed to connect to Redis'' e)
          | None \<Rightarrow> Inr client)"

section \<open>request_id.go\<close>

text \<open>The id a request gets, in its context and in the response's header; \<open>fresh\<close> is \<open>uuid.NewString()\<close>.\<close>

definition RequestID :: "string \<Rightarrow> string \<Rightarrow> string option \<times> string" where
  "RequestID fresh header = (let reqID = (if header = '''' then fresh else header) in (Some reqID, reqID))"

definition GetRequestID :: "string option \<Rightarrow> string" where
  "GetRequestID v = (case v of Some reqID \<Rightarrow> reqID | None \<Rightarrow> '''')"

lemma request_id_in_both: "GetRequestID (fst (RequestID fresh h)) = snd (RequestID fresh h)"
  by (simp add: RequestID_def GetRequestID_def Let_def)

section \<open>migrate.go\<close>

text \<open>
  The database server as far as a migration sees it: the schema, and the advisory locks with
  the session that holds each. A session's advisory locks are not part of its transaction:
  they stay through a commit and a rollback and go when they are unlocked or the session ends.
  In an aborted transaction the server refuses every statement, and \<open>database/sql\<close> sends
  nothing on a transaction that is done. A fault is a lost connection, which ends the session.
\<close>

record 's pg =
  pgSchema :: 's
  pgLocks :: "(int \<times> nat) list"

datatype tx_state = TxOpen | TxAborted | TxDone

datatype mig_step = MigBegin | MigLock | MigExec | MigUnlock | MigCommit

record mig_env =
  mgFault :: "mig_step \<Rightarrow> err option"
  mgLanded :: bool

definition migrationAdvisoryLockID :: int where
  "migrationAdvisoryLockID = 740271904213"

definition end_session :: "nat \<Rightarrow> 's pg \<Rightarrow> 's pg" where
  "end_session sess = pgLocks_update (filter (\<lambda>l. snd l \<noteq> sess))"

definition lock_taken :: "nat \<Rightarrow> 's pg \<Rightarrow> bool" where
  "lock_taken sess s \<longleftrightarrow> (\<exists>l\<in>set (pgLocks s). fst l = migrationAdvisoryLockID \<and> snd l \<noteq> sess)"

text \<open>The deferred \<open>tx.Exec("SELECT pg_advisory_unlock($1)")\<close>.\<close>

definition deferred_unlock :: "mig_env \<Rightarrow> nat \<Rightarrow> tx_state \<Rightarrow> 's pg \<Rightarrow> 's pg" where
  "deferred_unlock env sess tx s =
     (case tx of
        TxOpen \<Rightarrow> (if mgFault env MigUnlock = None
                   then pgLocks_update (remove1 (migrationAdvisoryLockID, sess)) s else end_session sess s)
      | TxAborted \<Rightarrow> s
      | TxDone \<Rightarrow> s)"

text \<open>
  \<open>sql\<close> is what the migration file does to a schema. \<open>None\<close>: the call waits for another
  session's lock.
\<close>

definition executeMigration ::
  "mig_env \<Rightarrow> nat \<Rightarrow> ('s \<Rightarrow> 's res) \<Rightarrow> 's pg \<Rightarrow> (unit res \<times> 's pg) option" where
  "executeMigration env sess sql s =
     (case mgFault env MigBegin of Some e \<Rightarrow> Some (Inl e, end_session sess s)
      | None \<Rightarrow>
     (case mgFault env MigLock of
        Some e \<Rightarrow> Some (Inl (Wrap ''acquire migration advisory lock'' e), end_session sess s)
      | None \<Rightarrow>
          if lock_taken sess s then None else
          let s1 = s\<lparr>pgLocks := (migrationAdvisoryLockID, sess) # pgLocks s\<rparr> in
          (case mgFault env MigExec of
             Some e \<Rightarrow> Some (Inl e, end_session sess s1)
           | None \<Rightarrow>
               (case sql (pgSchema s1) of
                  Inl e \<Rightarrow> Some (Inl e, deferred_unlock env sess TxAborted s1)
                | Inr schema \<Rightarrow>
                    let s2 = s1\<lparr>pgSchema := schema\<rparr> in
                    (case mgFault env MigCommit of
                       Some e \<Rightarrow> Some (Inl e, deferred_unlock env sess TxDone
                         (end_session sess (if mgLanded env then s2 else s1)))
                     | None \<Rightarrow> Some (Inr (), deferred_unlock env sess TxDone s2))))))"

definition RunMigrations ::
  "mig_env \<Rightarrow> nat \<Rightarrow> databases \<Rightarrow> string res \<Rightarrow> (string \<Rightarrow> 's \<Rightarrow> 's res) \<Rightarrow> 's pg \<Rightarrow> (unit res \<times> 's pg) option" where
  "RunMigrations env sess dbs file sql s =
     (if dsDB dbs = None then Some (Inl (Foreign ''database is not connected''), s)
      else case file of
          Inl e \<Rightarrow> Some (Inl (Wrap ''read migration file'' e), s)
        | Inr text \<Rightarrow> executeMigration env sess (sql text) s)"

text \<open>A migration is applied as a whole or not at all, and it is applied when there is no error.\<close>

lemma migration_all_or_nothing:
  assumes "executeMigration env sess sql s = Some (r, s')"
  shows "(pgSchema s' = pgSchema s \<or> sql (pgSchema s) = Inr (pgSchema s')) \<and>
    (is_ok r \<longrightarrow> sql (pgSchema s) = Inr (pgSchema s'))"
  using assms by (auto simp: executeMigration_def end_session_def deferred_unlock_def Let_def
      split: option.splits sum.splits if_splits)

text \<open>
  The deferred unlock runs after the commit, on a transaction that is done, and is never sent: a
  migration that succeeds leaves its advisory lock with the session, which is a connection of
  the server's pool, and so does one whose SQL fails. Another instance's migration waits until that connection is closed.
\<close>

lemma migration_lock_leaks:
  assumes "executeMigration env sess sql s = Some (Inr (), s')"
  shows "(migrationAdvisoryLockID, sess) \<in> set (pgLocks s')"
  using assms by (auto simp: executeMigration_def deferred_unlock_def Let_def
      split: option.splits sum.splits if_splits)

lemma next_migration_waits:
  assumes "executeMigration env sess sql s = Some (Inr (), s')" "sess' \<noteq> sess"
    and "mgFault env' MigBegin = None" "mgFault env' MigLock = None"
  shows "executeMigration env' sess' sql' s' = None"
proof -
  from migration_lock_leaks [OF assms(1)] assms(2) have "lock_taken sess' s'"
    by (force simp: lock_taken_def)
  then show ?thesis using assms(3,4) by (simp add: executeMigration_def)
qed

lemma failed_migration_keeps_lock:
  assumes "mgFault env MigBegin = None" "mgFault env MigLock = None" "mgFault env MigExec = None"
    and "\<not> lock_taken sess s" "sql (pgSchema s) = Inl e"
  shows "\<exists>s'. executeMigration env sess sql s = Some (Inl e, s') \<and>
    (migrationAdvisoryLockID, sess) \<in> set (pgLocks s') \<and> pgSchema s' = pgSchema s"
  using assms by (simp add: executeMigration_def deferred_unlock_def Let_def)

section \<open>The command queue's connections\<close>

text \<open>
  \<open>Queue\<close> is what \<open>NewQueue\<close> sets up: the topics, whether Kafka is used, and the consumer groups
  it is a member of. \<open>kafkago.NewConsumerGroup\<close> joins the group when it is called; \<open>newGroup\<close>
  says how each call fares.
\<close>

record Queue =
  quMaxRetries :: int
  quBookingTopic :: string
  quPurchaseTopic :: string
  quBookingDLQ :: string
  quPurchaseDLQ :: string
  quKafkaEnabled :: bool
  quGroups :: "(string \<times> string) list"

record close_env =
  clGroups :: "string \<Rightarrow> err option"
  clWriters :: "nat \<Rightarrow> err option"

text \<open>An error of closing is its text: it is logged and nothing else.\<close>

definition joinCloseErrors :: "string option \<Rightarrow> string \<Rightarrow> string" where
  "joinCloseErrors existing nxt = (case existing of None \<Rightarrow> nxt | Some e \<Rightarrow> e @ ''; '' @ nxt)"

definition close_next :: "err option \<Rightarrow> string option \<Rightarrow> string option" where
  "close_next closeErr err =
     (case closeErr of None \<Rightarrow> err | Some e \<Rightarrow> Some (joinCloseErrors err (err_Error e)))"

definition close_group :: "close_env \<Rightarrow> Queue \<Rightarrow> string \<Rightarrow> string \<Rightarrow> string option \<Rightarrow> string option" where
  "close_group env q grp label err =
     (if grp \<in> fst ` set (quGroups q)
      then close_next (map_option (Wrap label) (clGroups env grp)) err else err)"

text \<open>Both reader goroutines have ended when the groups are closed (\<open>q.wg.Wait()\<close>).\<close>

definition queue_Close :: "close_env \<Rightarrow> Queue \<Rightarrow> string option" where
  "queue_Close env q =
     (if \<not> quKafkaEnabled q then None else
      let err = close_group env q ''booking-workers'' ''booking group'' None;
          err = close_group env q ''purchase-workers'' ''purchase group'' err
      in fold (\<lambda>k. close_next (clWriters env k)) [0..<4] err)"

definition topic_or :: "string \<Rightarrow> string \<Rightarrow> string" where
  "topic_or topic dflt = (if topic \<noteq> '''' then topic else dflt)"

definition NewQueue :: "(string \<Rightarrow> err option) \<Rightarrow> KafkaConfig option \<Rightarrow> Queue res" where
  "NewQueue newGroup cfg =
     (let q = \<lparr>quMaxRetries = defaultMaxRetries, quBookingTopic = ''booking-commands'',
            quPurchaseTopic = ''purchase-commands'', quBookingDLQ = ''booking-commands-dlq'',
            quPurchaseDLQ = ''purchase-commands-dlq'', quKafkaEnabled = False, quGroups = []\<rparr>
      in case cfg of None \<Rightarrow> Inr q
      | Some k \<Rightarrow>
          let q = q\<lparr>quBookingTopic := topic_or (kBookingCommandsTopic k) (quBookingTopic q),
                quPurchaseTopic := topic_or (kPurchaseCommandsTopic k) (quPurchaseTopic q),
                quBookingDLQ := topic_or (kBookingDLQTopic k) (quBookingDLQ q),
                quPurchaseDLQ := topic_or (kPurchaseDLQTopic k) (quPurchaseDLQ q)\<rparr>
          in if length (kBrokers k) = 0 then Inr q
             else ebind (NewClient k) (\<lambda>_.
               case newGroup ''booking-workers'' of
                 Some e \<Rightarrow> Inl (Wrap ''create booking consumer group'' e)
               | None \<Rightarrow>
               (case newGroup ''purchase-workers'' of
                  Some e \<Rightarrow> Inl (Wrap ''create purchase consumer group'' e)
                | None \<Rightarrow> Inr (q\<lparr>quKafkaEnabled := True,
                    quGroups := [(''booking-workers'', quBookingTopic q),
                                 (''purchase-workers'', quPurchaseTopic q)]\<rparr>))))"

definition queue_Enabled :: "Queue option \<Rightarrow> bool" where
  "queue_Enabled q = (case q of None \<Rightarrow> False | Some q \<Rightarrow> quKafkaEnabled q)"

lemma NewQueue_Inr:
  assumes "NewQueue newGroup (Some k) = Inr q"
  shows "quKafkaEnabled q \<longleftrightarrow> kBrokers k \<noteq> []"
    and "quGroups q = (if kBrokers k = [] then []
      else [(''booking-workers'', quBookingTopic q), (''purchase-workers'', quPurchaseTopic q)])"
    and "quBookingTopic q \<noteq> '''' \<and> quPurchaseTopic q \<noteq> ''''"
  using assms by (auto simp: NewQueue_def Let_def ebind_Inr_iff topic_or_def
      split: option.splits if_splits)

section \<open>Constructors and starts\<close>

record EventConsumer =
  ecEnabled :: bool
  ecGroupID :: string
  ecTopic :: string
  ecDLQTopic :: string
  ecDLQAcks :: RequiredAcks

definition NewBookingEventConsumer :: "KafkaConfig option \<Rightarrow> string \<Rightarrow> EventConsumer res" where
  "NewBookingEventConsumer cfg groupID =
     (let none = \<lparr>ecEnabled = False, ecGroupID = '''', ecTopic = '''', ecDLQTopic = '''', ecDLQAcks = RequireNone\<rparr>
      in case cfg of None \<Rightarrow> Inr none
      | Some k \<Rightarrow>
          if length (kBrokers k) = 0 then Inr none
          else ebind (NewClient k) (\<lambda>_.
            let groupID = (if groupID = '''' then ''booking-event-consumers'' else groupID) in
            Inr \<lparr>ecEnabled = True, ecGroupID = groupID, ecTopic = kBookingEventsTopic k,
              ecDLQTopic = kBookingEventsDLQTopic k, ecDLQAcks = kafkaRequiredAcks (kRequiredAcks k)\<rparr>))"

definition consumer_Enabled :: "EventConsumer option \<Rightarrow> bool" where
  "consumer_Enabled c = (case c of None \<Rightarrow> False | Some c \<Rightarrow> ecEnabled c)"

definition StartBookingConsumer :: "Queue \<Rightarrow> (string \<times> string) res" where
  "StartBookingConsumer q =
     (if \<not> quKafkaEnabled q \<or> ''booking-workers'' \<notin> fst ` set (quGroups q) then Inl QueueErrKafkaUnavailable
      else Inr (''booking-workers'', quBookingTopic q))"

definition StartPurchaseConsumer :: "Queue \<Rightarrow> (string \<times> string) res" where
  "StartPurchaseConsumer q =
     (if \<not> quKafkaEnabled q \<or> ''purchase-workers'' \<notin> fst ` set (quGroups q) then Inl QueueErrKafkaUnavailable
      else Inr (''purchase-workers'', quPurchaseTopic q))"

text \<open>A worker that cannot start its consumer logs that and ends; the result is what it reads.\<close>

definition StartBookingWorker :: "Queue \<Rightarrow> (string \<times> string) set" where
  "StartBookingWorker q = (case StartBookingConsumer q of Inl _ \<Rightarrow> {} | Inr g \<Rightarrow> {g})"

definition StartPurchaseWorker :: "Queue \<Rightarrow> (string \<times> string) set" where
  "StartPurchaseWorker q = (case StartPurchaseConsumer q of Inl _ \<Rightarrow> {} | Inr g \<Rightarrow> {g})"

definition NewBatchReleaseWorker :: "BookingConfig option \<Rightarrow> expiryReleasePartitionPlan res" where
  "NewBatchReleaseWorker cfg = ebind (expiryReleasePartitionPlanFromConfig cfg) (\<lambda>plan. Inr plan)"

text \<open>\<open>Run\<close>: the goroutines it starts, by worker number and partition; none without an expiry queue.\<close>

definition release_Run :: "bool \<Rightarrow> expiryReleasePartitionPlan \<Rightarrow> (nat \<times> int) list" where
  "release_Run expiryQueue plan =
     (if \<not> expiryQueue then [] else enumerate 0 (worker_partitions plan))"

section \<open>main.go\<close>

definition shouldRunStartupMigrations :: "environ \<Rightarrow> bool" where
  "shouldRunStartupMigrations env =
     (let value = env ''RUN_MIGRATIONS_ON_START'' in
      if value \<in> {''true'', ''1'', ''yes'', ''y'', ''on''} then True
      else if value \<in> {''false'', ''0'', ''no'', ''n'', ''off''} then False
      else env ''RAILWAY_ENVIRONMENT'' \<noteq> '''' \<or> env ''RAILWAY_PROJECT_ID'' \<noteq> '''' \<or>
        env ''RAILWAY_SERVICE_ID'' \<noteq> '''')"

text \<open>
  A server process: the parts that run, and its memberships in consumer groups with whether it starts reading as that member. \<open>Reading\<close> is a call of \<open>StartBookingConsumer\<close> or
  \<open>StartPurchaseConsumer\<close> on the queue that joined.
\<close>

datatype part = HubRun | HubFanout | EventPublisher | EventConsumption | BatchRelease | Cleanup
  | BookingWorker | PurchaseWorker | Monitor | HttpServer

datatype membership = Reading | Idle

record process =
  prParts :: "part list"
  prMembers :: "(string \<times> string \<times> membership) list"

text \<open>\<open>log.Fatalf\<close> ends the process: its message and error.\<close>

type_synonym 'a start = "(string \<times> err) + 'a"

definition or_fatal :: "string \<Rightarrow> 'a res \<Rightarrow> ('a \<Rightarrow> 'b start) \<Rightarrow> 'b start" where
  "or_fatal msg r k = (case r of Inl e \<Rightarrow> Inl (msg, e) | Inr x \<Rightarrow> k x)"

record start_env =
  seURLHost :: "string \<Rightarrow> string option"
  seEnviron :: environ
  seConnect :: connect_env
  seMigration :: "unit res"
  seParseURL :: "string \<Rightarrow> redis_options res"
  seRedisPing :: "err option"
  seGroup :: "bool \<Rightarrow> string \<Rightarrow> err option"

text \<open>
  \<open>SetupRoutes\<close> makes a queue and a producer of its own for the handlers; they only write. The
  result is the memberships of its queue and whether the asynchronous paths are on.
\<close>

definition SetupRoutes ::
  "(string \<Rightarrow> err option) \<Rightarrow> KafkaConfig \<Rightarrow> ((string \<times> string \<times> membership) list \<times> bool) res" where
  "SetupRoutes newGroup k =
     ebind (NewQueue newGroup (Some k)) (\<lambda>q.
     ebind (NewProducer (Some k)) (\<lambda>_.
       Inr (map (\<lambda>(g, t). (g, t, Idle)) (quGroups q), queue_Enabled (Some q))))"

text \<open>
  \<open>main\<close> up to the wait for a signal. A Redis that cannot be reached is a warning, and so are
  a producer that cannot be made and topics that cannot be ensured; \<open>seGroup True\<close> is for the
  queue of \<open>main\<close>, \<open>seGroup False\<close> for the one of \<open>SetupRoutes\<close>. A migration that waits for
  its lock has not come to a result.
\<close>

definition server_main :: "start_env \<Rightarrow> process start" where
  "server_main env =
     or_fatal ''Failed to load config'' (Load (seURLHost env) (seEnviron env)) (\<lambda>cfg.
     or_fatal ''Failed to connect to database''
       (fst (Connect (cDatabase cfg) (seConnect env) \<lparr>dsDB = None, dsReadDB = None\<rparr>)) (\<lambda>_.
     or_fatal ''Database migration failed''
       (if shouldRunStartupMigrations (seEnviron env) then seMigration env else Inr ()) (\<lambda>_.
     let redisClient = is_ok (redis_Connect (seParseURL env) (seRedisPing env) (cRedis cfg));
         k = cKafka cfg;
         publisher = (case NewProducer (Some k) of Inl _ \<Rightarrow> False | Inr p \<Rightarrow> pdEnabled p)
     in
     or_fatal ''Failed to configure Kafka event consumer''
       (NewBookingEventConsumer (Some k) ''booking-event-consumers'') (\<lambda>consumer.
     or_fatal ''Failed to configure batch release worker''
       (if redisClient then ebind (NewBatchReleaseWorker (Some (cBooking cfg))) (\<lambda>_. Inr ()) else Inr ()) (\<lambda>_.
     or_fatal ''Failed to configure Kafka command queue'' (NewQueue (seGroup env True) (Some k)) (\<lambda>q.
     or_fatal ''Failed to configure API routes'' (SetupRoutes (seGroup env False) k) (\<lambda>(routes, _).
       Inr \<lparr>prParts = [HubRun, HubFanout] @ (if publisher then [EventPublisher] else [])
              @ (if consumer_Enabled (Some consumer) then [EventConsumption] else []) @ (if redisClient then [BatchRelease] else [])
              @ [Cleanup]
              @ (if queue_Enabled (Some q) then [BookingWorker, PurchaseWorker, Monitor] else [])
              @ [HttpServer],
            prMembers =
              (let started = (if queue_Enabled (Some q) then StartBookingWorker q \<union> StartPurchaseWorker q else {})
               in map (\<lambda>(g, t). (g, t, if (g, t) \<in> started then Reading else Idle)) (quGroups q) @ routes)\<rparr>)))))))"

lemma or_fatal_Inr: "or_fatal msg r k = Inr y \<longleftrightarrow> (\<exists>x. r = Inr x \<and> k x = Inr y)"
  by (cases r) (simp_all add: or_fatal_def)

lemma started_all:
  assumes "quKafkaEnabled q"
    "quGroups q = [(''booking-workers'', quBookingTopic q), (''purchase-workers'', quPurchaseTopic q)]"
  shows "StartBookingWorker q = {(''booking-workers'', quBookingTopic q)}"
    "StartPurchaseWorker q = {(''purchase-workers'', quPurchaseTopic q)}"
  using assms by (simp_all add: StartBookingWorker_def StartPurchaseWorker_def StartBookingConsumer_def
      StartPurchaseConsumer_def)

text \<open>
  \<open>Load\<close> has checked the Kafka settings, so that no client constructor fails on them later: a
  server that comes up has all its Kafka parts or none. The cleanup loop always runs; the
  release worker runs when Redis answered.
\<close>

lemma Load_NewClient: "Load h e = Inr cfg \<Longrightarrow> \<exists>c. NewClient (cKafka cfg) = Inr c"
  by (auto simp: Load_def NewClient_def Let_def ebind_Inr_iff)

lemma server_main_Inr:
  assumes "server_main env = Inr p"
  obtains cfg q r where "Load (seURLHost env) (seEnviron env) = Inr cfg"
    "NewQueue (seGroup env True) (Some (cKafka cfg)) = Inr q"
    "NewQueue (seGroup env False) (Some (cKafka cfg)) = Inr r"
    "set (prParts p) = {HubRun, HubFanout, Cleanup, HttpServer}
       \<union> (if kBrokers (cKafka cfg) = [] then {}
          else {EventPublisher, EventConsumption, BookingWorker, PurchaseWorker, Monitor})
       \<union> (if is_ok (redis_Connect (seParseURL env) (seRedisPing env) (cRedis cfg)) then {BatchRelease} else {})"
    "prMembers p = map (\<lambda>(g, t). (g, t, if quKafkaEnabled q then Reading else Idle)) (quGroups q)
       @ map (\<lambda>(g, t). (g, t, Idle)) (quGroups r)"
proof -
  from assms obtain cfg where l: "Load (seURLHost env) (seEnviron env) = Inr cfg"
    unfolding server_main_def or_fatal_Inr by blast
  obtain c where c: "NewClient (cKafka cfg) = Inr c" using Load_NewClient [OF l] by blast
  note step = assms [unfolded server_main_def or_fatal_Inr Let_def l, simplified]
  from step obtain q where q: "NewQueue (seGroup env True) (Some (cKafka cfg)) = Inr q" by blast
  from step obtain r where r: "NewQueue (seGroup env False) (Some (cKafka cfg)) = Inr r"
    by (auto simp: SetupRoutes_def ebind_Inr_iff)
  from step q r have "set (prParts p) = {HubRun, HubFanout, Cleanup, HttpServer}
       \<union> (if kBrokers (cKafka cfg) = [] then {}
          else {EventPublisher, EventConsumption, BookingWorker, PurchaseWorker, Monitor})
       \<union> (if is_ok (redis_Connect (seParseURL env) (seRedisPing env) (cRedis cfg)) then {BatchRelease} else {})"
    by (auto simp: SetupRoutes_def c NewProducer_def disabled_producer_def queue_Enabled_def
        NewBookingEventConsumer_def consumer_Enabled_def ebind_Inr_iff NewQueue_Inr(1) [OF q] split: if_splits)
  moreover from step q r have "prMembers p =
      map (\<lambda>(g, t). (g, t, if (g, t) \<in> (if quKafkaEnabled q then StartBookingWorker q \<union> StartPurchaseWorker q
          else {}) then Reading else Idle)) (quGroups q)
       @ map (\<lambda>(g, t). (g, t, Idle)) (quGroups r)"
    unfolding SetupRoutes_def queue_Enabled_def ebind_Inr_iff by (auto split del: if_split)
  then have "prMembers p =
      map (\<lambda>(g, t). (g, t, if quKafkaEnabled q then Reading else Idle)) (quGroups q)
       @ map (\<lambda>(g, t). (g, t, Idle)) (quGroups r)"
    using NewQueue_Inr(1,2) [OF q] by (simp add: started_all)
  ultimately show thesis using that l q r by blast
qed

lemma parts_that_run:
  assumes "server_main env = Inr p"
  shows "Cleanup \<in> set (prParts p) \<and> HttpServer \<in> set (prParts p) \<and>
    (EventPublisher \<in> set (prParts p) \<longleftrightarrow> EventConsumption \<in> set (prParts p)) \<and>
    (EventPublisher \<in> set (prParts p) \<longleftrightarrow> {BookingWorker, PurchaseWorker, Monitor} \<subseteq> set (prParts p))"
  by (rule server_main_Inr [OF assms]) simp

text \<open>
  A server that uses Kafka is two members of each consumer group of the command queue, and
  reads as one of them only: the queue \<open>SetupRoutes\<close> makes for the handlers joins the groups
  too. However the group's partitions are shared out, as long as every member gets one, some
  partition belongs to the idle member and is read by nobody; the jobs written to it wait.
\<close>

lemma group_members:
  assumes "server_main env = Inr p" "EventConsumption \<in> set (prParts p)"
  shows "\<exists>tb tp. prMembers p = [(''booking-workers'', tb, Reading), (''purchase-workers'', tp, Reading),
    (''booking-workers'', tb, Idle), (''purchase-workers'', tp, Idle)]"
proof (rule server_main_Inr [OF assms(1)])
  fix cfg q r
  assume q: "NewQueue (seGroup env True) (Some (cKafka cfg)) = Inr q"
    and r: "NewQueue (seGroup env False) (Some (cKafka cfg)) = Inr r"
    and s: "set (prParts p) = {HubRun, HubFanout, Cleanup, HttpServer}
       \<union> (if kBrokers (cKafka cfg) = [] then {}
          else {EventPublisher, EventConsumption, BookingWorker, PurchaseWorker, Monitor})
       \<union> (if is_ok (redis_Connect (seParseURL env) (seRedisPing env) (cRedis cfg)) then {BatchRelease} else {})"
    and m: "prMembers p = map (\<lambda>(g, t). (g, t, if quKafkaEnabled q then Reading else Idle)) (quGroups q)
       @ map (\<lambda>(g, t). (g, t, Idle)) (quGroups r)"
  from s assms(2) have k: "kBrokers (cKafka cfg) \<noteq> []" by (auto split: if_splits)
  have t: "quBookingTopic q = quBookingTopic r" "quPurchaseTopic q = quPurchaseTopic r"
    using q r k by (auto simp: NewQueue_def Let_def ebind_Inr_iff split: option.splits)
  show ?thesis using m k t by (simp add: NewQueue_Inr(1,2) [OF q] NewQueue_Inr(2) [OF r])
qed

lemma unread_partition:
  assumes "server_main env = Inr p" "EventConsumption \<in> set (prParts p)"
    and "g \<in> {''booking-workers'', ''purchase-workers''}"
    and all_get_one: "\<forall>i<length (prMembers p). fst (prMembers p ! i) = g \<longrightarrow> assigned i \<noteq> {}"
    and exclusive: "\<forall>i j part. fst (prMembers p ! i) = g \<and> fst (prMembers p ! j) = g \<and>
      i < length (prMembers p) \<and> j < length (prMembers p) \<and>
      part \<in> assigned i \<and> part \<in> assigned j \<longrightarrow> i = (j :: nat)"
  shows "\<exists>part. (\<exists>i<length (prMembers p). fst (prMembers p ! i) = g \<and> part \<in> assigned i) \<and>
    (\<forall>i<length (prMembers p). fst (prMembers p ! i) = g \<and> part \<in> assigned i \<longrightarrow>
       snd (snd (prMembers p ! i)) = Idle)"
proof -
  obtain tb tp where m: "prMembers p = [(''booking-workers'', tb, Reading),
      (''purchase-workers'', tp, Reading), (''booking-workers'', tb, Idle), (''purchase-workers'', tp, Idle)]"
    using group_members [OF assms(1,2)] by blast
  define i where "i = (if g = ''booking-workers'' then 2 else 3 :: nat)"
  have i: "i < length (prMembers p)" "fst (prMembers p ! i) = g" "snd (snd (prMembers p ! i)) = Idle"
    using assms(3) by (auto simp: i_def m)
  then obtain part where part: "part \<in> assigned i" using all_get_one by blast
  then have "\<forall>j<length (prMembers p). fst (prMembers p ! j) = g \<and> part \<in> assigned j \<longrightarrow> j = i"
    using exclusive i by blast
  then show ?thesis using i part by blast
qed

text \<open>A server with this environment comes up.\<close>

definition demo_start :: start_env where
  "demo_start = \<lparr>seURLHost = (\<lambda>_. None), seEnviron = demo_environ,
     seConnect = \<lparr>ceOpen = None, cePing = None, ceReadOpen = None, ceReadPing = None,
       ceDBClose = None, ceReadClose = None\<rparr>,
     seMigration = Inr (), seParseURL = (\<lambda>u. Inr \<lparr>roAddr = u, roPassword = '''', roDB = 0\<rparr>),
     seRedisPing = None, seGroup = (\<lambda>_ _. None)\<rparr>"

lemma demo_server:
  "case server_main demo_start of Inl _ \<Rightarrow> False
   | Inr p \<Rightarrow> EventConsumption \<in> set (prParts p) \<and> BatchRelease \<in> set (prParts p) \<and>
       map (snd \<circ> snd) (prMembers p) = [Reading, Reading, Idle, Idle]"
  by code_simp

end
