(* ===== verification/Schema_Theorems.thy ===== *)
theory Schema_Theorems
  imports Transactions Demo
begin

text \<open>
  The tables are well formed after every history: what the schema of
  internal/database/migrations.sql declares (keys, uniqueness, references, column ranges), and
  two rules it does not declare and the code keeps: a booking's seat is a seat of the
  booking's event, and \<open>purchased_at\<close> is set exactly while the booking is purchased.
\<close>

definition keys_unique :: "db \<Rightarrow> bool" where
  "keys_unique d \<longleftrightarrow> distinct (map uID (users d)) \<and> distinct (map uEmail (users d)) \<and>
     distinct (map vID (venues d)) \<and> distinct (map eID (events d)) \<and> distinct (map sID (seats d)) \<and>
     distinct (map (\<lambda>s. (sEventID s, sSeatNumber s)) (seats d)) \<and> distinct (map bID (bookings d))"

definition references_resolve :: "db \<Rightarrow> bool" where
  "references_resolve d \<longleftrightarrow>
     (\<forall>e\<in>set (events d). eVenueID e \<in> vID ` set (venues d) \<and> eCreatedBy e \<in> uID ` set (users d)) \<and>
     (\<forall>s\<in>set (seats d). sEventID s \<in> eID ` set (events d)) \<and>
     (\<forall>b\<in>set (bookings d). bUserID b \<in> uID ` set (users d) \<and> bEventID b \<in> eID ` set (events d) \<and>
        (bSeatID b, bEventID b) \<in> (\<lambda>s. (sID s, sEventID s)) ` set (seats d))"

definition columns_in_range :: "db \<Rightarrow> bool" where
  "columns_in_range d \<longleftrightarrow> (\<forall>v\<in>set (venues d). int4 (vCapacity v)) \<and>
     (\<forall>e\<in>set (events d). int4 (eTotalSeats e) \<and> int4 (eAvailableSeats e)) \<and>
     (\<forall>b\<in>set (bookings d). (bPurchasedAt b \<noteq> None) = (bStatus b = BookingStatusPurchased))"

text \<open>What \<open>db_inv\<close> does not say of the tables.\<close>

definition rest_ok :: "db \<Rightarrow> bool" where
  "rest_ok d \<longleftrightarrow> distinct (map uID (users d)) \<and> distinct (map uEmail (users d)) \<and>
     distinct (map vID (venues d)) \<and> (\<forall>v\<in>set (venues d). int4 (vCapacity v)) \<and>
     (\<forall>e\<in>set (events d). eVenueID e \<in> vID ` set (venues d) \<and> eCreatedBy e \<in> uID ` set (users d)) \<and>
     (\<forall>b\<in>set (bookings d). bUserID b \<in> uID ` set (users d) \<and>
        (bPurchasedAt b \<noteq> None) = (bStatus b = BookingStatusPurchased))"

lemma sql_update_ball:
  assumes "\<forall>x\<in>set xs. P x" "\<And>x. x \<in> set xs \<Longrightarrow> p x \<Longrightarrow> P x \<Longrightarrow> P (f x)"
  shows "\<forall>x\<in>set (sql_update p f xs). P x"
  using assms by (auto simp: sql_update_def)

text \<open>A change of one booking keeps the rest if it keeps its user, the event's links and \<open>purchased_at\<close>.\<close>

lemma rest_touch:
  assumes inv: "db_inv d" and rest: "rest_ok d" and b: "b \<in> set (bookings d)"
    and fb: "bUserID (fb b) = bUserID b" "(bPurchasedAt (fb b) \<noteq> None) = (bStatus (fb b) = BookingStatusPurchased)"
    and fe: "\<And>e. eVenueID (fe e) = eVenueID e \<and> eCreatedBy (fe e) = eCreatedBy e"
  shows "rest_ok (touch b fb fs fe d)"
proof -
  have same: "x = b" if "x \<in> set (bookings d)" "bID x = bID b" for x
    using keys_okD(1) [OF inv] b that by (metis inj_on_def distinct_map)
  have "\<forall>x\<in>set (bookings (touch b fb fs fe d)). bUserID x \<in> uID ` set (users d) \<and>
        (bPurchasedAt x \<noteq> None) = (bStatus x = BookingStatusPurchased)"
    unfolding touch_tables
  proof (rule sql_update_ball)
    show "bUserID (fb x) \<in> uID ` set (users d) \<and>
        (bPurchasedAt (fb x) \<noteq> None) = (bStatus (fb x) = BookingStatusPurchased)"
      if "x \<in> set (bookings d)" "bID x = bID b" for x
      unfolding same [OF that] fb(1) using rest b fb(2) by (simp add: rest_ok_def)
  qed (use rest in \<open>simp add: rest_ok_def\<close>)
  moreover have "\<forall>e\<in>set (events (touch b fb fs fe d)). eVenueID e \<in> vID ` set (venues d) \<and>
      eCreatedBy e \<in> uID ` set (users d)"
    unfolding touch_tables by (rule sql_update_ball) (use rest fe in \<open>auto simp: rest_ok_def\<close>)
  ultimately show ?thesis using rest by (simp add: rest_ok_def)
qed

lemma effect_rest: "effect d d' \<Longrightarrow> db_inv d \<Longrightarrow> rest_ok d \<Longrightarrow> rest_ok d'"
proof (induction rule: effect.induct)
  case (reserve e d b s ts)
  have "\<forall>e\<in>set (events (reserve_db ts b d)). eVenueID e \<in> vID ` set (venues d) \<and>
      eCreatedBy e \<in> uID ` set (users d)"
    unfolding reserve_tables
    by (rule sql_update_ball) (use reserve in \<open>auto simp: rest_ok_def take_away_def\<close>)
  then show ?case using reserve by (simp add: rest_ok_def)
next
  case (set_role d uid ts role)
  have k: "map uID (sql_update (\<lambda>u. uID u = uid) (\<lambda>u. u\<lparr>uRole := role, uUpdatedAt := ts\<rparr>) us) = map uID us"
    "map uEmail (sql_update (\<lambda>u. uID u = uid) (\<lambda>u. u\<lparr>uRole := role, uUpdatedAt := ts\<rparr>) us) = map uEmail us"
    for us :: "User list" by (auto simp: sql_update_def)
  from k(1) have "uID ` set (sql_update (\<lambda>u. uID u = uid) (\<lambda>u. u\<lparr>uRole := role, uUpdatedAt := ts\<rparr>) us) =
      uID ` set us" for us :: "User list" by (metis list.set_map)
  with k set_role show ?case by (simp add: rest_ok_def)
next
  case (set_intent d bid i ts)
  show ?case unfolding rest_ok_def using set_intent
    by (auto simp: rest_ok_def sql_update_def)
next
  case (purchase b d ts)
  then show ?case by (intro rest_touch) (simp_all add: row_defs)
next
  case (revert b d ts)
  then show ?case by (intro rest_touch) (simp_all add: row_defs)
next
  case (extend b d until ts)
  then show ?case by (intro rest_touch) (auto simp: row_defs rest_ok_def)
next
  case (expire b d ts)
  then show ?case by (intro rest_touch) (auto simp: row_defs rest_ok_def)
next
  case (cancel b d ts)
  then show ?case by (intro rest_touch) (auto simp: row_defs rest_ok_def)
qed (auto simp: rest_ok_def sql_insert_def)

definition well_formed :: "db \<Rightarrow> bool" where
  "well_formed d \<longleftrightarrow> db_inv d \<and> rest_ok d"

interpretation schema_run: invariant_system exec_tx well_formed
proof unfold_locales
  fix d :: db and op
  assume wf: "well_formed d"
  have "well_formed d'" if "effect\<^sup>*\<^sup>* d d'" for d'
    using that by (induction rule: rtranclp_induct)
      (use wf effect_inv effect_rest in \<open>auto simp: well_formed_def\<close>)
  then show "well_formed (exec_tx op d)" using exec_tx_effect wf by (auto simp: well_formed_def)
qed

lemma well_formed_tables:
  assumes "well_formed d" shows "keys_unique d \<and> references_resolve d \<and> columns_in_range d"
proof -
  have inv: "db_inv d" and rest: "rest_ok d" using assms by (simp_all add: well_formed_def)
  have link: "(bSeatID b, bEventID b) \<in> (\<lambda>s. (sID s, sEventID s)) ` set (seats d)"
    if "b \<in> set (bookings d)" for b
    by (rule booking_seat [OF inv that]) force
  have ev: "bEventID b \<in> eID ` set (events d)" if "b \<in> set (bookings d)" for b
    by (rule booking_event [OF inv that]) force
  have seat: "sEventID s \<in> eID ` set (events d)" if "s \<in> set (seats d)" for s
    using db_invD(2) [OF inv] that by (force simp: refs_ok_def)
  have "int4 (eAvailableSeats e)" if "e \<in> set (events d)" for e
  proof -
    have "event_ok (bookings d) e" using db_invD(5) [OF inv] that by (simp add: counts_ok_def)
    then have "eAvailableSeats e = eTotalSeats e - cnt (active_on (eID e)) (bookings d)"
      "min 0 (eTotalSeats e) \<le> eAvailableSeats e" "int4 (eTotalSeats e)"
      unfolding event_ok_def by blast+
    moreover have "0 \<le> cnt (active_on (eID e)) (bookings d)" by simp
    ultimately show ?thesis unfolding int4_def by linarith
  qed
  then show ?thesis
    using keys_okD [OF inv] rest db_invD(5) [OF inv] link ev seat
    by (auto simp: keys_unique_def references_resolve_def columns_in_range_def rest_ok_def
        counts_ok_def event_ok_def)
qed

text \<open>
  C12. After every history of the program's transactions, from the empty database, the tables
  are well formed: identifiers, e-mails and an event's seat numbers are unique; every reference
  of an event, seat or booking resolves, and a booking's seat belongs to its event; the integer
  columns are in range; and a booking has a purchase time exactly when it is purchased.
\<close>

theorem tables_well_formed:
  "keys_unique (run exec_tx ops empty_db) \<and> references_resolve (run exec_tx ops empty_db) \<and>
   columns_in_range (run exec_tx ops empty_db)"
proof -
  have "well_formed empty_db"
    using db_inv_empty by (simp add: well_formed_def rest_ok_def empty_db_def)
  then show ?thesis by (rule well_formed_tables [OF schema_run.run_inv])
qed

end
