(* ===== verification/Payment_Theorems.thy ===== *)
theory Payment_Theorems
  imports Complex_Main Payment
begin

text \<open>
  How far the amount sent to Stripe is from the price: the two roundings of
  \<open>int64(booking.TotalAmount * 100)\<close> in internal/services/payment_service.go, bounded.
\<close>

section \<open>Rounding errors\<close>

definition fval :: "int \<times> int \<Rightarrow> real" where
  "fval x = real_of_int (fst x) * 2 powi (snd x)"

lemma log2_bounds: "0 < n \<Longrightarrow> 0 \<le> log2 n \<and> 2 ^ nat (log2 n) \<le> n \<and> n < 2 ^ nat (log2 n + 1)"
proof (induction n rule: log2.induct)
  case (1 n)
  show ?case
  proof (cases "n < 2")
    case True
    then have "log2 n = 0" by (subst log2.simps) simp
    with True "1.prems" show ?thesis by simp
  next
    case False
    then have l: "log2 n = 1 + log2 (n div 2)" by (subst log2.simps) simp
    from False "1.IH" have h: "0 \<le> log2 (n div 2)" "2 ^ nat (log2 (n div 2)) \<le> n div 2"
      "n div 2 < 2 ^ nat (log2 (n div 2) + 1)" by simp_all
    have "nat (1 + log2 (n div 2)) = Suc (nat (log2 (n div 2)))"
      "nat (1 + log2 (n div 2) + 1) = Suc (nat (log2 (n div 2) + 1))" using h(1) by simp_all
    then show ?thesis unfolding l using h by simp linarith
  qed
qed

lemma power_nat_powi: "0 \<le> k \<Longrightarrow> real_of_int (2 ^ nat k) = 2 powi k"
  by (simp add: power_int_def)

lemma log2_powi: "0 < n \<Longrightarrow> 2 powi log2 n \<le> real_of_int n \<and> real_of_int n < 2 powi (log2 n + 1)"
  using log2_bounds [of n] power_nat_powi [of "log2 n"] power_nat_powi [of "log2 n + 1"]
  by (metis add_nonneg_nonneg of_int_le_iff of_int_less_iff zero_le_one)

lemma scale_div:
  assumes "0 < b" "scale a b e = (x, y)"
  shows "0 < y" "real_of_int x / real_of_int y = real_of_int a / real_of_int b * 2 powi (- e)"
  using assms by (auto simp: scale_def power_int_def power_int_minus field_simps split: if_splits)

lemma round_div_error:
  assumes "0 < b"
  shows "\<bar>real_of_int (round_div a b) - real_of_int a / real_of_int b\<bar> \<le> 1 / 2"
proof -
  let ?q = "a div b" and ?r = "a mod b"
  have a: "real_of_int a = real_of_int ?q * real_of_int b + real_of_int ?r"
    by (metis div_mult_mod_eq of_int_add of_int_mult)
  have r: "0 \<le> ?r" "?r < b" using assms by simp_all
  have d: "real_of_int a / real_of_int b = real_of_int ?q + real_of_int ?r / real_of_int b"
    using assms by (simp add: a field_simps)
  have h: "2 * ?r \<le> b \<Longrightarrow> real_of_int ?r / real_of_int b \<le> 1 / 2"
    "b \<le> 2 * ?r \<Longrightarrow> 1 / 2 \<le> real_of_int ?r / real_of_int b"
    using assms by (simp_all add: field_simps)
  have "0 \<le> real_of_int ?r / real_of_int b" "real_of_int ?r / real_of_int b \<le> 1"
    using assms r by simp_all
  then show ?thesis unfolding d round_div_def Let_def using h by auto
qed

lemma round_div_exact: "0 < b \<Longrightarrow> b dvd a \<Longrightarrow> round_div a b = a div b"
  by (simp add: round_div_def)

section \<open>float64\_of\<close>

text \<open>The exponent is at most that of the value, less 52 bits of the significand.\<close>

lemma float64_of_parts:
  assumes "0 < a" "0 < b"
  obtains x y e where "float64_of a b = (round_div x y, e)" "0 < y"
    "real_of_int x / real_of_int y = real_of_int a / real_of_int b * 2 powi (- e)"
    "2 powi (e + 52) \<le> real_of_int a / real_of_int b"
proof -
  define k where "k = log2 a - log2 b"
  obtain a' b' where s: "scale a b k = (a', b')" by fastforce
  define e where "e = (if b' \<le> a' then k - 52 else k - 53)"
  obtain x y where xy: "scale a b e = (x, y)" by fastforce
  have v: "0 < b'" "real_of_int a' / real_of_int b' = real_of_int a / real_of_int b * 2 powi (- k)"
    using scale_div [OF assms(2) s] by simp_all
  have "2 powi (k - 1) \<le> real_of_int a / real_of_int b"
  proof -
    have "2 powi (k - 1) * 2 powi (log2 b + 1) = (2 powi log2 a :: real)"
      by (simp add: k_def power_int_add [symmetric])
    then have "2 powi (k - 1) * real_of_int b \<le> real_of_int a"
      using log2_powi [OF assms(1)] log2_powi [OF assms(2)]
      by (smt (verit) mult_left_mono zero_less_power_int)
    then show ?thesis using assms(2) by (simp add: field_simps)
  qed
  moreover have "2 powi k \<le> real_of_int a / real_of_int b" if "b' \<le> a'"
  proof -
    from that v(1) have "1 \<le> real_of_int a' / real_of_int b'" by simp
    then have "1 * 2 powi k \<le> real_of_int a / real_of_int b * 2 powi (- k) * 2 powi k"
      unfolding v(2) by (intro mult_right_mono) simp_all
    then show ?thesis by (simp add: mult.assoc flip: power_int_add)
  qed
  ultimately have "2 powi (e + 52) \<le> real_of_int a / real_of_int b" by (simp add: e_def)
  moreover have "float64_of a b = (round_div x y, e)"
    by (simp add: float64_of_def Let_def s xy flip: k_def e_def)
  ultimately show thesis using that scale_div [OF assms(2) xy] by blast
qed

lemma float64_error:
  assumes "0 < a" "0 < b"
  shows "\<bar>fval (float64_of a b) - real_of_int a / real_of_int b\<bar> \<le> real_of_int a / real_of_int b * 2 powi (- 53)"
proof -
  obtain x y e where f: "float64_of a b = (round_div x y, e)" "0 < y"
    "real_of_int x / real_of_int y = real_of_int a / real_of_int b * 2 powi (- e)"
    and e: "2 powi (e + 52) \<le> real_of_int a / real_of_int b"
    using float64_of_parts [OF assms] .
  have v: "real_of_int a / real_of_int b = real_of_int x / real_of_int y * 2 powi e"
    unfolding f(3) by (simp add: mult.assoc flip: power_int_add)
  have "\<bar>fval (float64_of a b) - real_of_int a / real_of_int b\<bar> =
      \<bar>real_of_int (round_div x y) - real_of_int x / real_of_int y\<bar> * 2 powi e"
    unfolding v f(1) fval_def fst_conv snd_conv left_diff_distrib [symmetric] abs_mult by simp
  also have "\<dots> \<le> 1 / 2 * 2 powi e"
    by (intro mult_right_mono round_div_error f(2)) simp
  also have "\<dots> = 2 powi (e - 1)" by (simp add: power_int_diff)
  also have "\<dots> = 2 powi (e + 52) * 2 powi (- 53)" by (subst power_int_add [symmetric]) simp_all
  also have "\<dots> \<le> real_of_int a / real_of_int b * 2 powi (- 53)"
    by (intro mult_right_mono e) simp
  finally show ?thesis .
qed

text \<open>A value with at most \<open>s\<close> binary places and not too big is represented exactly.\<close>

lemma float64_exact:
  assumes "0 < a" "0 < b" "real_of_int a / real_of_int b * 2 powi s = real_of_int z"
    and "real_of_int a / real_of_int b < 2 powi (52 - s)"
  shows "fval (float64_of a b) = real_of_int a / real_of_int b"
proof -
  obtain x y e where f: "float64_of a b = (round_div x y, e)" "0 < y"
    "real_of_int x / real_of_int y = real_of_int a / real_of_int b * 2 powi (- e)"
    and e: "2 powi (e + 52) \<le> real_of_int a / real_of_int b"
    using float64_of_parts [OF assms(1,2)] .
  have "2 powi (e + 52) < (2 powi (52 - s) :: real)" using e assms(4) by linarith
  then have es: "e + s < 0"
    using power_int_increasing [of "52 - s" "e + 52" "2 :: real"] by fastforce
  have "real_of_int a / real_of_int b * 2 powi (- e) =
      real_of_int a / real_of_int b * 2 powi s * 2 powi (- e - s)"
    by (simp add: mult.assoc flip: power_int_add)
  also have "\<dots> = real_of_int (z * 2 ^ nat (- e - s))"
    unfolding assms(3) of_int_mult using es by (subst power_nat_powi) simp_all
  finally have i: "real_of_int x / real_of_int y = real_of_int (z * 2 ^ nat (- e - s))" by (simp add: f(3))
  then have "real_of_int x = real_of_int (z * 2 ^ nat (- e - s) * y)"
    using f(2) by (simp add: field_simps)
  then have "x = z * 2 ^ nat (- e - s) * y" unfolding of_int_eq_iff .
  then have "real_of_int (round_div x y) = real_of_int x / real_of_int y"
    using i f(2) by (simp add: round_div_exact)
  then show ?thesis by (simp add: f(1) f(3) fval_def mult.assoc flip: power_int_add)
qed

section \<open>Multiplying and truncating\<close>

lemma float64_mul_parts:
  assumes "0 < fst x" "0 < n"
  obtains a b where "float64_mul x n = float64_of a b" "0 < a" "0 < b"
    "real_of_int a / real_of_int b = fval x * real_of_int n"
proof (cases "0 \<le> snd x")
  case True
  have "float64_mul x n = float64_of (fst x * n * 2 ^ nat (snd x)) 1"
    using True by (simp add: float64_mul_def split_beta)
  moreover have "real_of_int (fst x * n * 2 ^ nat (snd x)) / real_of_int 1 = fval x * real_of_int n"
    using True power_nat_powi [of "snd x"] by (simp add: fval_def)
  ultimately show thesis using that assms by (metis mult_pos_pos zero_less_one zero_less_power zero_less_numeral)
next
  case False
  have "float64_mul x n = float64_of (fst x * n) (2 ^ nat (- snd x))"
    using False by (simp add: float64_mul_def split_beta)
  moreover have "real_of_int (fst x * n) / real_of_int (2 ^ nat (- snd x)) = fval x * real_of_int n"
    using False power_nat_powi [of "- snd x"] by (simp add: fval_def power_int_minus field_simps)
  ultimately show thesis using that assms by (metis mult_pos_pos zero_less_power zero_less_numeral)
qed

lemma float64_trunc_floor: "float64_trunc x = \<lfloor>fval x\<rfloor>"
proof (cases "0 \<le> snd x")
  case True
  then have "fval x = real_of_int (fst x * 2 ^ nat (snd x))"
    using power_nat_powi [of "snd x"] by (simp add: fval_def)
  then have "\<lfloor>fval x\<rfloor> = fst x * 2 ^ nat (snd x)" by (simp only: floor_of_int)
  then show ?thesis using True by (simp add: float64_trunc_def split_beta)
next
  case False
  then have "fval x = real_of_int (fst x) / real_of_int (2 ^ nat (- snd x))"
    using power_nat_powi [of "- snd x"] by (simp add: fval_def power_int_minus field_simps)
  then have "\<lfloor>fval x\<rfloor> = fst x div 2 ^ nat (- snd x)" by (simp only: floor_divide_of_int_eq)
  then show ?thesis using False by (simp add: float64_trunc_def split_beta)
qed

section \<open>The amount charged\<close>

lemma float64_pos:
  assumes "0 < a" "0 < b" shows "0 < fst (float64_of a b)"
proof -
  let ?r = "real_of_int a / real_of_int b"
  have r: "0 < ?r" using assms by simp
  have "?r * 2 powi (- 53) < ?r * 1"
    using r by (intro mult_strict_left_mono) (simp_all add: power_int_minus)
  with float64_error [OF assms] have "0 < fval (float64_of a b)" by linarith
  moreover have "0 < (2 powi snd (float64_of a b) :: real)" by simp
  ultimately show ?thesis by (auto simp: fval_def zero_less_mult_iff)
qed

text \<open>The two roundings together move an amount below a hundred million by less than a cent.\<close>

lemma cents_error:
  assumes "0 < c" "c < 10 ^ 10"
  shows "\<bar>fval (float64_mul (float64_of c 100) 100) - real_of_int c\<bar> < 1"
proof -
  let ?x = "fval (float64_of c 100)" and ?eps = "2 powi (- 53) :: real"
  obtain a b where m: "float64_mul (float64_of c 100) 100 = float64_of a b" "0 < a" "0 < b"
    "real_of_int a / real_of_int b = ?x * 100"
    using float64_mul_parts [OF float64_pos, of c 100 100] assms(1) by auto
  have eps: "0 < ?eps" "?eps \<le> 1 / 9000000000000000" by (simp_all add: power_int_minus)
  have x: "\<bar>?x * 100 - real_of_int c\<bar> \<le> real_of_int c * ?eps"
    using float64_error [of c 100] assms(1) by (simp add: abs_le_iff field_simps)
  have y: "\<bar>fval (float64_of a b) - ?x * 100\<bar> \<le> ?x * 100 * ?eps"
    using float64_error [OF m(2,3)] by (simp add: m(4))
  have c: "real_of_int c \<le> 10000000000" using assms(2) by simp
  have ce: "real_of_int c * ?eps \<le> 10000000000 * (1 / 9000000000000000)"
    using c eps assms(1) by (intro mult_mono) simp_all
  have "?x * 100 \<le> real_of_int c + real_of_int c * ?eps" using x by linarith
  also have "\<dots> \<le> 20000000000" using c ce by linarith
  finally have "?x * 100 \<le> 20000000000" .
  then have "?x * 100 * ?eps \<le> 20000000000 * (1 / 9000000000000000)"
    using eps x ce assms(1) by (intro mult_mono) simp_all
  with x y ce show ?thesis unfolding m(1) by linarith
qed

lemma cents_exact:
  assumes "0 < c" "c < 10 ^ 10" "c mod 25 = 0"
  shows "fval (float64_mul (float64_of c 100) 100) = real_of_int c"
proof -
  have "real_of_int c / real_of_int 100 * 2 powi 2 = real_of_int (c div 25)"
    using real_of_int_div [of 25 c] assms(3) by (auto simp: mod_eq_0_iff_dvd)
  moreover have "real_of_int c / real_of_int 100 < 2 powi (52 - 2)"
    using assms(2) by simp
  ultimately have x: "fval (float64_of c 100) = real_of_int c / 100"
    using float64_exact [of c 100 2] assms(1) by simp
  obtain a b where m: "float64_mul (float64_of c 100) 100 = float64_of a b" "0 < a" "0 < b"
    "real_of_int a / real_of_int b = real_of_int c"
    using float64_mul_parts [OF float64_pos, of c 100 100] assms(1) x by auto
  then show ?thesis using float64_exact [OF m(2,3), of 0 c] assms(2) by simp
qed

lemma amount_in_cents_bounds:
  assumes "0 \<le> c" "c < 10 ^ 10"
  shows "c - 1 \<le> amount_in_cents c \<and> amount_in_cents c \<le> c \<and> (c mod 25 = 0 \<longrightarrow> amount_in_cents c = c)"
proof (cases "c = 0")
  case False
  with assms(1) have c: "0 < c" by simp
  have a: "amount_in_cents c = \<lfloor>fval (float64_mul (float64_of c 100) 100)\<rfloor>"
    using c by (simp add: amount_in_cents_def float64_trunc_floor)
  show ?thesis using cents_error [OF c assms(2)] cents_exact [OF c assms(2)] unfolding a
    by (auto simp: floor_le_iff le_floor_iff)
qed (simp add: amount_in_cents_def)

text \<open>
  C13. What Stripe is asked to charge for a booking (up to the column's hundred million): the
  price in cents or one cent less, never more; and exactly the price when it is a multiple of
  twenty-five cents. The payment service asks for one intent at most.
\<close>

theorem charge_within_a_cent:
  assumes "0 \<le> bTotalAmount b" "bTotalAmount b < 10 ^ 10"
    and "calls = snd (PreparePaymentIntent L S cfg b) \<or> calls = snd (CreatePaymentIntent L S cfg b mail)"
  shows "length calls \<le> 1 \<and> (\<forall>p. PINew p \<in> set calls \<longrightarrow>
    bTotalAmount b - 1 \<le> ppAmount p \<and> ppAmount p \<le> bTotalAmount b \<and>
    (bTotalAmount b mod 25 = 0 \<longrightarrow> ppAmount p = bTotalAmount b))"
proof -
  have "calls = [] \<or> (\<exists>p. calls = [PINew p] \<and> ppAmount p = amount_in_cents (bTotalAmount b))"
    using assms(3)
  proof
    assume "calls = snd (PreparePaymentIntent L S cfg b)"
    then show ?thesis by (simp add: PreparePaymentIntent_def newPaymentIntentParams_def Let_def)
  next
    assume "calls = snd (CreatePaymentIntent L S cfg b mail)"
    then show ?thesis by (simp add: CreatePaymentIntent_def newPaymentIntentParams_def Let_def)
  qed
  then show ?thesis using amount_in_cents_bounds [OF assms(1,2)] by auto
qed

definition demo_stripe :: stripe_api where
  "demo_stripe = \<lparr>pi_New = (\<lambda>p. Inr \<lparr>piID = ''pi_1'', piStatus = ''requires_confirmation'',
       piAmount = ppAmount p, piCurrency = ppCurrency p, piClientSecret = ''secret''\<rparr>),
     pi_Get = (\<lambda>_. Inl (StripeOther '''')), pi_Confirm = (\<lambda>_ _ _. Inl (StripeOther '''')),
     refund_New = (\<lambda>_ _. None)\<rparr>"

definition demo_stripe_cfg :: StripeConfig where
  "demo_stripe_cfg = \<lparr>stSecretKey = ''sk'', stPublishableKey = '''', stWebhookSecret = '''',
     stWebhookURL = '''', stCurrency = ''usd''\<rparr>"

definition demo_amount :: "int \<Rightarrow> Booking" where
  "demo_amount c = \<lparr>bID = 1, bUserID = 1, bEventID = 3, bSeatID = 12, bStatus = BookingStatusReserved,
     bTotalAmount = c, bReservedAt = 0, bPurchasedAt = None, bPaymentIntentID = None, bExpiresAt = 1,
     bCreatedAt = 0, bUpdatedAt = 0\<rparr>"

lemma charge_within_a_cent_witness:
  "\<exists>p. snd (PreparePaymentIntent demo_lib demo_stripe demo_stripe_cfg (demo_amount 1999)) = [PINew p] \<and>
     1998 \<le> ppAmount p \<and> ppAmount p \<le> 1999"
proof -
  let ?calls = "snd (PreparePaymentIntent demo_lib demo_stripe demo_stripe_cfg (demo_amount 1999))"
  obtain p where p: "?calls = [PINew p]"
    by (simp add: PreparePaymentIntent_def demo_stripe_cfg_def IsEnabled_def Let_def)
  have a: "bTotalAmount (demo_amount 1999) = 1999" by (simp add: demo_amount_def)
  have "0 \<le> bTotalAmount (demo_amount 1999)" "bTotalAmount (demo_amount 1999) < 10 ^ 10" by (simp_all add: a)
  from charge_within_a_cent [OF this disjI1 [OF refl [of ?calls]]] show ?thesis by (simp add: p a)
qed

end
