(* ===== verification/Cleanup_Theorems.thy ===== *)
theory Cleanup_Theorems
  imports Worker_Theorems
begin

text \<open>
  What one round of the cleanup job achieves (\<open>CleanupExpiredReservations\<close> of
  internal/services/booking_service.go), with other transactions committing between its
  repository calls: no reservation that had expired when it looked is still held.
\<close>

section \<open>Settled bookings\<close>

text \<open>
  A booking is settled at \<open>T\<close> when it exists and is not a reservation whose deadline is \<open>T\<close>
  or earlier. The life cycle keeps it so: a deadline only moves forward, and nothing becomes
  reserved again.
\<close>

fun settled_view :: "time \<Rightarrow> booking_view \<Rightarrow> bool" where
  "settled_view T Absent \<longleftrightarrow> False"
| "settled_view T (View u ev s a r x st) \<longleftrightarrow> (st = BookingStatusReserved \<longrightarrow> T < x)"

definition settled :: "time \<Rightarrow> db \<Rightarrow> uuid \<Rightarrow> bool" where
  "settled T d bid \<longleftrightarrow> settled_view T (booking_view d bid)"

lemma settled_step: "booking_step v v' \<Longrightarrow> settled_view T v \<Longrightarrow> settled_view T v'"
  by (induction rule: booking_step.induct) auto

lemma settled_steps: "booking_step\<^sup>*\<^sup>* v v' \<Longrightarrow> settled_view T v \<Longrightarrow> settled_view T v'"
  by (induction rule: rtranclp_induct) (auto intro: settled_step)

lemma settled_run: "db_inv d \<Longrightarrow> settled T d bid \<Longrightarrow> settled T (run exec_tx ops d) bid"
  using db_run.run_rel [of d ops] settled_steps unfolding settled_def lifecycle_def by blast

lemma present_step: "booking_step v v' \<Longrightarrow> v' \<noteq> Absent"
  by (induction rule: booking_step.induct) auto

lemma present_run:
  assumes "db_inv d" "booking_view d bid \<noteq> Absent"
  shows "booking_view (run exec_tx ops d) bid \<noteq> Absent"
proof -
  have "booking_step\<^sup>*\<^sup>* (booking_view d bid) (booking_view (run exec_tx ops d) bid)"
    using db_run.run_rel [OF assms(1)] by (simp add: lifecycle_def)
  then show ?thesis using assms(2) by (induction rule: rtranclp_induct) (auto dest: present_step)
qed

section \<open>One release\<close>

lemma ReleaseExpiredBooking_db:
  "wDB (snd (ReleaseExpiredBooking env k b w)) =
     snd (ReleaseExpiredReservation (sTx env k) (run exec_tx (sOthers env k) (wDB w)) (bID b))"
  by (auto simp: ReleaseExpiredBooking_def shandle_def repo_def sret_def split: prod.splits sum.splits)

lemma ReleaseExpiredBooking_keeps:
  assumes "db_inv (wDB w)"
  shows "db_inv (wDB (snd (ReleaseExpiredBooking env k b w)))"
    "settled T (wDB w) bid \<Longrightarrow> settled T (wDB (snd (ReleaseExpiredBooking env k b w))) bid"
    "booking_view (wDB w) bid \<noteq> Absent \<Longrightarrow>
       booking_view (wDB (snd (ReleaseExpiredBooking env k b w))) bid \<noteq> Absent"
proof -
  have "wDB (snd (ReleaseExpiredBooking env k b w)) =
      run exec_tx (sOthers env k @ [TxExpire (sTx env k) (bID b)]) (wDB w)"
    by (simp add: ReleaseExpiredBooking_db run_append)
  then show "db_inv (wDB (snd (ReleaseExpiredBooking env k b w)))"
    "settled T (wDB w) bid \<Longrightarrow> settled T (wDB (snd (ReleaseExpiredBooking env k b w))) bid"
    "booking_view (wDB w) bid \<noteq> Absent \<Longrightarrow>
       booking_view (wDB (snd (ReleaseExpiredBooking env k b w))) bid \<noteq> Absent"
    using assms db_run.run_inv settled_run present_run by simp_all
qed

lemma release_settles:
  assumes inv: "db_inv (wDB w)" and ff: "fault_free (sTx env k)"
    and T: "T \<le> clock (sTx env k) 0" "T \<le> tx_time (sTx env k)"
    and p: "booking_view (wDB w) (bID b) \<noteq> Absent"
  shows "settled T (wDB (snd (ReleaseExpiredBooking env k b w))) (bID b)"
proof -
  let ?d = "run exec_tx (sOthers env k) (wDB w)"
  have inv1: "db_inv ?d" using inv by (rule db_run.run_inv)
  have "booking_view ?d (bID b) \<noteq> Absent" using present_run [OF inv p] .
  then obtain c where c: "find_booking ?d (bID b) = Some c"
    using find_booking_view(1) by blast
  then have m: "c \<in> set (bookings ?d)" "bID c = bID b" by (simp_all add: find_booking_Some)
  have v: "booking_view ?d (bID b) = view_of c" using c by (rule find_booking_view)
  note rel = release_spec [OF inv1 ff, where bid = "bID b" and st = BookingStatusExpired and req = True]
  show ?thesis
    unfolding ReleaseExpiredBooking_db ReleaseExpiredReservation_def rel c settled_def
    using T v by (auto simp: booking_view_touch [OF inv1 m(1)] m(2) row_defs view_of_def)
qed

section \<open>The round\<close>

lemma release_all_settles:
  assumes "\<And>i. fault_free (sTx env i)" "\<And>i. T \<le> clock (sTx env i) 0" "\<And>i. T \<le> tx_time (sTx env i)"
  shows "db_inv (wDB w) \<Longrightarrow> booking_view (wDB w) bid \<noteq> Absent \<Longrightarrow>
    bid \<in> bID ` set bs \<or> settled T (wDB w) bid \<Longrightarrow> settled T (wDB (release_all env k bs w)) bid"
proof (induction bs arbitrary: k w)
  case (Cons b bs)
  let ?w = "snd (ReleaseExpiredBooking env k b w)"
  note keeps = ReleaseExpiredBooking_keeps [OF Cons.prems(1), where env = env and k = k and b = b]
  have "bid \<in> bID ` set bs \<or> settled T (wDB ?w) bid"
  proof (cases "bid = bID b")
    case True
    then show ?thesis using release_settles [OF Cons.prems(1) assms] Cons.prems(2) by blast
  next
    case False
    then show ?thesis using Cons.prems(3) keeps(2) by auto
  qed
  then show ?case using Cons.IH keeps(1) keeps(3) [OF Cons.prems(2)] by simp
qed simp

text \<open>
  C5. A round of the cleanup job whose own database calls do not fail, whatever other
  transactions commit before each of them: every reservation that was past its deadline when
  the round looked is, at its end, no longer reserved, or has been given a later deadline than
  \<open>T\<close>, the earliest time at which one of the round's releases ran.
\<close>

theorem cleanup_round:
  assumes "db_inv (wDB w)" "\<And>i. fault_free (sTx env i)"
    and "\<And>i. T \<le> clock (sTx env i) 0" "\<And>i. T \<le> tx_time (sTx env i)"
    and "CleanupExpiredReservations env w = (r, w')"
    and "booking_view (run exec_tx (sOthers env 0) (wDB w)) bid = View u ev s a t x BookingStatusReserved"
    and "x < tx_time (sTx env 0)"
  shows "r = Inr () \<and> (case booking_view (wDB w') bid of Absent \<Rightarrow> False
    | View u' ev' s' a' t' x' st \<Rightarrow> (u', ev', s', a', t') = (u, ev, s, a, t) \<and>
        (st = BookingStatusReserved \<longrightarrow> T < x'))"
proof -
  let ?d = "run exec_tx (sOthers env 0) (wDB w)"
  have inv: "db_inv ?d" using assms(1) by (rule db_run.run_inv)
  obtain b where b: "b \<in> set (bookings ?d)" "bID b = bid" "view_of b = View u ev s a t x BookingStatusReserved"
    using assms(6) find_booking_view [of ?d bid] by (metis booking_view.distinct(1) find_booking_Some not_Some_eq)
  let ?bs = "map scan_booking (sql_select
       (\<lambda>b. bStatus b = BookingStatusReserved \<and> bExpiresAt b < tx_time (sTx env 0)) (bookings ?d))"
  have f: "FindExpiredReservations (sTx env 0) ?d = Inr ?bs"
    using assms(2) by (simp add: FindExpiredReservations_def fault_free_def)
  have c: "r = Inr () \<and> w' = release_all env 1 ?bs (w\<lparr>wDB := ?d\<rparr>)"
    using assms(5) by (simp add: CleanupExpiredReservations_def sbind_def shandle_def repo_def read_only_def f
        after_def sret_def)
  have "bid \<in> bID ` set ?bs"
    unfolding b(2) [symmetric] using b assms(7) by (auto simp: sql_select_def view_of_def image_image)
  then have "settled T (wDB w') bid"
    using release_all_settles [OF assms(2-4), of "w\<lparr>wDB := ?d\<rparr>" bid ?bs 1] inv assms(6) c by simp
  moreover obtain ops where "wDB w' = run exec_tx ops ?d"
    using c transacted_worlds(1) [of env 1 ?bs "w\<lparr>wDB := ?d\<rparr>"] by auto
  then have "booking_step\<^sup>*\<^sup>* (booking_view ?d bid) (booking_view (wDB w') bid)"
    using db_run.run_rel [OF inv, of ops] by (simp add: lifecycle_def)
  then obtain x' st' where "booking_view (wDB w') bid = View u ev s a t x' st'"
    using view_keeps_user assms(6) by blast
  ultimately show ?thesis using c by (simp add: settled_def)
qed

lemma cleanup_round_witness:
  "booking_view (wDB (snd (CleanupExpiredReservations (quiet_rounds 200 0) due_world))) 21 \<noteq>
     View 1 3 12 2500 20 100 BookingStatusReserved"
proof -
  let ?e = "quiet_rounds 200 0"
  have e: "sOthers ?e 0 = []" "fault_free (sTx ?e i)" "200 \<le> clock (sTx ?e i) 0" "200 \<le> tx_time (sTx ?e i)" for i
    by (simp_all add: quiet_rounds_def quiet_senv_def)
  have inv: "db_inv (wDB due_world)" by (simp add: due_world_def demo_inv)
  have v: "booking_view (run exec_tx (sOthers ?e 0) (wDB due_world)) 21 =
      View 1 3 12 2500 20 100 BookingStatusReserved" "100 < tx_time (sTx ?e 0)"
    using e(4) [of 0] by (simp_all add: e(1) due_world_def demo_views)
  obtain r w' where c: "CleanupExpiredReservations ?e due_world = (r, w')" by fastforce
  show ?thesis using cleanup_round [OF inv e(2-4) c v] c by auto
qed

end
