(* ===== verification/Endpoints.thy ===== *)
theory Endpoints
  imports Api Hub Monitoring Startup
begin

text \<open>
  The endpoints beside the booking API (internal/handlers/websocket_handler.go,
  metrics_handler.go, swagger_handler.go), the engine's routes outside \<open>/api\<close>, and the
  migration program cmd/migrate/main.go.
\<close>

section \<open>Handlers\<close>

text \<open>
  \<open>upgrade\<close> is gorilla's \<open>Upgrade\<close>, given what \<open>CheckOrigin\<close> says: it takes the connection over,
  or refuses it and has in general answered by then (\<open>Some\<close> status and text). What the
  handler writes after an answer is appended to it and does not change its status. A connection
  that is taken over gets no HTTP answer from the handler (\<open>None\<close>).
\<close>

type_synonym upgrade = "bool \<Rightarrow> (int \<times> string list) option + unit"

definition HandleWebSocket ::
  "string list \<Rightarrow> string \<Rightarrow> upgrade \<Rightarrow> hub \<Rightarrow> (int \<times> string list) option \<times> hub" where
  "HandleWebSocket allowed origin upgrade h =
     (case upgrade (checkOrigin allowed origin) of
        Inl None \<Rightarrow> (Some (400, [''failed to upgrade connection'']), h)
      | Inl (Some (status, written)) \<Rightarrow> (Some (status, written @ [''failed to upgrade connection'']), h)
      | Inr _ \<Rightarrow> (None, HandleClient h))"

definition ServePrometheusMetrics :: "telemetry \<Rightarrow> int \<times> string \<times> string" where
  "ServePrometheusMetrics t = (200, ''text/plain; version=0.0.4; charset=utf-8'', RenderPrometheus t)"

text \<open>
  html/template on the page of the source: whether it parses, and what its execution has
  written and whether it failed then. The status of a page that has begun is 200.
\<close>

definition ServeSwaggerUI :: "bool \<Rightarrow> string \<times> bool \<Rightarrow> int \<times> string \<times> string list" where
  "ServeSwaggerUI parses execution =
     (if \<not> parses then (500, ''application/json; charset=utf-8'', [''failed to load swagger ui''])
      else case execution of (page, failed) \<Rightarrow>
        if failed then (if page = '''' then 500 else 200, ''text/html; charset=utf-8'',
          [page, ''failed to render swagger ui''])
        else (200, ''text/html; charset=utf-8'', [page]))"

section \<open>access_log.go\<close>

text \<open>The line that is logged when a request is over; \<open>elapsed\<close> is the time it took.\<close>

definition AccessLog ::
  "string option \<Rightarrow> string \<Rightarrow> string \<Rightarrow> int \<Rightarrow> duration \<Rightarrow> string \<Rightarrow> string" where
  "AccessLog requestID meth path status elapsed ip =
     ''request_id='' @ GetRequestID requestID @ '' method='' @ meth @ '' path='' @ path @
     '' status='' @ Itoa status @ '' latency_ms='' @ Itoa (go_div elapsed 1000000) @ '' ip='' @ ip"

section \<open>All routes\<close>

datatype page = Health | Metrics | SwaggerUI | SwaggerFiles | Endpoint endpoint

definition all_routes :: "(string \<times> string \<times> guard list \<times> page) list" where
  "all_routes =
     [(''GET'', ''/health'', [], Health), (''GET'', ''/metrics'', [], Metrics),
      (''GET'', ''/docs'', [], SwaggerUI), (''GET'', ''/swagger/*any'', [], SwaggerFiles)]
     @ map (\<lambda>(meth, path, gs, e). (meth, path, gs, Endpoint e)) api_routes"

text \<open>What can be called without a token.\<close>

lemma public_routes:
  "map (\<lambda>(meth, path, gs, e). path) (filter (\<lambda>(meth, path, gs, e). UseRequireAuth \<notin> set gs) all_routes) =
     [''/health'', ''/metrics'', ''/docs'', ''/swagger/*any'', ''/api/auth/register'', ''/api/auth/login'',
      ''/api/events'', ''/api/events/:id'', ''/api/events/:id/seats'']"
  by (simp add: all_routes_def api_routes_def route_def Let_def)

text \<open>No two routes have the same method and path.\<close>

lemma routes_distinct: "distinct (map (\<lambda>(meth, path, gs, e). (meth, path)) all_routes)"
  by (simp add: all_routes_def api_routes_def route_def Let_def)

text \<open>
  The origin check comes before the hub sees a connection: a request whose origin is refused
  leaves the hub as it is.
\<close>

lemma refused_origin:
  assumes "\<not> checkOrigin allowed origin" "\<And>u. upgrade False \<noteq> Inr u"
  shows "snd (HandleWebSocket allowed origin upgrade h) = h \<and> fst (HandleWebSocket allowed origin upgrade h) \<noteq> None"
  using assms by (auto simp: HandleWebSocket_def split: sum.splits option.splits)

text \<open>
  The answer to a refused origin is gorilla's 403 with the handler's JSON behind it, not the 400
  the handler means to send.
\<close>

lemma refused_upgrade_is_not_400:
  assumes "\<not> checkOrigin allowed origin" "upgrade False = Inl (Some (403, [''Forbidden'']))"
  shows "fst (HandleWebSocket allowed origin upgrade h) =
    Some (403, [''Forbidden'', ''failed to upgrade connection''])"
  using assms by (simp add: HandleWebSocket_def)

section \<open>cmd/migrate\<close>

text \<open>\<open>migration\<close> is the result of \<open>RunMigrations\<close> on the connection just made.\<close>

definition migrate_main :: "Config res \<Rightarrow> connect_env \<Rightarrow> unit res \<Rightarrow> unit start" where
  "migrate_main config env migration =
     or_fatal ''Failed to load config'' config (\<lambda>cfg.
     or_fatal ''Failed to connect to database''
       (fst (Connect (cDatabase cfg) env \<lparr>dsDB = None, dsReadDB = None\<rparr>)) (\<lambda>_.
     or_fatal ''Migration failed'' migration (\<lambda>_. Inr ())))"

lemma migrate_main_Inr:
  "migrate_main config env migration = Inr () \<longleftrightarrow>
     is_ok config \<and> ceOpen env = None \<and> cePing env = None \<and> migration = Inr ()"
  by (auto simp: migrate_main_def or_fatal_def Connect_def Let_def split: sum.splits option.splits)

end
