(* ===== verification/Delivery.thy ===== *)
theory Delivery
  imports Hub Event_Stream_Theorems
begin

text \<open>
  The event consumer and the hub of one server together: the consumer's seat updates enter the
  hub's queue while the hub, its clients and other producers go on in any order. No client that
  stays connected misses an update of an event it has subscribed to.
\<close>

section \<open>The consumer's effects on the hub\<close>

definition seat_message :: "lib \<Rightarrow> uuid \<Rightarrow> uuid \<Rightarrow> string \<Rightarrow> Message" where
  "seat_message L eventID seatID status = \<lparr>msType = ''seat_update'', msEventID = eventID,
     msSeatID = seatID, msData = [(''seat_id'', uuid_String L seatID), (''status'', status)]\<rparr>"

lemma BroadcastSeatUpdate_eq:
  "BroadcastSeatUpdate L r f i ev seat st h = publishFanout r f i (seat_message L ev seat st)
     (broadcastLocal (seat_message L ev seat st) h)"
  by (simp add: BroadcastSeatUpdate_def seat_message_def Let_def)

fun announce :: "lib \<Rightarrow> bool \<Rightarrow> bool \<Rightarrow> string \<Rightarrow> stream_effect \<Rightarrow> hub \<Rightarrow> hub" where
  "announce L redis fails inst (CacheDropped _) h = h"
| "announce L redis fails inst (SeatUpdate ev seat st) h = BroadcastSeatUpdate L redis fails inst ev seat st h"

text \<open>
  A turn of the consumer's loop on the messages of its partition, with what it announces, or a
  step of the hub.
\<close>

inductive delivery_step :: "lib \<Rightarrow> consumer_env \<Rightarrow> stored list \<Rightarrow> consumer \<times> hub \<Rightarrow> consumer \<times> hub \<Rightarrow> bool"
  for L env msgs where
  consumes: "s' = consumer_turn env msgs t s \<Longrightarrow>
    delivery_step L env msgs (s, h)
      (s', fold (announce L redis fails inst) (drop (length (cuTrace s)) (cuTrace s')) h)"
| hub_moves: "hub_step L h h' \<Longrightarrow> delivery_step L env msgs (s, h) (s, h')"

section \<open>A client and a message\<close>

text \<open>
  What stays true of a client \<open>c\<close> that has been registered: it is not registered again, keeps its
  subscription, and while its \<open>writePump\<close> runs what it got only grows.
\<close>

definition known :: "nat \<Rightarrow> uuid \<Rightarrow> nat \<Rightarrow> nat \<Rightarrow> hub \<Rightarrow> bool" where
  "known c ev nd ng h \<longleftrightarrow> hub_inv h \<and> c < hbNext h \<and> c \<notin> set (hbRegister h) \<and>
     ev \<in> hbEventIDs h c \<and> nd \<le> length (hbDropped h) \<and>
     (c \<in> set (hbWriters h) \<longrightarrow> ng \<le> length (got h c))"

definition due_to :: "nat \<Rightarrow> Message \<Rightarrow> nat \<Rightarrow> nat \<Rightarrow> hub \<Rightarrow> bool" where
  "due_to c m nd ng h \<longleftrightarrow> m \<in> set (drop nd (hbDropped h)) \<or> m \<in> set (hbBroadcast h) \<or>
     (c \<in> set (hbClients h) \<and> c \<in> set (hbWriters h) \<longrightarrow> m \<in> set (drop ng (got h c)))"

lemma removeClient_others [simp]:
  "hbWriters (removeClient c h) = hbWriters h" "hbDropped (removeClient c h) = hbDropped h"
  "hbBroadcast (removeClient c h) = hbBroadcast h" "hbEventIDs (removeClient c h) = hbEventIDs h"
  "hbNext (removeClient c h) = hbNext h" "hbRegister (removeClient c h) = hbRegister h"
  by (simp_all add: removeClient_def close_channel_def)

lemma fold_removeClient_others [simp]:
  "hbWriters (fold removeClient cs h) = hbWriters h" "hbDropped (fold removeClient cs h) = hbDropped h"
  "hbBroadcast (fold removeClient cs h) = hbBroadcast h" "hbEventIDs (fold removeClient cs h) = hbEventIDs h"
  "hbNext (fold removeClient cs h) = hbNext h" "hbRegister (fold removeClient cs h) = hbRegister h"
  by (induction cs arbitrary: h) simp_all

lemma got_removed [simp]: "got (removeClient d h) = got h" "got (fold removeClient cs h) = got h"
  by (simp_all add: got_def fun_eq_iff)

text \<open>The operations that leave clients, channels and subscriptions alone.\<close>

lemma publishFanout_frame [simp]:
  "hbClients (publishFanout r f i m h) = hbClients h" "hbRegister (publishFanout r f i m h) = hbRegister h"
  "hbWriters (publishFanout r f i m h) = hbWriters h" "hbDropped (publishFanout r f i m h) = hbDropped h"
  "hbBroadcast (publishFanout r f i m h) = hbBroadcast h" "hbEventIDs (publishFanout r f i m h) = hbEventIDs h"
  "hbNext (publishFanout r f i m h) = hbNext h" "got (publishFanout r f i m h) = got h"
  by (simp_all add: publishFanout_def got_def fun_eq_iff)

lemma broadcastLocal_frame [simp]:
  "hbClients (broadcastLocal m h) = hbClients h" "hbRegister (broadcastLocal m h) = hbRegister h"
  "hbWriters (broadcastLocal m h) = hbWriters h" "hbEventIDs (broadcastLocal m h) = hbEventIDs h"
  "hbNext (broadcastLocal m h) = hbNext h" "got (broadcastLocal m h) = got h"
  by (simp_all add: broadcastLocal_def got_def fun_eq_iff)

lemma broadcastLocal_queues:
  "\<exists>xs. hbBroadcast (broadcastLocal m h) = hbBroadcast h @ xs"
  "\<exists>xs. hbDropped (broadcastLocal m h) = hbDropped h @ xs"
  "m \<in> set (hbBroadcast (broadcastLocal m h)) \<or> hbDropped (broadcastLocal m h) = hbDropped h @ [m]"
  by (simp_all add: broadcastLocal_def)

lemma broadcastLocal_known: "known c ev nd ng h \<Longrightarrow> known c ev nd ng (broadcastLocal m h)"
  using broadcastLocal_queues(2) [of m h] by (auto simp: known_def broadcastLocal_inv)

lemma broadcastLocal_due: "due_to c m nd ng h \<Longrightarrow> due_to c m nd ng (broadcastLocal x h)"
  using broadcastLocal_queues(1,2) [of x h] by (auto simp: due_to_def)

lemma broadcastLocal_makes_due: "nd \<le> length (hbDropped h) \<Longrightarrow> due_to c m nd ng (broadcastLocal m h)"
  using broadcastLocal_queues(3) [of m h] by (auto simp: due_to_def)

lemma publishFanout_known: "known c ev nd ng h \<Longrightarrow> known c ev nd ng (publishFanout r f i m h)"
  by (simp add: known_def publishFanout_inv)

lemma publishFanout_due: "due_to c m nd ng (publishFanout r f i x h) = due_to c m nd ng h"
  by (simp add: due_to_def)

lemma update_known: "known c ev nd ng h \<Longrightarrow> known c ev nd ng (BroadcastSeatUpdate L r f i e seat st h)"
  unfolding BroadcastSeatUpdate_eq by (intro publishFanout_known broadcastLocal_known)

lemma update_due: "due_to c m nd ng h \<Longrightarrow> due_to c m nd ng (BroadcastSeatUpdate L r f i e seat st h)"
  unfolding BroadcastSeatUpdate_eq publishFanout_due by (rule broadcastLocal_due)

lemma update_makes_due:
  "known c ev nd ng h \<Longrightarrow> due_to c (seat_message L e seat st) nd ng (BroadcastSeatUpdate L r f i e seat st h)"
  unfolding BroadcastSeatUpdate_eq publishFanout_due by (rule broadcastLocal_makes_due) (simp add: known_def)

text \<open>The loop takes a message: who stays connected and is subscribed got it.\<close>

lemma deliver_frame:
  assumes "hub_inv h"
  shows "hbWriters (deliverToClients m h) = hbWriters h" "hbDropped (deliverToClients m h) = hbDropped h"
    "hbBroadcast (deliverToClients m h) = hbBroadcast h" "hbEventIDs (deliverToClients m h) = hbEventIDs h"
    "hbNext (deliverToClients m h) = hbNext h" "hbRegister (deliverToClients m h) = hbRegister h"
  by (simp_all add: deliver_eq [OF assms])

lemma deliver_clients:
  assumes "hub_inv h"
  shows "set (hbClients (deliverToClients m h)) \<subseteq> set (hbClients h)"
  unfolding deliver_eq [OF assms] using fold_removeClient_stays
  by (metis (no_types, lifting) hub.select_convs(1) hub.surjective hub.update_convs(5) subsetI)

lemma deliver_got:
  assumes "hub_inv h"
  shows "\<exists>xs. got (deliverToClients m h) c = got h c @ xs"
    and "c \<in> set (hbClients (deliverToClients m h)) \<Longrightarrow> msEventID m \<in> hbEventIDs h c \<Longrightarrow>
      got (deliverToClients m h) c = got h c @ [m]"
proof -
  let ?h1 = "h\<lparr>hbSend := (\<lambda>c. if c \<in> set (recipients m h) \<and> has_room h c then hbSend h c @ [m] else hbSend h c)\<rparr>"
  have g: "got (deliverToClients m h) c = got h c @ (if c \<in> set (recipients m h) \<and> has_room h c then [m] else [])"
    by (simp add: deliver_eq [OF assms] got_def)
  then show "\<exists>xs. got (deliverToClients m h) c = got h c @ xs" by blast
  assume c: "c \<in> set (hbClients (deliverToClients m h))" and ev: "msEventID m \<in> hbEventIDs h c"
  from c ev deliver_clients [OF assms] have r: "c \<in> set (recipients m h)"
    by (auto simp: recipients_def subscribedTo_def)
  with c have "has_room h c"
    unfolding deliver_eq [OF assms] using fold_removeClient_out [of c "filter (\<lambda>c. \<not> has_room h c) (recipients m h)" ?h1]
    by auto
  with r g show "got (deliverToClients m h) c = got h c @ [m]" by simp
qed

lemma take_message_inv:
  assumes "hub_inv h" "hbBroadcast h = m # ms"
  shows "hub_inv (h\<lparr>hbBroadcast := ms, hbProcessed := hbProcessed h @ [m]\<rparr>)"
  using assms by (auto simp: hub_inv_def got_def for_client_def intro: subseq_snoc)

lemma got_other_fields [simp]:
  "got (hbBroadcast_update f h) = got h" "got (hbProcessed_update g h) = got h"
  "got (hbUnregister_update k h) = got h" "got (hbReaders_update k h) = got h"
  "got (hbRegister_update k h) = got h" "got (hbClients_update k h) = got h"
  by (simp_all add: got_def fun_eq_iff)

lemma writePump_frame [simp]:
  "hbClients (writePump ok c h) = hbClients h" "hbRegister (writePump ok c h) = hbRegister h"
  "hbDropped (writePump ok c h) = hbDropped h" "hbBroadcast (writePump ok c h) = hbBroadcast h"
  "hbEventIDs (writePump ok c h) = hbEventIDs h" "hbNext (writePump ok c h) = hbNext h"
  "set (hbWriters (writePump ok c h)) \<subseteq> set (hbWriters h)"
  by (auto simp: writePump_def Let_def split: list.splits)

lemma writePump_got:
  "d \<in> set (hbWriters (writePump ok c h)) \<Longrightarrow> got (writePump ok c h) d = got h d"
  by (auto simp: writePump_def got_def Let_def split: list.splits if_splits)

lemma readPump_frame [simp]:
  "hbClients (readPump L c x h) = hbClients h" "hbRegister (readPump L c x h) = hbRegister h"
  "hbWriters (readPump L c x h) = hbWriters h" "hbDropped (readPump L c x h) = hbDropped h"
  "hbBroadcast (readPump L c x h) = hbBroadcast h" "hbNext (readPump L c x h) = hbNext h"
  "got (readPump L c x h) = got h" "hbEventIDs h d \<subseteq> hbEventIDs (readPump L c x h) d"
  by (auto simp: readPump_def subscribe_def got_def fun_eq_iff split: option.splits)

lemma HandleClient_frame [simp]:
  "hbClients (HandleClient h) = hbClients h" "hbDropped (HandleClient h) = hbDropped h"
  "hbBroadcast (HandleClient h) = hbBroadcast h" "hbRegister (HandleClient h) = hbRegister h @ [hbNext h]"
  "hbWriters (HandleClient h) = hbNext h # hbWriters h" "hbNext (HandleClient h) = Suc (hbNext h)"
  "c \<noteq> hbNext h \<Longrightarrow> hbEventIDs (HandleClient h) c = hbEventIDs h c"
  "c \<noteq> hbNext h \<Longrightarrow> got (HandleClient h) c = got h c"
  by (simp_all add: HandleClient_def Let_def got_def)

text \<open>Both predicates are kept by every step of the hub.\<close>

lemma step_known: "hub_step L h h' \<Longrightarrow> known c ev nd ng h \<Longrightarrow> known c ev nd ng h'"
proof (induction rule: hub_step.induct)
  case (broadcasts h m ms)
  let ?h = "h\<lparr>hbBroadcast := ms, hbProcessed := hbProcessed h @ [m]\<rparr>"
  have i: "hub_inv ?h" using broadcasts by (intro take_message_inv) (simp_all add: known_def)
  obtain xs where "got (deliverToClients m ?h) c = got h c @ xs" using deliver_got(1) [OF i] by force
  moreover have "hub_inv (deliverToClients m ?h)"
    using broadcasts hub_step_inv hub_step.broadcasts by (fastforce simp: known_def)
  ultimately show ?case using broadcasts by (auto simp: known_def deliver_frame [OF i])
next
  case (writes d h ok)
  with hub_step_inv [OF hub_step.writes [OF writes(1)]] show ?case
    by (auto simp: known_def writePump_got dest: subsetD [OF writePump_frame(7)])
next
  case (reads d h x)
  with hub_step_inv [OF hub_step.reads [OF reads(1)]] show ?case
    using readPump_frame(8) by (fastforce simp: known_def)
next
  case (connects h)
  with hub_step_inv [OF hub_step.connects [OF connects(1)]] show ?case by (auto simp: known_def)
next
  case (registers h d ds)
  with hub_step_inv [OF hub_step.registers [OF registers(1)]] show ?case by (auto simp: known_def)
next
  case (unregisters h d ds)
  with hub_step_inv [OF hub_step.unregisters [OF unregisters(1)]] show ?case by (auto simp: known_def)
next
  case (disconnects d h)
  with hub_step_inv [OF hub_step.disconnects [OF disconnects(1,2)]] show ?case by (auto simp: known_def)
next
  case produces
  then show ?case by (rule update_known)
next
  case (receives inst payload h)
  then show ?case by (auto simp: StartFanout_def intro: broadcastLocal_known split: option.splits)
qed

lemma step_due:
  "hub_step L h h' \<Longrightarrow> known c (msEventID m) nd ng h \<Longrightarrow> due_to c m nd ng h \<Longrightarrow> due_to c m nd ng h'"
proof (induction rule: hub_step.induct)
  case (broadcasts h x ms)
  let ?h = "h\<lparr>hbBroadcast := ms, hbProcessed := hbProcessed h @ [x]\<rparr>"
  have i: "hub_inv ?h" using broadcasts by (intro take_message_inv) (simp_all add: known_def)
  have ng: "c \<in> set (hbWriters h) \<Longrightarrow> ng \<le> length (got h c)" using broadcasts by (simp add: known_def)
  have stay: "c \<in> set (hbClients (deliverToClients x ?h)) \<Longrightarrow> c \<in> set (hbClients h)"
    using deliver_clients [OF i] by fastforce
  obtain xs where g: "got (deliverToClients x ?h) c = got h c @ xs" using deliver_got(1) [OF i] by force
  have taken: "got (deliverToClients m ?h) c = got h c @ [m]"
    if "x = m" "c \<in> set (hbClients (deliverToClients x ?h))"
    using deliver_got(2) [OF i, of c] that broadcasts by (simp add: known_def)
  show ?case
  proof (cases "x = m")
    case True
    with taken ng show ?thesis by (auto simp: due_to_def deliver_frame [OF i [unfolded True]])
  next
    case False
    with broadcasts g stay show ?thesis by (auto simp: due_to_def deliver_frame [OF i])
  qed
next
  case (writes d h ok)
  then show ?case
    by (auto simp: due_to_def writePump_got dest: subsetD [OF writePump_frame(7)])
next
  case (connects h)
  then show ?case by (auto simp: due_to_def known_def)
next
  case (registers h d ds)
  then show ?case by (auto simp: due_to_def known_def)
next
  case (unregisters h d ds)
  moreover have "set (hbClients (removeClient d (h\<lparr>hbUnregister := ds\<rparr>))) \<subseteq> set (hbClients h)"
    by (auto simp: removeClient_def close_channel_def)
  ultimately show ?case by (auto simp: due_to_def)
next
  case produces
  then show ?case by (intro update_due)
next
  case (receives inst payload h)
  then show ?case by (auto simp: StartFanout_def intro: broadcastLocal_due split: option.splits)
qed (auto simp: due_to_def)

text \<open>So they hold after any run of the hub alone.\<close>

interpretation waiting: transition_system "hub_step L"
  "\<lambda>h. known c (msEventID m) nd ng h \<and> due_to c m nd ng h" for L c m nd ng
  by unfold_locales (use step_known step_due in blast)

text \<open>
  An update that is queued for a client that is connected and subscribed is received once the
  hub's queue has been worked off.
\<close>

lemma queued_update_arrives:
  assumes "hub_inv h" "c \<in> set (hbClients h)" "subscribedTo h c (msEventID m)" "m \<in> set (hbBroadcast h)"
    and "(hub_step L)\<^sup>*\<^sup>* h h'" "hbBroadcast h' = []" "hbDropped h' = hbDropped h"
    and "c \<in> set (hbClients h')" "c \<in> set (hbWriters h')"
  shows "m \<in> set (drop (length (got h c)) (got h' c))"
proof -
  have "known c (msEventID m) (length (hbDropped h)) (length (got h c)) h \<and>
      due_to c m (length (hbDropped h)) (length (got h c)) h"
    using assms(1-4) by (auto simp: known_def due_to_def hub_inv_def subscribedTo_def)
  from waiting.steps_inv [OF assms(5) this] assms(6-9) show ?thesis by (simp add: due_to_def)
qed

section \<open>A run of both\<close>

lemma announce_known: "known c ev nd ng h \<Longrightarrow> known c ev nd ng (fold (announce L r f i) es h)"
proof (induction es arbitrary: h)
  case (Cons e es)
  then show ?case by (cases e) (simp_all add: update_known)
qed simp

lemma announce_due: "due_to c m nd ng h \<Longrightarrow> due_to c m nd ng (fold (announce L r f i) es h)"
proof (induction es arbitrary: h)
  case (Cons e es)
  then show ?case by (cases e) (simp_all add: update_due)
qed simp

lemma announced_due:
  assumes "known c ev nd ng h"
  shows "due_to c (seat_message L e seat st) nd ng
    (fold (announce L r f i) [CacheDropped d, SeatUpdate e seat st] h)"
  using update_makes_due [OF assms] by simp

text \<open>A turn of the consumer passes a message only by announcing it.\<close>

lemma turn_announces:
  assumes "lib_ok L" "listening L env" "list_all (\<lambda>p. pbType p \<in> service_types) sent"
  defines "msgs \<equiv> map (message_of L) sent"
  shows "(cuTrace (consumer_turn env msgs t s) = cuTrace s \<and>
      cuCommitted (consumer_turn env msgs t s) = cuCommitted s \<and>
      cuPosition (consumer_turn env msgs t s) \<in> {cuPosition s, cuCommitted s}) \<or>
    (let b = pbBooking (sent ! cuPosition s) in cuPosition s < length sent \<and>
      cuTrace (consumer_turn env msgs t s) = cuTrace s @ [CacheDropped (bEventID b),
        SeatUpdate (bEventID b) (bSeatID b) (seat_status_after (pbType (sent ! cuPosition s)))] \<and>
      cuPosition (consumer_turn env msgs t s) = Suc (cuPosition s) \<and>
      cuCommitted (consumer_turn env msgs t s) \<in> {cuCommitted s, Suc (cuPosition s)})"
proof (cases "tuFetch t = FetchNext \<and> cuPosition s < length sent")
  case True
  let ?p = "sent ! cuPosition s"
  have "?p \<in> set sent" using True by simp
  then have "pbType ?p \<in> service_types" using assms(3) by (simp add: list_all_iff)
  note h = handle_service_event [OF assms(1,2) this]
  show ?thesis using True
    by (auto simp: msgs_def consumer_turn_def Fetch_def Let_def message_of_def h Ack_def redis_call_def
        split: option.splits)
next
  case False
  then show ?thesis
    by (auto simp: msgs_def consumer_turn_def Fetch_def split: fetch.splits)
qed

text \<open>
  The message that publication \<open>p\<close> leads to, and the invariant of a run for it: once the consumer
  has passed it, the client has got it unless it was dropped or still waits.
\<close>

definition update_of :: "lib \<Rightarrow> publication \<Rightarrow> Message" where
  "update_of L p = seat_message L (bEventID (pbBooking p)) (bSeatID (pbBooking p)) (seat_status_after (pbType p))"

definition passed_due :: "lib \<Rightarrow> publication list \<Rightarrow> nat \<Rightarrow> nat \<Rightarrow> nat \<Rightarrow> nat \<Rightarrow> consumer \<times> hub \<Rightarrow> bool" where
  "passed_due L sent i c nd ng = (\<lambda>(s, h). known c (bEventID (pbBooking (sent ! i))) nd ng h \<and>
     (i < cuPosition s \<or> i < cuCommitted s \<longrightarrow> i < length sent \<and> due_to c (update_of L (sent ! i)) nd ng h))"

lemma update_event [simp]: "msEventID (update_of L p) = bEventID (pbBooking p)"
  by (simp add: update_of_def seat_message_def)

lemma passed_due_step:
  assumes "lib_ok L" "listening L env" "list_all (\<lambda>p. pbType p \<in> service_types) sent"
    and "delivery_step L env (map (message_of L) sent) x y" "passed_due L sent i c nd ng x"
  shows "passed_due L sent i c nd ng y"
  using assms(4)
proof cases
  case (hub_moves h h' s)
  with assms(5) show ?thesis
    using step_known [OF hub_moves(3), of c] step_due [OF hub_moves(3), of c "update_of L (sent ! i)"]
    by (simp add: passed_due_def)
next
  case (consumes s' t s h redis fails inst)
  let ?es = "drop (length (cuTrace s)) (cuTrace s')"
  from consumes assms(5) have k: "known c (bEventID (pbBooking (sent ! i))) nd ng h"
    and d: "i < cuPosition s \<or> i < cuCommitted s \<Longrightarrow>
      i < length sent \<and> due_to c (update_of L (sent ! i)) nd ng (fold (announce L redis fails inst) ?es h)"
    by (auto simp: passed_due_def announce_due)
  have new: "i < length sent \<and> due_to c (update_of L (sent ! i)) nd ng (fold (announce L redis fails inst) ?es h)"
    if "i < cuPosition s' \<or> i < cuCommitted s'" "\<not> (i < cuPosition s \<or> i < cuCommitted s)"
  proof -
    from turn_announces [OF assms(1,2,3), of t s] that
    have "i = cuPosition s" "i < length sent" and e: "?es = [CacheDropped (bEventID (pbBooking (sent ! i))),
        SeatUpdate (bEventID (pbBooking (sent ! i))) (bSeatID (pbBooking (sent ! i)))
          (seat_status_after (pbType (sent ! i)))]"
      by (auto simp: consumes Let_def less_Suc_eq)
    then show ?thesis unfolding e update_of_def by (intro conjI announced_due [OF k])
  qed
  from d new announce_known [OF k] show ?thesis
    unfolding consumes(2) passed_due_def by blast
qed

lemma passed_due_run:
  assumes "lib_ok L" "listening L env" "list_all (\<lambda>p. pbType p \<in> service_types) sent"
    and "(delivery_step L env (map (message_of L) sent))\<^sup>*\<^sup>* x y" "passed_due L sent i c nd ng x"
  shows "passed_due L sent i c nd ng y"
  using assms(4,5) by induction (auto intro: passed_due_step [OF assms(1-3)])

text \<open>
  C14. No update is missed. A consumer reads events that any calls of the booking service have
  published, while the hub serves its clients, with fetches, commits and socket writes that
  fail, clients that come and go and updates from elsewhere, in any order. A client that was
  connected and subscribed to the event before the consumer came to a message has, once the
  message is committed, received the seat's new status since then, unless it was disconnected
  or its socket failed, the hub's queue was full when the update came, or the update still
  waits in it.
\<close>

theorem no_update_missed:
  assumes "lib_ok L" "listening L env" and calls: "wTrace w = []" "sent_by sent (run exec_call calls w)"
    and reach: "hub_reachable L h" and c: "c \<in> set (hbClients h)" "subscribedTo h c (bEventID (pbBooking (sent ! i)))"
    and i: "cuPosition s \<le> i" "cuCommitted s \<le> i" "i < cuCommitted s'"
    and run: "(delivery_step L env (map (message_of L) sent))\<^sup>*\<^sup>* (s, h) (s', h')"
  shows "i < length sent \<and>
    (let b = pbBooking (sent ! i); m = seat_message L (bEventID b) (bSeatID b) (seat_status_after (pbType (sent ! i))) in
      m \<in> set (drop (length (got h c)) (got h' c)) \<or> c \<notin> set (hbClients h') \<or> c \<notin> set (hbWriters h') \<or>
      m \<in> set (drop (length (hbDropped h)) (hbDropped h')) \<or> m \<in> set (hbBroadcast h'))"
proof -
  have "hub_inv h" using reach by (rule reachable_inv)
  then have "known c (bEventID (pbBooking (sent ! i))) (length (hbDropped h)) (length (got h c)) h"
    using c by (auto simp: known_def hub_inv_def subscribedTo_def)
  then have "passed_due L sent i c (length (hbDropped h)) (length (got h c)) (s, h)"
    using i by (simp add: passed_due_def)
  from passed_due_run [OF assms(1,2) sent_types [OF calls] run this] i(3) show ?thesis
    by (auto simp: passed_due_def due_to_def update_of_def Let_def)
qed

text \<open>The reservation of the demonstration stream reaches the client of the demonstration hub.\<close>

definition demo_update :: Message where
  "demo_update = seat_message demo_lib 3 11 ''reserved''"

definition demo_hub_after :: hub where
  "demo_hub_after = deliverToClients demo_update (demo_hub\<lparr>hbProcessed := [demo_update]\<rparr>)"

lemma demo_hub_after_fields:
  "hbClients demo_hub_after = [0]" "hbWriters demo_hub_after = [0]" "hbDropped demo_hub_after = []"
  "hbBroadcast demo_hub_after = []" "got demo_hub 0 = []"
  by (simp_all add: demo_hub_after_def deliverToClients_def demo_update_def seat_message_def demo_hub_def
      NewHubWithConfig_def subscribedTo_def hub_sizes got_def)

lemma fresh_consumer_trace: "cuTrace fresh_consumer = []"
  by (simp add: fresh_consumer_def)

lemma demo_turn:
  "\<exists>s. consumer_turn demo_consumer_env (map (message_of demo_lib) demo_sent) good_turn fresh_consumer = s \<and>
     cuTrace s = [CacheDropped 3, SeatUpdate 3 11 ''reserved''] \<and> cuCommitted s = 1"
  by (simp add: consumer_turn_def good_turn_def Fetch_def fresh_consumer_def demo_sent_def message_of_def
      demo_handled Ack_def redis_call_def Let_def)

lemma no_update_missed_witness: "demo_update \<in> set (got demo_hub_after 0)"
proof -
  let ?step = "delivery_step demo_lib demo_consumer_env (map (message_of demo_lib) demo_sent)"
  obtain s where s: "s = consumer_turn demo_consumer_env (map (message_of demo_lib) demo_sent) good_turn fresh_consumer"
    "cuTrace s = [CacheDropped 3, SeatUpdate 3 11 ''reserved'']" "cuCommitted s = 1"
    using demo_turn by auto
  let ?h = "demo_hub\<lparr>hbBroadcast := [demo_update]\<rparr>"
  have "fold (announce demo_lib False False '''') (drop (length (cuTrace fresh_consumer)) (cuTrace s)) demo_hub = ?h"
    by (simp add: s(2) BroadcastSeatUpdate_eq publishFanout_def broadcastLocal_def
        fresh_consumer_trace demo_hub_def NewHubWithConfig_def hub_sizes demo_update_def)
  then have 1: "?step (fresh_consumer, demo_hub) (s, ?h)"
    using delivery_step.consumes [OF s(1), of demo_lib demo_hub False False "''''"] by simp
  have "hub_step demo_lib ?h (deliverToClients demo_update (?h\<lparr>hbBroadcast := [], hbProcessed := hbProcessed ?h @ [demo_update]\<rparr>))"
    by (rule hub_step.broadcasts) simp
  then have "hub_step demo_lib ?h demo_hub_after"
    by (simp add: demo_hub_after_def demo_hub_def NewHubWithConfig_def)
  then have 2: "?step (s, ?h) (s, demo_hub_after)" by (rule delivery_step.hub_moves)
  have run: "?step\<^sup>*\<^sup>* (fresh_consumer, demo_hub) (s, demo_hub_after)"
    using 1 2 by (meson converse_rtranclp_into_rtranclp r_into_rtranclp)
  have b: "bEventID (pbBooking (demo_sent ! 0)) = 3" "bSeatID (pbBooking (demo_sent ! 0)) = 11"
    "pbType (demo_sent ! 0) = ''booking.reserved''"
    by (simp_all add: demo_sent_def demo_reserved_def new_booking_def)
  have "0 \<in> set (hbClients demo_hub)" "subscribedTo demo_hub 0 (bEventID (pbBooking (demo_sent ! 0)))"
    "cuPosition fresh_consumer \<le> 0" "cuCommitted fresh_consumer \<le> 0" "0 < cuCommitted s"
    by (simp_all add: demo_hub_def NewHubWithConfig_def subscribedTo_def b fresh_consumer_def s(3))
  from no_update_missed [OF demo_lib_ok demo_listening demo_sent_by demo_hub_reachable this run]
  show ?thesis by (simp add: b demo_hub_after_fields seat_status_after_def demo_update_def Let_def)
qed

end
