(* ===== verification/Wiring.thy ===== *)
theory Wiring
  imports Startup
begin

text \<open>
  How the parts of the server are wired and taken down: the two booking services of
  cmd/server/main.go and \<open>SetupRoutes\<close> (internal/services/booking_service.go), the Kafka readers
  and writers with their settings (internal/queue/queue.go, internal/kafka), and the end of \<open>main\<close>.
\<close>

section \<open>The booking services\<close>

text \<open>
  The struct's fields are fields of the environment of its calls. The repositories have no
  fields, the payment service is always there, and the expiry queue has the Redis client.
\<close>

definition NewBookingService :: "Config \<Rightarrow> bool \<Rightarrow> senv \<Rightarrow> senv" where
  "NewBookingService cfg redisClient env = env\<lparr>sBooking := cBooking cfg, sStripeConfig := cStripe cfg,
     sPayment := True, sExpiryQueue := True, sRedis := redisClient, sCache := False, sPublisher := False\<rparr>"

definition SetCacheInvalidator :: "senv \<Rightarrow> senv" where
  "SetCacheInvalidator env = env\<lparr>sCache := True\<rparr>"

definition SetEventPublisher :: "senv \<Rightarrow> senv" where
  "SetEventPublisher env = env\<lparr>sPublisher := True\<rparr>"

text \<open>\<open>main\<close> goes on without a publisher when the producer cannot be made; \<open>SetupRoutes\<close> gives up.\<close>

definition main_service :: "Config \<Rightarrow> bool \<Rightarrow> senv \<Rightarrow> senv" where
  "main_service cfg redisClient env =
     (let bookingService = SetCacheInvalidator (NewBookingService cfg redisClient env) in
      case NewProducer (Some (cKafka cfg)) of
        Inl _ \<Rightarrow> bookingService
      | Inr p \<Rightarrow> if pdEnabled p then SetEventPublisher bookingService else bookingService)"

definition routes_service :: "Config \<Rightarrow> bool \<Rightarrow> senv \<Rightarrow> senv res" where
  "routes_service cfg redisClient env =
     (let bookingService = SetCacheInvalidator (NewBookingService cfg redisClient env) in
      ebind (NewProducer (Some (cKafka cfg))) (\<lambda>p.
        Inr (if pdEnabled p then SetEventPublisher bookingService else bookingService)))"

text \<open>
  On a server that comes up the handlers' service and the workers' service do the same, and
  they publish exactly when the server consumes the events.
\<close>

lemma service_wiring:
  assumes "server_main env = Inr p"
  obtains cfg where "Load (seURLHost env) (seEnviron env) = Inr cfg"
    "routes_service cfg r se = Inr (main_service cfg r se)"
    "sCache (main_service cfg r se)"
    "sPublisher (main_service cfg r se) \<longleftrightarrow> EventConsumption \<in> set (prParts p)"
    "sRedis (main_service cfg r se) = r" "sBooking (main_service cfg r se) = cBooking cfg"
proof (rule server_main_Inr [OF assms])
  fix cfg q q'
  assume l: "Load (seURLHost env) (seEnviron env) = Inr cfg"
    and s: "set (prParts p) = {HubRun, HubFanout, Cleanup, HttpServer}
       \<union> (if kBrokers (cKafka cfg) = [] then {}
          else {EventPublisher, EventConsumption, BookingWorker, PurchaseWorker, Monitor})
       \<union> (if is_ok (redis_Connect (seParseURL env) (seRedisPing env) (cRedis cfg)) then {BatchRelease} else {})"
  obtain c where c: "NewClient (cKafka cfg) = Inr c" using Load_NewClient [OF l] by blast
  show thesis
    by (rule that [OF l]) (auto simp: routes_service_def main_service_def NewProducer_def c disabled_producer_def
        SetCacheInvalidator_def SetEventPublisher_def NewBookingService_def Let_def s)
qed

section \<open>Readers and writers\<close>

record Writer =
  wrTopic :: string
  wrAcks :: RequiredAcks
  wrAutoCreate :: bool

text \<open>\<open>kafkago.Hash\<close> as the balancer: messages with one key go to one partition.\<close>

definition newKafkaWriter :: "string \<Rightarrow> Writer" where
  "newKafkaWriter topic = \<lparr>wrTopic = topic, wrAcks = RequireOne, wrAutoCreate = True\<rparr>"

definition queue_writers :: "Queue \<Rightarrow> Writer list" where
  "queue_writers q = (if quKafkaEnabled q
     then map newKafkaWriter [quBookingTopic q, quPurchaseTopic q, quBookingDLQ q, quPurchaseDLQ q] else [])"

definition dlq_writer :: "EventConsumer \<Rightarrow> Writer" where
  "dlq_writer c = \<lparr>wrTopic = ecDLQTopic c, wrAcks = ecDLQAcks c, wrAutoCreate = True\<rparr>"

text \<open>The acknowledgements of the settings are those of the event writers; commands always wait for one.\<close>

lemma acks_of_commands:
  assumes "NewQueue newGroup (Some k) = Inr q" "w \<in> set (queue_writers q)"
  shows "wrAcks w = RequireOne"
  using assms by (auto simp: queue_writers_def newKafkaWriter_def split: if_splits)

lemma acks_of_events:
  assumes "NewProducer (Some k) = Inr p" "NewBookingEventConsumer (Some k) g = Inr c" "kBrokers k \<noteq> []"
  shows "pdAcks p = kafkaRequiredAcks (kRequiredAcks k) \<and> wrAcks (dlq_writer c) = kafkaRequiredAcks (kRequiredAcks k)"
  using assms by (auto simp: NewProducer_def NewBookingEventConsumer_def dlq_writer_def ebind_Inr_iff Let_def)

record ReaderConfig =
  rcGroupID :: string
  rcTopic :: string
  rcMinBytes :: int
  rcMaxBytes :: int
  rcCommitInterval :: duration

definition newReader :: "EventConsumer \<Rightarrow> ReaderConfig" where
  "newReader c = \<lparr>rcGroupID = ecGroupID c, rcTopic = ecTopic c, rcMinBytes = 1, rcMaxBytes = 1000000,
     rcCommitInterval = Second\<rparr>"

section \<open>Closing\<close>

text \<open>\<open>readerErr\<close>, \<open>dlqErr\<close>, \<open>writerErr\<close> say how kafka-go's \<open>Close\<close> fares.\<close>

definition producer_Close :: "Producer option \<Rightarrow> err option \<Rightarrow> err option" where
  "producer_Close p writerErr =
     (case p of None \<Rightarrow> None | Some p \<Rightarrow> if \<not> pdEnabled p then None else writerErr)"

definition consumer_Close :: "EventConsumer option \<Rightarrow> err option \<Rightarrow> err option \<Rightarrow> string option" where
  "consumer_Close c readerErr dlqErr =
     (if \<not> consumer_Enabled c then None
      else let err = map_option err_Error readerErr in
        case dlqErr of None \<Rightarrow> err
        | Some closeErr \<Rightarrow> (case err of None \<Rightarrow> Some (err_Error closeErr)
            | Some e \<Rightarrow> Some (e @ ''; '' @ err_Error closeErr)))"

lemma consumer_Close_joins:
  "consumer_Enabled c \<Longrightarrow> consumer_Close c readerErr dlqErr = close_next dlqErr (close_next readerErr None)"
  by (simp add: consumer_Close_def close_next_def joinCloseErrors_def Let_def split: option.splits)

section \<open>The end of main\<close>

record http_server =
  hsAddr :: string
  hsReadTimeout :: duration
  hsWriteTimeout :: duration
  hsIdleTimeout :: duration

definition httpServer :: "Config \<Rightarrow> http_server" where
  "httpServer cfg = \<lparr>hsAddr = '':'' @ srvPort (cServer cfg),
     hsReadTimeout = srvReadTimeoutSec (cServer cfg) * Second,
     hsWriteTimeout = srvWriteTimeoutSec (cServer cfg) * Second,
     hsIdleTimeout = srvIdleTimeoutSec (cServer cfg) * Second\<rparr>"

datatype closing = CancelContext | ShutdownHttp duration | CloseQueue | CloseConsumer | CloseProducer
  | CloseRedis | CloseDatabase

text \<open>The deferred calls in the order of their \<open>defer\<close> statements; they run from the last to the first.\<close>

definition deferred :: "process \<Rightarrow> closing list" where
  "deferred p = [CloseDatabase] @ (if BatchRelease \<in> set (prParts p) then [CloseRedis] else [])
     @ [CancelContext] @ (if EventPublisher \<in> set (prParts p) then [CloseProducer] else [])
     @ (if EventConsumption \<in> set (prParts p) then [CloseConsumer] else []) @ [CloseQueue]"

text \<open>
  What ends the wait: a signal, or \<open>ListenAndServe\<close> failing first, whose \<open>log.Fatalf\<close> runs no
  deferred call.
\<close>

definition main_end :: "Config \<Rightarrow> process \<Rightarrow> err option \<Rightarrow> closing list start" where
  "main_end cfg p serveErr =
     (case serveErr of Some e \<Rightarrow> Inl (''Server failed to start'', e)
      | None \<Rightarrow> Inr ([CancelContext, ShutdownHttp (srvShutdownTimeoutSec (cServer cfg) * Second), CloseQueue]
          @ rev (deferred p)))"

text \<open>
  Requests are let finish before any connection is closed, the databases are closed last, and
  everything \<open>main\<close> has opened is closed; its queue is closed twice.
\<close>

lemma shutdown_order:
  assumes "main_end cfg p None = Inr cs"
  shows "(\<exists>t rest. cs = CancelContext # ShutdownHttp t # rest @ [CloseDatabase] \<and>
      CloseDatabase \<notin> set rest \<and> count_list cs CloseQueue = 2 \<and>
      (CloseProducer \<in> set rest \<longleftrightarrow> EventPublisher \<in> set (prParts p)) \<and>
      (CloseConsumer \<in> set rest \<longleftrightarrow> EventConsumption \<in> set (prParts p)) \<and>
      (CloseRedis \<in> set rest \<longleftrightarrow> BatchRelease \<in> set (prParts p)))"
  using assms by (auto simp: main_end_def deferred_def)

end
