(* ===== verification/Status_Order.thy ===== *)
theory Status_Order
  imports Booking_Theorems "HOL-Library.Option_ord"
begin

text \<open>
  The statuses of a booking (internal/models/booking.go) in the order of its life: a history
  never takes a booking back to an earlier status.
\<close>

fun rank :: "BookingStatus \<Rightarrow> nat" where
  "rank BookingStatusReserved = 0"
| "rank BookingStatusPurchased = 1"
| "rank BookingStatusCancelled = 2"
| "rank BookingStatusExpired = 3"

lemma rank_inj: "rank s = rank t \<Longrightarrow> s = t"
  by (cases s; cases t) simp_all

instantiation BookingStatus :: linorder
begin

definition less_eq_BookingStatus :: "BookingStatus \<Rightarrow> BookingStatus \<Rightarrow> bool" where
  "s \<le> t \<longleftrightarrow> rank s \<le> rank t"

definition less_BookingStatus :: "BookingStatus \<Rightarrow> BookingStatus \<Rightarrow> bool" where
  "s < t \<longleftrightarrow> rank s < rank t"

instance
  by standard (auto simp: less_eq_BookingStatus_def less_BookingStatus_def intro: rank_inj)

end

lemmas status_order = less_eq_BookingStatus_def less_BookingStatus_def

lemma step_grows: "booking_step v w \<Longrightarrow> view_status v \<le> view_status w"
  by (induction rule: booking_step.induct) (simp_all add: status_order)

lemma steps_grow: "booking_step\<^sup>*\<^sup>* v w \<Longrightarrow> view_status v \<le> view_status w"
  by (induction rule: rtranclp_induct) (auto dest: step_grows)

lemma status_only_grows:
  "view_status (booking_view (run exec_tx ops empty_db) bid) \<le>
   view_status (booking_view (run exec_tx (ops @ later) empty_db) bid)"
  by (rule steps_grow) (use db_run.run_rel [OF run_inv_empty] in \<open>simp add: run_append lifecycle_def\<close>)

text \<open>A status that has been left is not reached again.\<close>

lemma status_not_again:
  assumes "view_status (booking_view (run exec_tx ops empty_db) bid) = Some st"
    and "view_status (booking_view (run exec_tx (ops @ later) empty_db) bid) \<noteq> Some st"
  shows "view_status (booking_view (run exec_tx (ops @ later @ evenlater) empty_db) bid) \<noteq> Some st"
  using assms status_only_grows [of ops bid later] status_only_grows [of "ops @ later" bid evenlater]
  by auto

end
