(* ===== verification/Seed.thy ===== *)
theory Seed
  imports Go_Strings Event_Service
begin

text \<open>
  scripts/seed_data.go: a client of the API that logs in as an administrator and creates
  venues and events. The server is a parameter: a function that maps a request and the
  server's state to an answer (or the error of the transport) and the new state. What the
  clock shows at the start and the numbers \<open>rand.Intn\<close> draws are parameters too.
\<close>

section \<open>The tables\<close>

record seed_venue =
  svName :: string
  svAddress :: string
  svCity :: string
  svCapacity :: int

definition seed_venue :: "string \<Rightarrow> string \<Rightarrow> string \<Rightarrow> int \<Rightarrow> seed_venue" where
  "seed_venue n a c k = \<lparr>svName = n, svAddress = a, svCity = c, svCapacity = k\<rparr>"

definition seed_venues :: "seed_venue list" where
  "seed_venues = [
     seed_venue ''Madison Square Garden'' ''4 Pennsylvania Plaza'' ''New York'' 20000,
     seed_venue ''Staples Center'' ''1111 S Figueroa St'' ''Los Angeles'' 19000,
     seed_venue ''United Center'' ''1901 W Madison St'' ''Chicago'' 23500,
     seed_venue ''TD Garden'' ''100 Legends Way'' ''Boston'' 19580,
     seed_venue ''American Airlines Arena'' ''601 Biscayne Blvd'' ''Miami'' 19600,
     seed_venue ''Chase Center'' ''1 Warriors Way'' ''San Francisco'' 18064,
     seed_venue ''Barclays Center'' ''620 Atlantic Ave'' ''Brooklyn'' 17732,
     seed_venue ''Oracle Arena'' ''7000 Coliseum Way'' ''Oakland'' 19596,
     seed_venue ''Wells Fargo Center'' ''3601 S Broad St'' ''Philadelphia'' 20478,
     seed_venue ''Crypto.com Arena'' ''1111 S Figueroa St'' ''Los Angeles'' 19068,
     seed_venue ''Climate Pledge Arena'' ''334 1st Ave N'' ''Seattle'' 17100,
     seed_venue ''Ball Arena'' ''1000 Chopper Cir'' ''Denver'' 19099,
     seed_venue ''Scotiabank Arena'' ''40 Bay St'' ''Toronto'' 19800,
     seed_venue ''Little Caesars Arena'' ''2645 Woodward Ave'' ''Detroit'' 20000,
     seed_venue ''State Farm Arena'' ''1 State Farm Dr'' ''Atlanta'' 18118]"

definition artists :: "string list" where
  "artists = [
     ''Taylor Swift'', ''Ed Sheeran'', ''Coldplay'', ''The Weeknd'', ''Drake'',
     ''Beyonc'' @ [CHR 0xC3] @ [CHR 0xA9], ''Bruno Mars'', ''Adele'', ''Post Malone'',
     ''Dua Lipa'', ''Bad Bunny'', ''Harry Styles'', ''Billie Eilish'', ''Travis Scott'',
     ''Kendrick Lamar'', ''Ariana Grande'', ''Justin Bieber'', ''Lady Gaga'', ''Rihanna'',
     ''Kanye West'', ''Imagine Dragons'', ''Maroon 5'', ''OneRepublic'', ''Foo Fighters'',
     ''Green Day'', ''Metallica'', ''AC/DC'', ''U2'', ''Guns N' Roses'', ''Bon Jovi'',
     ''Red Hot Chili Peppers'', ''Pearl Jam'', ''Linkin Park'', ''Nirvana Tribute'',
     ''Queen Tribute'', ''BTS'', ''BLACKPINK'', ''Stray Kids'', ''TWICE'', ''NCT 127'',
     ''Morgan Wallen'', ''Luke Combs'', ''Chris Stapleton'', ''Zach Bryan'', ''Tyler Childers'',
     ''Olivia Rodrigo'', ''Doja Cat'', ''SZA'', ''Tyler, The Creator'', ''Frank Ocean'']"

definition tourNames :: "string list" where
  "tourNames = [
     ''World Tour 2026'', ''The Eras Tour'', ''Mathematics Tour'', ''Music of the Spheres'',
     ''After Hours Til Dawn'', ''Renaissance World Tour'', ''24K Magic Tour'', ''30 Tour'',
     ''Runaway Tour'', ''Future Nostalgia Tour'',
     ''El '' @ [CHR 0xC3] @ [CHR 0x9A] @ ''ltimo Tour Del Mundo'', ''Love On Tour'',
     ''Happier Than Ever Tour'', ''Utopia Tour'', ''Big Steppers Tour'', ''Sweetener Tour'',
     ''Justice World Tour'', ''Chromatica Ball'', ''Anti World Tour'', ''Donda Experience'',
     ''Mercury World Tour'', ''Red Pill Blues Tour'', ''Native Tour'', ''Concrete and Gold'',
     ''Revolution Radio Tour'', ''WorldWired Tour'', ''Rock or Bust Tour'', ''Joshua Tree Tour'',
     ''Not in This Lifetime Tour'', ''This House Is Not for Sale Tour'', ''Unlimited Love Tour'',
     ''Gigaton Tour'', ''Hybrid Theory Anniversary'', ''Permission to Dance'', ''Born Pink'',
     ''Maniac Tour'', ''Ready to Be'', ''Neo City'', ''One Night at a Time'', ''World Tour'',
     ''All-American Road Show'', ''Burn Burn Burn'', ''GUTS World Tour'', ''The Scarlet Tour'',
     ''SOS Tour'', ''Call Me If You Get Lost'', ''Blonded Tour'']"

definition eventTypes :: "string list" where
  "eventTypes = [
     ''Concert'', ''Live Performance'', ''Stadium Tour'', ''Arena Show'', ''Festival'',
     ''Acoustic Night'', ''Unplugged Session'', ''Greatest Hits Tour'', ''Farewell Tour'',
     ''Anniversary Tour'', ''Album Release Party'', ''Intimate Show'', ''Mega Concert'']"


section \<open>Requests and answers\<close>

text \<open>
  The values the script marshals. \<open>JTime t\<close> is the RFC 3339 text of the instant \<open>t\<close>, which has
  whole seconds. An answer is its status, its text and the fields of the JSON object in it,
  or the decoder's error.
\<close>

datatype json = JString string | JInt int | JTime time

record http_request =
  hqMethod :: string
  hqURL :: string
  hqHeaders :: "(string \<times> string) list"
  hqPayload :: "(string \<times> json) list"

record http_response =
  hpStatus :: int
  hpText :: string
  hpFields :: "(string \<times> json) list res"

type_synonym 's http = "http_request \<Rightarrow> 's \<Rightarrow> http_response res \<times> 's"

definition baseURL :: string where
  "baseURL = ''http://localhost:8080''"

text \<open>A string field of the decoded answer; one that is missing keeps Go's zero value.\<close>

definition string_field :: "string \<Rightarrow> http_response \<Rightarrow> string res" where
  "string_field k resp = ebind (hpFields resp) (\<lambda>fs.
     case map_of fs k of
       None \<Rightarrow> Inr ''''
     | Some (JString s) \<Rightarrow> Inr s
     | Some _ \<Rightarrow> Inl (Foreign ''json: cannot unmarshal value into Go struct field of type string''))"

text \<open>What the three functions do with the answer: the status they want, and what they read.\<close>

definition expect :: "int \<Rightarrow> string \<Rightarrow> (http_response \<Rightarrow> 'a res) \<Rightarrow> http_response res \<Rightarrow> 'a res" where
  "expect st msg k r = ebind r (\<lambda>resp.
     if hpStatus resp \<noteq> st then Inl (Foreign (msg @ hpText resp)) else k resp)"

definition login_request :: "string \<Rightarrow> string \<Rightarrow> http_request" where
  "login_request email password =
     \<lparr>hqMethod = ''POST'', hqURL = baseURL @ ''/api/auth/login'',
      hqHeaders = [(''Content-Type'', ''application/json'')],
      hqPayload = [(''email'', JString email), (''password'', JString password)]\<rparr>"

definition login :: "'s http \<Rightarrow> string \<Rightarrow> string \<Rightarrow> 's \<Rightarrow> string res \<times> 's" where
  "login http email password s =
     (case http (login_request email password) s of
        (r, s') \<Rightarrow> (expect 200 ''login failed: '' (string_field ''token'') r, s'))"

text \<open>Both authenticated requests carry the token.\<close>

definition authorized :: "string \<Rightarrow> string \<Rightarrow> (string \<times> json) list \<Rightarrow> http_request" where
  "authorized token path payload =
     \<lparr>hqMethod = ''POST'', hqURL = baseURL @ path,
      hqHeaders = [(''Content-Type'', ''application/json''), (''Authorization'', ''Bearer '' @ token)],
      hqPayload = payload\<rparr>"

definition venue_request :: "string \<Rightarrow> seed_venue \<Rightarrow> http_request" where
  "venue_request token v = authorized token ''/api/venues''
     [(''name'', JString (svName v)), (''address'', JString (svAddress v)),
      (''city'', JString (svCity v)), (''capacity'', JInt (svCapacity v))]"

definition createVenue :: "'s http \<Rightarrow> string \<Rightarrow> seed_venue \<Rightarrow> 's \<Rightarrow> string res \<times> 's" where
  "createVenue http token v s =
     (case http (venue_request token v) s of
        (r, s') \<Rightarrow> (expect 201 ''create venue failed: '' (string_field ''id'') r, s'))"

text \<open>The arguments of \<open>createEvent\<close>; the price is a \<open>float64\<close> with a whole number of dollars.\<close>

record seed_event =
  seTitle :: string
  seDescription :: string
  seVenueID :: string
  seEventDate :: time
  sePrice :: int
  seSeats :: int

definition event_request :: "string \<Rightarrow> seed_event \<Rightarrow> http_request" where
  "event_request token e = authorized token ''/api/events''
     [(''title'', JString (seTitle e)), (''description'', JString (seDescription e)),
      (''venue_id'', JString (seVenueID e)), (''event_date'', JTime (seEventDate e)),
      (''ticket_price'', JInt (sePrice e)), (''total_seats'', JInt (seSeats e))]"

definition createEvent :: "'s http \<Rightarrow> string \<Rightarrow> seed_event \<Rightarrow> 's \<Rightarrow> unit res \<times> 's" where
  "createEvent http token e s =
     (case http (event_request token e) s of
        (r, s') \<Rightarrow> (expect 201 ''create event failed: '' (\<lambda>_. Inr ()) r, s'))"

section \<open>Dates\<close>

text \<open>
  The day number (days since 1 January 1970) of a year, month and day as \<open>time.Date\<close> and
  \<open>AddDate\<close> compute it: a month outside 1 to 12 or a day outside its month overflows into the
  next ones. The host's zone is one in which no clock change skips midnight, so that adding
  days to a local time adds them to its date.
\<close>

definition leap_year :: "int \<Rightarrow> bool" where
  "leap_year y \<longleftrightarrow> y mod 4 = 0 \<and> (y mod 100 \<noteq> 0 \<or> y mod 400 = 0)"

definition days_to_year :: "int \<Rightarrow> int" where
  "days_to_year y = 365 * (y - 1970) + (y - 1) div 4 - (y - 1) div 100 + (y - 1) div 400 - 477"

definition month_lengths :: "int \<Rightarrow> int list" where
  "month_lengths y = [31, if leap_year y then 29 else 28, 31, 30, 31, 30, 31, 31, 30, 31, 30, 31]"

definition day_number :: "int \<Rightarrow> int \<Rightarrow> int \<Rightarrow> int" where
  "day_number y m d =
     (let y' = y + (m - 1) div 12; m' = nat ((m - 1) mod 12)
      in days_to_year y' + sum_list (take m' (month_lengths y')) + d - 1)"

text \<open>The date the clock shows in the host's zone.\<close>

record civil =
  cdYear :: int
  cdMonth :: int
  cdDay :: int

text \<open>\<open>time.Now().AddDate(0, 1, 0)\<close>\<close>

definition start_day :: "civil \<Rightarrow> int" where
  "start_day now = day_number (cdYear now) (cdMonth now + 1) (cdDay now)"

text \<open>\<open>time.Date(year, month, day, hour, 0, 0, 0, time.UTC)\<close> of a day number.\<close>

definition at_hour :: "int \<Rightarrow> int \<Rightarrow> time" where
  "at_hour day hour = (24 * day + hour) * Hour"

section \<open>main\<close>

text \<open>\<open>draw i j n\<close> is the \<open>j\<close>-th call of \<open>rand.Intn\<close>, with argument \<open>n\<close>, in round \<open>i\<close> of the loop.\<close>

type_synonym draws = "nat \<Rightarrow> nat \<Rightarrow> int \<Rightarrow> int"

definition pick :: "(int \<Rightarrow> int) \<Rightarrow> 'a list \<Rightarrow> 'a" where
  "pick intn xs = xs ! nat (intn (int (length xs)))"

definition plan_event :: "draws \<Rightarrow> int \<Rightarrow> string list \<Rightarrow> nat \<Rightarrow> seed_event" where
  "plan_event draw startDay venueIDs i =
     (let artist = pick (draw i 0) artists;
          tour = pick (draw i 1) tourNames;
          eventType = pick (draw i 2) eventTypes;
          venueID = pick (draw i 3) venueIDs;
          description = artist @ '' presents '' @ tour @ ''. A spectacular '' @ eventType @
            '' you won't want to miss! '' @
            ''Experience the magic of live music with incredible stage production, '' @
            ''stunning visuals, and unforgettable performances.'';
          eventDay = startDay + draw i 4 365;
          hour = 18 + draw i 5 4
      in \<lparr>seTitle = artist @ '' - '' @ tour, seDescription = description, seVenueID = venueID,
          seEventDate = at_hour eventDay hour, sePrice = 50 + draw i 6 450,
          seSeats = 100 + draw i 7 1900\<rparr>)"

text \<open>The loops return what they collect and what they log.\<close>

fun create_venues ::
  "'s http \<Rightarrow> string \<Rightarrow> seed_venue list \<Rightarrow> 's \<Rightarrow> string list \<times> string list \<times> 's" where
  "create_venues http token [] s = ([], [], s)"
| "create_venues http token (v # vs) s =
     (case createVenue http token v s of
        (Inl err, s1) \<Rightarrow> (case create_venues http token vs s1 of (ids, lines, s2) \<Rightarrow>
          (ids, (''Failed to create venue '' @ svName v @ '': '' @ err_Error err) # lines, s2))
      | (Inr vid, s1) \<Rightarrow> (case create_venues http token vs s1 of (ids, lines, s2) \<Rightarrow>
          (vid # ids, (''Created venue: '' @ svName v) # lines, s2)))"

definition created_line :: "int \<Rightarrow> seed_event \<Rightarrow> string" where
  "created_line eventCount e = ''Created event '' @ Itoa eventCount @ '': '' @ seTitle e @ '' ('' @
     Itoa (seSeats e) @ '' seats, $'' @ Itoa (sePrice e) @ ''.00)''"

fun create_events ::
  "'s http \<Rightarrow> string \<Rightarrow> (nat \<Rightarrow> seed_event) \<Rightarrow> nat \<Rightarrow> nat \<Rightarrow> int \<Rightarrow> 's \<Rightarrow> int \<times> string list \<times> 's" where
  "create_events http token plan i 0 eventCount s = (eventCount, [], s)"
| "create_events http token plan i (Suc n) eventCount s =
     (case createEvent http token (plan i) s of
        (Inl err, s1) \<Rightarrow> (case create_events http token plan (Suc i) n eventCount s1 of (k, lines, s2) \<Rightarrow>
          (k, (''Failed to create event '' @ seTitle (plan i) @ '': '' @ err_Error err) # lines, s2))
      | (Inr _, s1) \<Rightarrow> (case create_events http token plan (Suc i) n (eventCount + 1) s1 of (k, lines, s2) \<Rightarrow>
          (k, created_line (eventCount + 1) (plan i) # lines, s2)))"

text \<open>How \<open>main\<close> ends: \<open>log.Fatal\<close>, or the two counts it reports.\<close>

datatype seed_end = SeedFatal string | SeedComplete int int

definition seed_main :: "'s http \<Rightarrow> civil \<Rightarrow> draws \<Rightarrow> 's \<Rightarrow> seed_end \<times> string list \<times> 's" where
  "seed_main http now draw s =
     (case login http ''admin@ticketmaster.com'' ''Admin@123'' s of
        (Inl err, s1) \<Rightarrow> (SeedFatal (''Failed to login: '' @ err_Error err), [], s1)
      | (Inr token, s1) \<Rightarrow> (case create_venues http token seed_venues s1 of (venueIDs, vlines, s2) \<Rightarrow>
          if venueIDs = [] then (SeedFatal ''No venues created'', ''Logged in as admin'' # vlines, s2)
          else (case create_events http token (plan_event draw (start_day now) venueIDs) 0 100 0 s2 of
            (eventCount, elines, s3) \<Rightarrow>
              (SeedComplete (int (length venueIDs)) eventCount,
               ''Logged in as admin'' # vlines @ elines @
                 [[CHR 0x0A] @ ''=== SEED COMPLETE ==='',
                  ''Created '' @ Itoa (int (length venueIDs)) @ '' venues'',
                  ''Created '' @ Itoa eventCount @ '' events''], s3))))"

section \<open>What the script plans\<close>

definition draws_ok :: "draws \<Rightarrow> bool" where
  "draws_ok draw \<longleftrightarrow> (\<forall>i j n. 0 < n \<longrightarrow> 0 \<le> draw i j n \<and> draw i j n < n)"

definition seedable :: "string list \<Rightarrow> seed_event \<Rightarrow> bool" where
  "seedable venueIDs e \<longleftrightarrow> seTitle e \<noteq> '''' \<and> seVenueID e \<in> set venueIDs \<and>
     seEventDate e mod (24 * Hour) \<in> {18 * Hour..21 * Hour} \<and>
     50 \<le> sePrice e \<and> sePrice e < 500 \<and> 100 \<le> seSeats e \<and> seSeats e < 2000"

lemma draw_range: "draws_ok draw \<Longrightarrow> 0 < n \<Longrightarrow> 0 \<le> draw i j n \<and> draw i j n < n"
  by (simp add: draws_ok_def)

lemma pick_in: "draws_ok draw \<Longrightarrow> xs \<noteq> [] \<Longrightarrow> pick (draw i j) xs \<in> set xs"
  using draw_range [of draw "int (length xs)" i j] by (auto simp: pick_def nat_less_iff)

lemma at_hour_mod: "0 \<le> h \<Longrightarrow> h < 24 \<Longrightarrow> at_hour day h mod (24 * Hour) = h * Hour"
  by (simp add: at_hour_def duration_defs mult.commute distrib_left flip: mult.assoc)

lemma plan_event_seedable:
  assumes "draws_ok draw" "venueIDs \<noteq> []"
  shows "seedable venueIDs (plan_event draw day venueIDs i)"
proof -
  have d: "0 \<le> draw i 5 4 \<and> draw i 5 4 < 4" "0 \<le> draw i 6 450 \<and> draw i 6 450 < 450"
    "0 \<le> draw i 7 1900 \<and> draw i 7 1900 < 1900"
    using assms(1) by (simp_all add: draw_range)
  then have "at_hour (day + draw i 4 365) (18 + draw i 5 4) mod (24 * Hour) = (18 + draw i 5 4) * Hour"
    by (intro at_hour_mod) simp_all
  then show ?thesis
    using d pick_in [OF assms, of i 3] by (simp add: seedable_def plan_event_def Let_def duration_defs)
qed

text \<open>Events lie at least 28 days ahead: the month added to the date has at least 28 days.\<close>

lemma div_pred: "0 < n \<Longrightarrow> y div n = (y - 1) div n + (if y mod n = 0 then 1 else 0)" for y n :: int
proof -
  assume n: "0 < n"
  have e: "y - 1 = n * (y div n) + (y mod n - 1)" "y - 1 = n * (y div n - 1) + (y mod n + n - 1)"
    by (simp_all add: right_diff_distrib)
  show ?thesis
  proof (cases "y mod n = 0")
    case True
    then have "(y - 1) div n = y div n - 1" using n by (intro int_div_pos_eq [OF e(2)]) simp_all
    with True show ?thesis by simp
  next
    case False
    moreover have "0 \<le> y mod n" "y mod n < n" using n by simp_all
    ultimately have "(y - 1) div n = y div n" by (intro int_div_pos_eq [OF e(1)]) linarith+
    with False show ?thesis by simp
  qed
qed

lemma leap_sum:
  fixes p q r :: int
  assumes "p' = p + (if A then 1 else 0)" "q' = q + (if B then 1 else 0)" "r' = r + (if C then 1 else 0)"
    and "B \<Longrightarrow> A" "C \<Longrightarrow> B"
  shows "365 * (y + 1 - 1970) + p' - q' + r' - 477 =
    365 * (y - 1970) + p - q + r - 477 + (if A \<and> (\<not> B \<or> C) then 366 else 365)"
  using assms by auto

lemma days_to_next_year: "days_to_year (y + 1) = days_to_year y + (if leap_year y then 366 else 365)"
proof -
  have "y mod 100 = 0 \<Longrightarrow> y mod 4 = 0" "y mod 400 = 0 \<Longrightarrow> y mod 100 = 0"
    using dvd_trans [of 4 100 y] dvd_trans [of 100 400 y] by (auto simp: dvd_eq_mod_eq_0 [symmetric])
  then show ?thesis
    unfolding days_to_year_def leap_year_def add_diff_cancel_right'
    by (intro leap_sum div_pred) simp_all
qed

lemma start_in_future:
  assumes "1 \<le> cdMonth now" "cdMonth now \<le> 12"
  shows "start_day now - day_number (cdYear now) (cdMonth now) (cdDay now) \<in> {28..31}"
proof -
  have "cdMonth now = 1 \<or> cdMonth now = 2 \<or> cdMonth now = 3 \<or> cdMonth now = 4 \<or> cdMonth now = 5 \<or>
    cdMonth now = 6 \<or> cdMonth now = 7 \<or> cdMonth now = 8 \<or> cdMonth now = 9 \<or> cdMonth now = 10 \<or>
    cdMonth now = 11 \<or> cdMonth now = 12"
    using assms by presburger
  then show ?thesis
    by (elim disjE) (simp_all add: start_day_def day_number_def month_lengths_def days_to_next_year Let_def)
qed

section \<open>A server that takes what the script sends\<close>

text \<open>
  What the script asks of its server: from a fresh state the login hands out a token; with the
  token the next venue of the table is created and its id returned; with all venues created,
  any event as planned is. \<open>holds\<close> says what has been created so far. Then the script runs
  to its end and reports everything as created.
\<close>

locale seed_server =
  fixes http :: "'s http"
    and fresh :: "'s \<Rightarrow> bool"
    and holds :: "string \<Rightarrow> string list \<Rightarrow> seed_event list \<Rightarrow> 's \<Rightarrow> bool"
  assumes login_law: "fresh s \<Longrightarrow> \<exists>resp token s'.
      http (login_request ''admin@ticketmaster.com'' ''Admin@123'') s = (Inr resp, s') \<and>
      hpStatus resp = 200 \<and> string_field ''token'' resp = Inr token \<and> holds token [] [] s'"
    and venue_law: "holds token venueIDs [] s \<Longrightarrow> length venueIDs < length seed_venues \<Longrightarrow>
      \<exists>resp vid s'. http (venue_request token (seed_venues ! length venueIDs)) s = (Inr resp, s') \<and>
      hpStatus resp = 201 \<and> string_field ''id'' resp = Inr vid \<and> holds token (venueIDs @ [vid]) [] s'"
    and event_law: "holds token venueIDs es s \<Longrightarrow> length venueIDs = length seed_venues \<Longrightarrow>
      length es < 100 \<Longrightarrow> seedable venueIDs e \<Longrightarrow>
      \<exists>resp s'. http (event_request token e) s = (Inr resp, s') \<and> hpStatus resp = 201 \<and>
      holds token venueIDs (es @ [e]) s'"
begin

lemma venues_created:
  assumes "holds token venueIDs [] s" "length venueIDs + length vs = length seed_venues"
    and "vs = drop (length venueIDs) seed_venues"
  shows "\<exists>new lines s'. create_venues http token vs s = (new, lines, s') \<and>
    length new = length vs \<and> holds token (venueIDs @ new) [] s'"
  using assms
proof (induction vs arbitrary: venueIDs s)
  case (Cons v vs)
  have "length venueIDs < length seed_venues" using Cons.prems(2) by simp
  from Cons_nth_drop_Suc [OF this] Cons.prems(3)
  have v: "v = seed_venues ! length venueIDs" "vs = drop (Suc (length venueIDs)) seed_venues"
    by (metis list.inject)+
  obtain resp vid s1 where "http (venue_request token v) s = (Inr resp, s1)" "hpStatus resp = 201"
    "string_field ''id'' resp = Inr vid" and h: "holds token (venueIDs @ [vid]) [] s1"
    using venue_law [OF Cons.prems(1)] Cons.prems(2) v(1) by auto
  then have c: "createVenue http token v s = (Inr vid, s1)" by (simp add: createVenue_def expect_def)
  have "length (venueIDs @ [vid]) + length vs = length seed_venues" using Cons.prems(2) by simp
  moreover have "vs = drop (length (venueIDs @ [vid])) seed_venues" using v(2) by simp
  ultimately obtain new lines s2 where "create_venues http token vs s1 = (new, lines, s2)"
    "length new = length vs" "holds token ((venueIDs @ [vid]) @ new) [] s2"
    using Cons.IH [OF h] by blast
  then show ?case using c by simp
qed simp

lemma events_created:
  assumes "holds token venueIDs (map plan [0..<i]) s" "length venueIDs = length seed_venues"
    and "i + n \<le> 100" "\<And>j. seedable venueIDs (plan j)"
  shows "\<exists>lines s'. create_events http token plan i n k s = (k + int n, lines, s') \<and>
    holds token venueIDs (map plan [0..<i + n]) s'"
  using assms
proof (induction n arbitrary: i k s)
  case (Suc n)
  obtain resp s1 where "http (event_request token (plan i)) s = (Inr resp, s1)" "hpStatus resp = 201"
    and h: "holds token venueIDs (map plan [0..<Suc i]) s1"
    using event_law [OF Suc.prems(1,2) _ Suc.prems(4), of i] Suc.prems(3) by auto
  then have c: "createEvent http token (plan i) s = (Inr (), s1)" by (simp add: createEvent_def expect_def)
  obtain lines s2 where "create_events http token plan (Suc i) n (k + 1) s1 = (k + 1 + int n, lines, s2)"
    "holds token venueIDs (map plan [0..<Suc i + n]) s2"
    using Suc.IH [OF h Suc.prems(2) _ Suc.prems(4), of "k + 1"] Suc.prems(3) by (auto simp del: upt_Suc)
  then show ?case using c by (simp del: upt_Suc)
qed simp

lemma seeds:
  assumes "fresh s" "draws_ok draw"
  shows "\<exists>token venueIDs lines s'. seed_main http now draw s =
      (SeedComplete (int (length seed_venues)) 100, lines, s') \<and>
    length venueIDs = length seed_venues \<and>
    holds token venueIDs (map (plan_event draw (start_day now) venueIDs) [0..<100]) s'"
proof -
  obtain token s1 where l: "login http ''admin@ticketmaster.com'' ''Admin@123'' s = (Inr token, s1)"
    and h1: "holds token [] [] s1"
    using login_law [OF assms(1)] by (auto simp: login_def expect_def)
  obtain venueIDs vl s2 where v: "create_venues http token seed_venues s1 = (venueIDs, vl, s2)"
    "length venueIDs = length seed_venues" and h2: "holds token venueIDs [] s2"
    using venues_created [OF h1] by auto
  then have ne: "venueIDs \<noteq> []" by (auto simp: seed_venues_def)
  obtain el s3 where "create_events http token (plan_event draw (start_day now) venueIDs) 0 100 0 s2 =
      (0 + int 100, el, s3)"
    "holds token venueIDs (map (plan_event draw (start_day now) venueIDs) [0..<0 + 100]) s3"
    using events_created [of token venueIDs "plan_event draw (start_day now) venueIDs" 0 s2 100 0]
      h2 v(2) plan_event_seedable [OF assms(2) ne] by auto
  then show ?thesis using l v ne by (auto simp: seed_main_def)
qed

end

end
