(* ===== verification/Seed_Api.thy ===== *)
theory Seed_Api
  imports Seed Api_Theorems Event_Theorems Booking_Theorems
begin

text \<open>
  The seeding script (Seed) against the API (Api): the three routes it uses as an HTTP server,
  from the request on the wire to the database, and the run of the script on it.
\<close>

section \<open>The API as a server\<close>

text \<open>What gin's binding reads of the body: a missing field keeps its zero value.\<close>

definition json_string :: "string \<Rightarrow> (string \<times> json) list \<Rightarrow> string res" where
  "json_string k p = (case map_of p k of
       None \<Rightarrow> Inr '''' | Some (JString s) \<Rightarrow> Inr s | Some _ \<Rightarrow> Inl (Foreign ''json: not a string''))"

definition json_int :: "string \<Rightarrow> (string \<times> json) list \<Rightarrow> int res" where
  "json_int k p = (case map_of p k of
       None \<Rightarrow> Inr 0 | Some (JInt n) \<Rightarrow> Inr n | Some _ \<Rightarrow> Inl (Foreign ''json: not a number''))"

definition json_time :: "string \<Rightarrow> (string \<times> json) list \<Rightarrow> time res" where
  "json_time k p = (case map_of p k of
       None \<Rightarrow> Inr zero_time | Some (JTime t) \<Rightarrow> Inr t | Some _ \<Rightarrow> Inl (Foreign ''json: not a time''))"

definition json_uuid :: "lib \<Rightarrow> string \<Rightarrow> (string \<times> json) list \<Rightarrow> uuid res" where
  "json_uuid L k p = (case map_of p k of
       None \<Rightarrow> Inr uuid_Nil
     | Some (JString s) \<Rightarrow> (case uuid_Parse L s of None \<Rightarrow> Inl (Foreign ''invalid UUID'') | Some u \<Rightarrow> Inr u)
     | Some _ \<Rightarrow> Inl (Foreign ''json: not a UUID''))"

lemmas json_defs = json_string_def json_int_def json_time_def json_uuid_def

definition decode_LoginRequest :: "(string \<times> json) list \<Rightarrow> LoginRequest res" where
  "decode_LoginRequest p =
     ebind (json_string ''email'' p) (\<lambda>email. ebind (json_string ''password'' p) (\<lambda>password.
     Inr \<lparr>lrEmail = email, lrPassword = password\<rparr>))"

definition decode_CreateVenueRequest :: "(string \<times> json) list \<Rightarrow> CreateVenueRequest res" where
  "decode_CreateVenueRequest p =
     ebind (json_string ''name'' p) (\<lambda>name. ebind (json_string ''address'' p) (\<lambda>address.
     ebind (json_int ''capacity'' p) (\<lambda>capacity.
     Inr \<lparr>cvName = name, cvAddress = address, cvCapacity = capacity, cvSeatLayout = ''null''\<rparr>)))"

text \<open>The price arrives in dollars; amounts are cents.\<close>

definition decode_CreateEventRequest :: "lib \<Rightarrow> (string \<times> json) list \<Rightarrow> CreateEventRequest res" where
  "decode_CreateEventRequest L p =
     ebind (json_uuid L ''venue_id'' p) (\<lambda>venueID. ebind (json_string ''title'' p) (\<lambda>title.
     ebind (json_string ''description'' p) (\<lambda>description. ebind (json_time ''event_date'' p) (\<lambda>date.
     ebind (json_int ''ticket_price'' p) (\<lambda>price. ebind (json_int ''total_seats'' p) (\<lambda>total.
     Inr \<lparr>ceVenueID = venueID, ceTitle = title, ceDescription = description, ceEventDate = date,
          ceTicketPrice = 100 * price, ceTotalSeats = total\<rparr>))))))"

text \<open>The city is not a field of the request: the server never sees it.\<close>

lemma city_dropped:
  "decode_CreateVenueRequest (hqPayload (venue_request token v)) =
   decode_CreateVenueRequest (hqPayload (venue_request token (v\<lparr>svCity := c\<rparr>)))"
  by (simp add: decode_CreateVenueRequest_def venue_request_def authorized_def json_defs)

text \<open>Of an answer the script reads the status, the text in case of an error, the token and the id.\<close>

definition json_fields :: "lib \<Rightarrow> body \<Rightarrow> (string \<times> json) list" where
  "json_fields L b = (case b of
       AuthBody r \<Rightarrow> [(''token'', JString (arToken r))]
     | VenueBody v \<Rightarrow> [(''id'', JString (uuid_String L (vID v)))]
     | EventBody e \<Rightarrow> [(''id'', JString (uuid_String L (eID e)))]
     | _ \<Rightarrow> [])"

text \<open>
  The environment of one request: the service calls' and the clock the middleware reads.
  \<open>apText\<close> is the text of a body, \<open>apIsEmail\<close> and \<open>apInvalid\<close> are the validator's, \<open>apLimit\<close> is what the
  limiters answer.
\<close>

record api_env =
  apAuth :: aenv
  apEvents :: eenv
  apNow :: time
  apText :: "body \<Rightarrow> string"
  apIsEmail :: "string \<Rightarrow> bool"
  apInvalid :: err
  apLimit :: "guard \<Rightarrow> reply option"

definition route_of :: "string \<Rightarrow> string \<Rightarrow> (guard list \<times> endpoint) option" where
  "route_of meth url =
     (case find (\<lambda>(m, path, _). m = meth \<and> baseURL @ path = url) api_routes of
        None \<Rightarrow> None | Some (_, _, gs, e) \<Rightarrow> Some (gs, e))"

definition on_accounts :: "db handler \<Rightarrow> estate handler" where
  "on_accounts h c s = (case h c (esDB s) of (r, d) \<Rightarrow> (r, s\<lparr>esDB := d\<rparr>))"

text \<open>The handlers of the script's routes; \<open>rest\<close> stands for all others.\<close>

definition handler_of ::
  "(http_request \<Rightarrow> estate handler) \<Rightarrow> api_env \<Rightarrow> http_request \<Rightarrow> endpoint \<Rightarrow> estate handler" where
  "handler_of rest env req e = (case e of
       EpLogin \<Rightarrow> on_accounts (post_Login (apAuth env)
         (ShouldBindJSON (valid_LoginRequest (apIsEmail env)) (apInvalid env) (decode_LoginRequest (hqPayload req))))
     | EpCreateVenue \<Rightarrow> post_CreateVenue (apEvents env)
         (ShouldBindJSON valid_CreateVenueRequest (apInvalid env) (decode_CreateVenueRequest (hqPayload req)))
     | EpCreateEvent \<Rightarrow> post_CreateEvent (apEvents env)
         (ShouldBindJSON valid_CreateEventRequest (apInvalid env)
           (decode_CreateEventRequest (evLib (apEvents env)) (hqPayload req)))
     | _ \<Rightarrow> rest req)"

text \<open>The server counts its requests: request \<open>k\<close> is handled in environment \<open>E k\<close>.\<close>

definition api_http ::
  "(http_request \<Rightarrow> estate handler) \<Rightarrow> (nat \<Rightarrow> api_env) \<Rightarrow> (nat \<times> estate) http" where
  "api_http rest E req = (\<lambda>(k, s).
     let env = E k;
         header = (case map_of (hqHeaders req) ''Authorization'' of None \<Rightarrow> '''' | Some h \<Rightarrow> h)
     in (case (case route_of (hqMethod req) (hqURL req) of
             None \<Rightarrow> rest req anonymous s
           | Some (gs, e) \<Rightarrow> serve (aCrypto (apAuth env)) (jwtSecret (aJWT (apAuth env))) (apNow env)
               header (apLimit env) gs (handler_of rest env req e) s) of
         ((st, b), s') \<Rightarrow> (Inr \<lparr>hpStatus = st, hpText = apText env b,
           hpFields = Inr (json_fields (evLib (apEvents env)) b)\<rparr>, (Suc k, s'))))"

lemma routes_used:
  "route_of ''POST'' (baseURL @ ''/api/auth/login'') = Some ([], EpLogin)"
  "route_of ''POST'' (baseURL @ ''/api/venues'') =
     Some ([UseRequireAuth, UseSimpleRateLimit, UseRequireAdmin], EpCreateVenue)"
  "route_of ''POST'' (baseURL @ ''/api/events'') =
     Some ([UseRequireAuth, UseSimpleRateLimit, UseRequireAdmin], EpCreateEvent)"
  by code_simp+

section \<open>What the database holds after some of the script's requests\<close>

text \<open>The ids drawn for the venue, the event and the seats of request \<open>k\<close>.\<close>

definition venue_id :: "(nat \<Rightarrow> api_env) \<Rightarrow> nat \<Rightarrow> uuid" where
  "venue_id E k = new_uuid (evTx (apEvents (E k)) 0) 0"

definition event_id :: "(nat \<Rightarrow> api_env) \<Rightarrow> nat \<Rightarrow> uuid" where
  "event_id E k = new_uuid (evTx (apEvents (E k)) 1) 0"

definition seat_id :: "(nat \<Rightarrow> api_env) \<Rightarrow> nat \<Rightarrow> nat \<Rightarrow> uuid" where
  "seat_id E k = new_uuid (evTx (apEvents (E k)) 2)"

definition venue_row :: "(nat \<Rightarrow> api_env) \<Rightarrow> nat \<times> seed_venue \<Rightarrow> Venue" where
  "venue_row E = (\<lambda>(k, v). let t = clock (evTx (apEvents (E k)) 0) 0 in
     \<lparr>vID = venue_id E k, vName = svName v, vAddress = svAddress v, vCapacity = svCapacity v,
      vSeatLayout = ''null'', vCreatedAt = t, vUpdatedAt = t\<rparr>)"

definition event_row :: "(nat \<Rightarrow> api_env) \<Rightarrow> User \<Rightarrow> nat \<times> seed_event \<Rightarrow> Event" where
  "event_row E admin = (\<lambda>(k, e). let t = clock (evTx (apEvents (E k)) 1) 0 in
     \<lparr>eID = event_id E k, eVenueID = the (uuid_Parse (evLib (apEvents (E k))) (seVenueID e)),
      eTitle = seTitle e, eDescription = seDescription e, eEventDate = seEventDate e,
      eTicketPrice = 100 * sePrice e, eTotalSeats = seSeats e, eAvailableSeats = seSeats e,
      eCreatedBy = uID admin, eCreatedAt = t, eUpdatedAt = t\<rparr>)"

definition seat_rows :: "(nat \<Rightarrow> api_env) \<Rightarrow> nat \<times> seed_event \<Rightarrow> Seat list" where
  "seat_rows E = (\<lambda>(k, e). map (bulk_seat (evTx (apEvents (E k)) 2) (event_id E k)) [1..<1 + nat (seSeats e)])"

definition seeded_db :: "(nat \<Rightarrow> api_env) \<Rightarrow> User \<Rightarrow> db \<Rightarrow> nat \<Rightarrow> seed_event list \<Rightarrow> db" where
  "seeded_db E admin d n es = d\<lparr>
     venues := venues d @ map (venue_row E) (enumerate 1 (take n seed_venues)),
     events := events d @ map (event_row E admin) (enumerate 16 es),
     seats := seats d @ concat (map (seat_rows E) (enumerate 16 es))\<rparr>"

section \<open>A server ready for the script\<close>

text \<open>
  The server runs undisturbed for the 116 requests: nobody else changes the database, no
  driver call fails, the token of the login stays in force, and the rate limiter lets the
  requests pass: a run sends 115 past it, and with Redis it admits a thousand a minute from one
  address. Without Redis its local bucket of ten, refilled ten times a second, can refuse some
  of the venues.
\<close>

definition quiet_server :: "(nat \<Rightarrow> api_env) \<Rightarrow> bool" where
  "quiet_server E \<longleftrightarrow> (let a = apAuth (E 0); L = evLib (apEvents (E 0)) in
     crypto_ok (aCrypto a) \<and> lib_ok L \<and> signs a \<and> fault_free (aTx a 0) \<and> aOthers a 0 = [] \<and>
     apIsEmail (E 0) ''admin@ticketmaster.com'' \<and>
     (\<forall>k\<in>{1..115}. aCrypto (apAuth (E k)) = aCrypto a \<and> aJWT (apAuth (E k)) = aJWT a \<and>
        evLib (apEvents (E k)) = L \<and> quiet_calls (apEvents (E k)) \<and> alone (apEvents (E k)) \<and>
        apLimit (E k) UseSimpleRateLimit = None \<and> aNow a 2 \<le> apNow (E k) \<and>
        apNow (E k) < jwt_NumericDate (aCrypto a) (aNow a 0 + ExpiryDuration (aJWT a))))"

text \<open>The account the script logs in with, which the API itself cannot make (\<open>no_first_admin\<close>).\<close>

definition seed_admin :: "(nat \<Rightarrow> api_env) \<Rightarrow> User \<Rightarrow> db \<Rightarrow> bool" where
  "seed_admin E admin d \<longleftrightarrow> accounts_ok d \<and> admin \<in> set (users d) \<and>
     uEmail admin = ''admin@ticketmaster.com'' \<and> uRole admin = RoleAdmin \<and>
     CheckPasswordHash (aCrypto (apAuth (E 0))) ''Admin@123'' (uPasswordHash admin)"

definition fresh_ids :: "(nat \<Rightarrow> api_env) \<Rightarrow> db \<Rightarrow> bool" where
  "fresh_ids E d \<longleftrightarrow>
     inj_on (venue_id E) {1..15} \<and> inj_on (event_id E) {16..115} \<and>
     inj_on (\<lambda>(k, i). seat_id E k i) ({16..115} \<times> {1..1999}) \<and>
     (\<forall>k\<in>{1..15}. venue_id E k \<noteq> uuid_Nil \<and> venue_id E k \<notin> vID ` set (venues d)) \<and>
     (\<forall>k\<in>{16..115}. event_id E k \<notin> eID ` set (events d) \<and>
        (\<forall>i\<in>{1..1999}. seat_id E k i \<notin> sID ` set (seats d))) \<and>
     sEventID ` set (seats d) \<subseteq> eID ` set (events d)"

definition admin_context :: "User \<Rightarrow> gin_context" where
  "admin_context admin = \<lparr>ctxUserID = Some (uID admin), ctxUserEmail = Some (uEmail admin),
     ctxUserRole = Some ''admin''\<rparr>"

text \<open>The token passes the guards of both routes, as the administrator, in every later request.\<close>

definition admin_token :: "(nat \<Rightarrow> api_env) \<Rightarrow> User \<Rightarrow> string \<Rightarrow> bool" where
  "admin_token E admin token \<longleftrightarrow> (\<forall>k\<in>{1..115}.
     authorize (aCrypto (apAuth (E k))) (jwtSecret (aJWT (apAuth (E k)))) (apNow (E k)) (''Bearer '' @ token)
       (apLimit (E k)) [UseRequireAuth, UseSimpleRateLimit, UseRequireAdmin] anonymous = Inr (admin_context admin))"

section \<open>The three requests\<close>

lemma meanwhile_alone: "alone env \<Longrightarrow> meanwhile env k s = s"
  by (simp add: meanwhile_def alone_def)

lemma login_answered:
  assumes "quiet_server E" "seed_admin E admin (esDB s)"
  shows "\<exists>resp token. api_http rest E (login_request ''admin@ticketmaster.com'' ''Admin@123'') (0, s) =
      (Inr resp, (1, s)) \<and> hpStatus resp = 200 \<and> string_field ''token'' resp = Inr token \<and>
    admin_token E admin token"
proof -
  let ?a = "apAuth (E 0)"
  have f: "user_FindByEmail (aTx ?a 0) (esDB s) ''admin@ticketmaster.com'' = Inr admin"
    using FindByEmail_account [of "esDB s" admin "aTx ?a 0"] assms
    by (simp add: seed_admin_def quiet_server_def Let_def)
  obtain token where t: "token_response ?a admin = Inr \<lparr>arUser = admin, arToken = token\<rparr>"
    using token_response_signs assms(1) by (metis quiet_server_def)
  have l: "Login ?a \<lparr>lrEmail = ''admin@ticketmaster.com'', lrPassword = ''Admin@123''\<rparr> (esDB s) =
      (Inr \<lparr>arUser = admin, arToken = token\<rparr>, esDB s)"
    using f t assms by (simp add: Login_def abind_def arepo_def aread_def aret_def seed_admin_def
        quiet_server_def Let_def)
  have "admin_token E admin token"
    unfolding admin_token_def
  proof
    fix k :: nat assume k: "k \<in> {1..115}"
    note a = token_admits [of ?a "\<lparr>arUser = admin, arToken = token\<rparr>" "apNow (E k)"
        "admin_context admin" anonymous]
    show "authorize (aCrypto (apAuth (E k))) (jwtSecret (aJWT (apAuth (E k)))) (apNow (E k)) (''Bearer '' @ token)
       (apLimit (E k)) [UseRequireAuth, UseSimpleRateLimit, UseRequireAdmin] anonymous = Inr (admin_context admin)"
      using a t k assms by (simp add: quiet_server_def seed_admin_def Let_def admin_context_def anonymous_def)
  qed
  then show ?thesis
    using l assms(1) routes_used(1)
    by (simp add: api_http_def login_request_def serve_def handler_of_def on_accounts_def post_Login_def
        with_body_def on_auth_def ShouldBindJSON_def decode_LoginRequest_def json_defs valid_LoginRequest_def
        quiet_server_def Let_def json_fields_def string_field_def)
qed

text \<open>An authenticated request reaches its handler as the administrator.\<close>

lemma authorized_request:
  assumes "admin_token E admin token" "k \<in> {1..115}"
    and "route_of ''POST'' (baseURL @ path) = Some ([UseRequireAuth, UseSimpleRateLimit, UseRequireAdmin], e)"
    and "handler_of rest (E k) (authorized token path payload) e (admin_context admin) s = ((st, b), s')"
  shows "api_http rest E (authorized token path payload) (k, s) =
    (Inr \<lparr>hpStatus = st, hpText = apText (E k) b,
       hpFields = Inr (json_fields (evLib (apEvents (E k))) b)\<rparr>, (Suc k, s'))"
proof -
  have "authorize (aCrypto (apAuth (E k))) (jwtSecret (aJWT (apAuth (E k)))) (apNow (E k)) (''Bearer '' @ token)
       (apLimit (E k)) [UseRequireAuth, UseSimpleRateLimit, UseRequireAdmin] anonymous = Inr (admin_context admin)"
    using assms(1,2) unfolding admin_token_def by blast
  then show ?thesis
    using assms(3,4)
    by (simp add: api_http_def authorized_def serve_def Let_def del: authorize.simps append_Cons append_Nil)
qed

lemma quiet_at: "quiet_server E \<Longrightarrow> k \<in> {1..115} \<Longrightarrow> quiet_calls (apEvents (E k)) \<and> alone (apEvents (E k))"
  by (simp add: quiet_server_def Let_def)

lemma drawn_once:
  fixes f :: "nat \<Rightarrow> 'a"
  assumes "inj_on f {a..b}" "a \<le> k" "k \<le> b" shows "f k \<notin> f ` {a..<k}"
proof
  assume "f k \<in> f ` {a..<k}"
  then obtain j where "a \<le> j" "j < k" "f k = f j" by auto
  with inj_onD [OF assms(1), of k j] assms(2,3) show False by simp
qed

lemma CreateVenue_alone:
  assumes "quiet_calls env" "alone env" "int4 (cvCapacity req)"
    and "new_uuid (evTx env 0) 0 \<notin> vID ` set (venues (esDB s))"
    and "v = \<lparr>vID = new_uuid (evTx env 0) 0, vName = cvName req, vAddress = cvAddress req,
       vCapacity = cvCapacity req, vSeatLayout = cvSeatLayout req,
       vCreatedAt = clock (evTx env 0) 0, vUpdatedAt = clock (evTx env 0) 0\<rparr>"
  shows "CreateVenue env req s = (Inr v, s\<lparr>esDB := venues_update (\<lambda>t. t @ [v]) (esDB s)\<rparr>)"
proof -
  have "insert_venue v (esDB s) = Inr (venues_update (sql_insert v) (esDB s))"
    unfolding insert_Inr_iff using assms(3-5) by simp
  then show ?thesis
    using assms(1,2,5)
    by (simp add: CreateVenue_def erepo_def meanwhile_alone venue_Create_def auto_commit_def commit_def
        quiet_calls_def sql_insert_def [abs_def] Let_def)
qed

lemma int4_table: "v \<in> set seed_venues \<Longrightarrow> int4 (svCapacity v) \<and> 1 \<le> svCapacity v \<and> svName v \<noteq> '''' \<and>
    svAddress v \<noteq> ''''"
  by (auto simp: seed_venues_def seed_venue_def int4_def)

lemma seed_venues_length: "length seed_venues = 15"
  by (simp add: seed_venues_def)

lemma venue_created:
  assumes "quiet_server E" "admin_token E admin token" "fresh_ids E d" "n < 15"
    and "esDB s = seeded_db E admin d n []"
  shows "\<exists>resp s'. api_http rest E (venue_request token (seed_venues ! n)) (Suc n, s) = (Inr resp, (Suc (Suc n), s')) \<and>
    hpStatus resp = 201 \<and>
    string_field ''id'' resp = Inr (uuid_String (evLib (apEvents (E 0))) (venue_id E (Suc n))) \<and>
    esDB s' = seeded_db E admin d (Suc n) []"
proof -
  let ?v = "seed_venues ! n" and ?env = "apEvents (E (Suc n))"
  let ?req = "\<lparr>cvName = svName ?v, cvAddress = svAddress ?v, cvCapacity = svCapacity ?v, cvSeatLayout = ''null''\<rparr>"
  let ?row = "venue_row E (Suc n, ?v)"
  have k: "Suc n \<in> {1..115}" using assms(4) by simp
  have v: "?v \<in> set seed_venues" using assms(4) by (simp add: seed_venues_length)
  have new: "venue_id E (Suc n) \<notin> vID ` set (venues (esDB s))"
  proof -
    have i: "inj_on (venue_id E) {1..15}" "venue_id E (Suc n) \<notin> vID ` set (venues d)"
      using assms(3,4) by (simp_all add: fresh_ids_def)
    have "vID ` set (venues (esDB s)) \<subseteq> vID ` set (venues d) \<union> venue_id E ` {1..<1 + n}"
      using assms(4) by (auto simp: assms(5) seeded_db_def venue_row_def in_set_enumerate_eq seed_venues_length Let_def)
    moreover have "venue_id E (Suc n) \<notin> venue_id E ` {1..<1 + n}"
      using drawn_once [OF i(1), of "Suc n"] assms(4) by simp
    ultimately show ?thesis using i(2) by blast
  qed
  have c: "CreateVenue ?env ?req s = (Inr ?row, s\<lparr>esDB := venues_update (\<lambda>t. t @ [?row]) (esDB s)\<rparr>)"
    using quiet_at [OF assms(1) k] int4_table [OF v] new
    by (intro CreateVenue_alone) (simp_all add: venue_row_def venue_id_def Let_def)
  have h: "handler_of rest (E (Suc n)) (venue_request token ?v) EpCreateVenue (admin_context admin) s =
      ((201, VenueBody ?row), s\<lparr>esDB := venues_update (\<lambda>t. t @ [?row]) (esDB s)\<rparr>)"
    using c int4_table [OF v]
    by (simp add: handler_of_def post_CreateVenue_def with_body_def on_events_def ShouldBindJSON_def
        decode_CreateVenueRequest_def json_defs valid_CreateVenueRequest_def venue_request_def authorized_def)
  have "evLib ?env = evLib (apEvents (E 0))" using assms(1) k by (simp add: quiet_server_def Let_def)
  then show ?thesis
    using authorized_request [OF assms(2) k routes_used(2) h [unfolded venue_request_def]] assms(4)
    by (simp add: venue_request_def json_fields_def string_field_def venue_row_def Let_def assms(5)
        seeded_db_def take_Suc_conv_app_nth seed_venues_length enumerate_append_eq)
qed

lemma CreateEvent_alone:
  assumes "quiet_calls env" "alone env"
    and "ceVenueID req \<in> vID ` set (venues (esDB s))" "createdBy \<in> uID ` set (users (esDB s))"
    and "ceTotalSeats req = int n" "int4 (int n)"
    and "e = \<lparr>eID = new_uuid (evTx env 1) 0, eVenueID = ceVenueID req, eTitle = ceTitle req,
       eDescription = ceDescription req, eEventDate = ceEventDate req, eTicketPrice = ceTicketPrice req,
       eTotalSeats = int n, eAvailableSeats = int n, eCreatedBy = createdBy,
       eCreatedAt = clock (evTx env 1) 0, eUpdatedAt = clock (evTx env 1) 0\<rparr>"
    and "eID e \<notin> eID ` set (events (esDB s))" "\<forall>t\<in>set (seats (esDB s)). sEventID t \<noteq> eID e"
    and "inj_on (new_uuid (evTx env 2)) {1..<1 + n}"
    and "\<forall>k\<in>{1..<1 + n}. new_uuid (evTx env 2) k \<notin> sID ` set (seats (esDB s))"
  shows "\<exists>s'. CreateEvent env req createdBy s = (Inr e, s') \<and>
    esDB s' = seats_update (\<lambda>t. t @ map (bulk_seat (evTx env 2) (eID e)) [1..<1 + n])
      (events_update (\<lambda>t. t @ [e]) (esDB s))"
proof -
  let ?d = "events_update (\<lambda>t. t @ [e]) (esDB s)"
  obtain v where "find (\<lambda>v. vID v = ceVenueID req) (venues (esDB s)) = Some v"
    using assms(3) by (cases "find (\<lambda>v. vID v = ceVenueID req) (venues (esDB s))") (auto simp: find_None_iff)
  then have v: "venue_FindByID (evTx env 0) (evReadDB env) (esDB s) (ceVenueID req) = Inr v"
    using assms(1) by (simp add: venue_FindByID_def no_rows_as_def query_row_find GetReadDB_def quiet_calls_def)
  have "insert_event e (esDB s) = Inr (events_update (sql_insert e) (esDB s))"
    unfolding insert_Inr_iff using assms(3,4,6,8) by (simp add: assms(7))
  then have c: "event_Create (evTx env 1) (esDB s) \<lparr>eID = uuid_Nil, eVenueID = ceVenueID req,
      eTitle = ceTitle req, eDescription = ceDescription req, eEventDate = ceEventDate req,
      eTicketPrice = ceTicketPrice req, eTotalSeats = ceTotalSeats req, eAvailableSeats = 0,
      eCreatedBy = createdBy, eCreatedAt = 0, eUpdatedAt = 0\<rparr> = (Inr e, ?d)"
    using assms(1,5) by (simp add: event_Create_def auto_commit_def commit_def quiet_calls_def
        sql_insert_def [abs_def] Let_def assms(7))
  have "CreateBulkSeats (evTx env 2) ?d (eID e) (int n) =
      (Inr (), seats_update (\<lambda>t. t @ map (bulk_seat (evTx env 2) (eID e)) [1..<1 + n]) ?d)"
    by (rule conjunct1, rule CreateBulkSeats_creates) (use assms(1,9-11) in \<open>simp_all add: quiet_calls_def\<close>)
  with v c show ?thesis
    using assms(2,5)
    by (simp add: CreateEvent_def ehandle_def erepo_def eread_def eret_def meanwhile_alone
        invalidateEventCache_def)
qed

text \<open>The ids in the tables: those of before, and those drawn so far.\<close>

lemma image_enumerate:
  assumes "\<And>p. g (h p) = f (fst p)"
  shows "g ` set (map h (enumerate n xs)) = f ` {n..<n + length xs}"
proof -
  have "g ` set (map h (enumerate n xs)) = f ` fst ` set (enumerate n xs)"
    by (simp add: image_image assms)
  also have "fst ` set (enumerate n xs) = set [n..<n + length xs]"
    by (metis map_fst_enumerate set_map)
  finally show ?thesis by simp
qed

lemma seeded_ids:
  "vID ` set (venues (seeded_db E admin d 15 es)) = vID ` set (venues d) \<union> venue_id E ` {1..<16}"
  "eID ` set (events (seeded_db E admin d n es)) =
     eID ` set (events d) \<union> event_id E ` {16..<16 + length es}"
  "sEventID ` set (seats (seeded_db E admin d n es)) \<subseteq>
     sEventID ` set (seats d) \<union> event_id E ` {16..<16 + length es}"
  "list_all (seedable ids) es \<Longrightarrow> sID ` set (seats (seeded_db E admin d n es)) \<subseteq>
     sID ` set (seats d) \<union> (\<lambda>(k, i). seat_id E k i) ` ({16..<16 + length es} \<times> {1..1999})"
proof -
  have m: "vID ` set (map (venue_row E) (enumerate n vs)) = venue_id E ` {n..<n + length vs}"
    "eID ` set (map (event_row E admin) (enumerate n es)) = event_id E ` {n..<n + length es}" for n vs
    by (rule image_enumerate; simp add: venue_row_def event_row_def Let_def split: prod.splits)+
  show "vID ` set (venues (seeded_db E admin d 15 es)) = vID ` set (venues d) \<union> venue_id E ` {1..<16}"
    "eID ` set (events (seeded_db E admin d n es)) = eID ` set (events d) \<union> event_id E ` {16..<16 + length es}"
    using m(1) [of 1 "take 15 seed_venues"] m(2) [of 16]
    by (simp_all add: seeded_db_def image_Un seed_venues_length)
  show "sEventID ` set (seats (seeded_db E admin d n es)) \<subseteq>
     sEventID ` set (seats d) \<union> event_id E ` {16..<16 + length es}"
    by (auto simp: seeded_db_def seat_rows_def bulk_seat_def in_set_enumerate_eq)
  show "sID ` set (seats (seeded_db E admin d n es)) \<subseteq>
     sID ` set (seats d) \<union> (\<lambda>(k, i). seat_id E k i) ` ({16..<16 + length es} \<times> {1..1999})"
    if ok: "list_all (seedable ids) es"
  proof (rule subsetI, rule UnCI)
    fix x
    assume "x \<in> sID ` set (seats (seeded_db E admin d n es))"
      and "x \<notin> (\<lambda>(k, i). seat_id E k i) ` ({16..<16 + length es} \<times> {1..1999})"
    moreover have "seat_id E k i \<in> (\<lambda>(k, i). seat_id E k i) ` ({16..<16 + length es} \<times> {1..1999})"
      if "(k, e) \<in> set (enumerate 16 es)" "i \<in> {1..<1 + nat (seSeats e)}" for k i e
    proof -
      have "k \<in> {16..<16 + length es}" "e \<in> set es" using that(1) by (auto simp: in_set_enumerate_eq)
      moreover from this ok have "seSeats e < 2000" by (simp add: list_all_iff seedable_def)
      ultimately show ?thesis using that(2) by (intro image_eqI [of _ _ "(k, i)"]) auto
    qed
    ultimately show "x \<in> sID ` set (seats d)"
      by (auto simp: seeded_db_def seat_rows_def bulk_seat_def seat_id_def)
  qed
qed

definition venue_texts :: "(nat \<Rightarrow> api_env) \<Rightarrow> nat \<Rightarrow> string list" where
  "venue_texts E n = map (\<lambda>k. uuid_String (evLib (apEvents (E 0))) (venue_id E k)) [1..<1 + n]"

lemma seedable_valid:
  assumes "quiet_server E" "fresh_ids E d" "k \<in> {1..115}" "seedable (venue_texts E 15) e"
  obtains j where "j \<in> {1..<16}" "uuid_Parse (evLib (apEvents (E k))) (seVenueID e) = Some (venue_id E j)"
    "valid_CreateEventRequest \<lparr>ceVenueID = venue_id E j, ceTitle = seTitle e,
       ceDescription = seDescription e, ceEventDate = seEventDate e, ceTicketPrice = 100 * sePrice e,
       ceTotalSeats = seSeats e\<rparr>"
proof -
  from assms(4) obtain j where j: "j \<in> {1..<16}"
    "seVenueID e = uuid_String (evLib (apEvents (E 0))) (venue_id E j)"
    by (auto simp: seedable_def venue_texts_def)
  have "uuid_Parse (evLib (apEvents (E k))) (seVenueID e) = Some (venue_id E j)"
    using assms(1,3) j(2) by (simp add: quiet_server_def Let_def lib_ok_def)
  moreover have "zero_time mod (24 * Hour) = 0" by (simp add: zero_time_def duration_defs)
  then have "seEventDate e \<noteq> zero_time" using assms(4) by (auto simp: seedable_def duration_defs)
  moreover have "venue_id E j \<noteq> uuid_Nil" using assms(2) j(1) by (simp add: fresh_ids_def)
  ultimately show thesis
    using j(1) assms(4) by (intro that [of j]) (simp_all add: valid_CreateEventRequest_def seedable_def)
qed

text \<open>The ids of the next event and of its seats are new.\<close>

lemma event_ids_fresh:
  fixes admin :: User
  assumes "fresh_ids E d" "length es < 100" "list_all (seedable ids) es"
  defines "k \<equiv> 16 + length es" and "d' \<equiv> seeded_db E admin d 15 es"
  shows "event_id E k \<notin> eID ` set (events d')" "event_id E k \<notin> sEventID ` set (seats d')"
    and "inj_on (seat_id E k) {1..1999}" "i \<in> {1..1999} \<Longrightarrow> seat_id E k i \<notin> sID ` set (seats d')"
proof -
  have k: "k \<in> {16..115}" using assms(2) by (simp add: k_def)
  have f: "inj_on (event_id E) {16..115}" "event_id E k \<notin> eID ` set (events d)"
    "sEventID ` set (seats d) \<subseteq> eID ` set (events d)"
    using assms(1) k by (simp_all add: fresh_ids_def)
  have g: "inj_on (\<lambda>(k, i). seat_id E k i) ({16..115} \<times> {1..1999})"
    "\<And>i. i \<in> {1..1999} \<Longrightarrow> seat_id E k i \<notin> sID ` set (seats d)"
    using assms(1) k by (simp_all add: fresh_ids_def)
  have w: "event_id E k \<notin> event_id E ` {16..<16 + length es}"
    using drawn_once [OF f(1), of k] k by (simp add: k_def)
  show "event_id E k \<notin> eID ` set (events d')" "event_id E k \<notin> sEventID ` set (seats d')"
    unfolding d'_def using seeded_ids(2,3) [of E admin d 15 es] f(2,3) w by blast+
  show "inj_on (seat_id E k) {1..1999}"
  proof (rule inj_onI)
    fix x y assume "x \<in> {1..1999}" "y \<in> {1..1999}" "seat_id E k x = seat_id E k y"
    then show "x = y" using inj_onD [OF g(1), of "(k, x)" "(k, y)"] k by simp
  qed
  assume i: "i \<in> {1..1999}"
  show "seat_id E k i \<notin> sID ` set (seats d')"
  proof
    assume "seat_id E k i \<in> sID ` set (seats d')"
    with seeded_ids(4) [OF assms(3), of E admin d 15] g(2) [OF i]
    obtain k' i' where "k' \<in> {16..<k}" "i' \<in> {1..1999}" "seat_id E k i = seat_id E k' i'"
      by (auto simp: d'_def k_def)
    with inj_onD [OF g(1), of "(k, i)" "(k', i')"] i k show False by auto
  qed
qed

lemma event_created:
  assumes "quiet_server E" "admin_token E admin token" "fresh_ids E d" "admin \<in> set (users d)"
    and "length es < 100" "list_all (seedable (venue_texts E 15)) es" "seedable (venue_texts E 15) e"
    and "esDB s = seeded_db E admin d 15 es"
  shows "\<exists>resp s'. api_http rest E (event_request token e) (16 + length es, s) =
      (Inr resp, (Suc (16 + length es), s')) \<and> hpStatus resp = 201 \<and>
    esDB s' = seeded_db E admin d 15 (es @ [e])"
proof -
  let ?k = "16 + length es"
  let ?env = "apEvents (E ?k)" and ?n = "nat (seSeats e)" and ?row = "event_row E admin (?k, e)"
  have k: "?k \<in> {1..115}" using assms(5) by simp
  obtain j where j: "j \<in> {1..<16}" "uuid_Parse (evLib ?env) (seVenueID e) = Some (venue_id E j)"
    and v: "valid_CreateEventRequest \<lparr>ceVenueID = venue_id E j, ceTitle = seTitle e,
       ceDescription = seDescription e, ceEventDate = seEventDate e, ceTicketPrice = 100 * sePrice e,
       ceTotalSeats = seSeats e\<rparr>" (is "valid_CreateEventRequest ?req")
    using seedable_valid [OF assms(1,3) k assms(7)] .
  note f = event_ids_fresh(1,2,4) [where admin = admin, OF assms(3,5,6), folded assms(8)]
    and g = event_ids_fresh(3) [OF assms(3,5,6)]
  have r: "eID ?row = event_id E ?k" by (simp add: event_row_def Let_def)
  have n: "?n < 2000" "int ?n = seSeats e" using assms(7) unfolding seedable_def by linarith+
  have "\<exists>s'. CreateEvent ?env ?req (uID admin) s = (Inr ?row, s') \<and>
    esDB s' = seats_update (\<lambda>t. t @ map (bulk_seat (evTx ?env 2) (eID ?row)) [1..<1 + ?n])
      (events_update (\<lambda>t. t @ [?row]) (esDB s))"
  proof (rule CreateEvent_alone)
    show "quiet_calls ?env" "alone ?env" using quiet_at [OF assms(1) k] by simp_all
    show "ceVenueID ?req \<in> vID ` set (venues (esDB s))"
      using seeded_ids(1) [of E admin d es] j(1) by (simp add: assms(8))
    show "uID admin \<in> uID ` set (users (esDB s))" using assms(4) by (simp add: assms(8) seeded_db_def)
    show "eID ?row \<notin> eID ` set (events (esDB s))" using f(1) by (simp add: r)
    show "\<forall>t\<in>set (seats (esDB s)). sEventID t \<noteq> eID ?row" using f(2) by (auto simp: r image_iff)
    show "inj_on (new_uuid (evTx ?env 2)) {1..<1 + ?n}"
      unfolding seat_id_def [symmetric] using n(1) by (intro inj_on_subset [OF g]) auto
    show "\<forall>i\<in>{1..<1 + ?n}. new_uuid (evTx ?env 2) i \<notin> sID ` set (seats (esDB s))"
      using f(3) n(1) by (simp add: seat_id_def)
    have "int ?n < 2000" using n(1) by linarith
    then show "int4 (int ?n)" by (simp add: int4_def del: int_nat_eq)
    show "?row = \<lparr>eID = new_uuid (evTx ?env 1) 0, eVenueID = ceVenueID ?req, eTitle = ceTitle ?req,
       eDescription = ceDescription ?req, eEventDate = ceEventDate ?req, eTicketPrice = ceTicketPrice ?req,
       eTotalSeats = int ?n, eAvailableSeats = int ?n, eCreatedBy = uID admin,
       eCreatedAt = clock (evTx ?env 1) 0, eUpdatedAt = clock (evTx ?env 1) 0\<rparr>"
      using j(2) n(2) by (simp add: event_row_def event_id_def Let_def)
  qed (use n(2) in simp_all)
  then obtain s' where c: "CreateEvent ?env ?req (uID admin) s = (Inr ?row, s')"
    and d: "esDB s' = seats_update (\<lambda>t. t @ map (bulk_seat (evTx ?env 2) (eID ?row)) [1..<1 + ?n])
      (events_update (\<lambda>t. t @ [?row]) (esDB s))" by blast
  have h: "handler_of rest (E ?k) (event_request token e) EpCreateEvent (admin_context admin) s =
      ((201, EventBody ?row), s')"
    using c v j(2)
    by (simp add: handler_of_def post_CreateEvent_def with_body_def with_user_def GetUserID_def
        admin_context_def on_events_def ShouldBindJSON_def decode_CreateEventRequest_def json_defs
        event_request_def authorized_def)
  have "esDB s' = seeded_db E admin d 15 (es @ [e])"
    unfolding d by (simp add: assms(8) seeded_db_def enumerate_append_eq seat_rows_def r)
  then show ?thesis
    using authorized_request [OF assms(2) k routes_used(3) h [unfolded event_request_def]]
    by (simp add: event_request_def)
qed

section \<open>The run\<close>

text \<open>
  The API, from a state with the administrator's account and on fresh ids, is a server as the
  script wants it.
\<close>

definition api_fresh :: "(nat \<Rightarrow> api_env) \<Rightarrow> User \<Rightarrow> db \<Rightarrow> nat \<times> estate \<Rightarrow> bool" where
  "api_fresh E admin d = (\<lambda>(k, s). k = 0 \<and> esDB s = d \<and> quiet_server E \<and> seed_admin E admin d \<and> fresh_ids E d)"

definition api_holds ::
  "(nat \<Rightarrow> api_env) \<Rightarrow> User \<Rightarrow> db \<Rightarrow> string \<Rightarrow> string list \<Rightarrow> seed_event list \<Rightarrow> nat \<times> estate \<Rightarrow> bool" where
  "api_holds E admin d token venueIDs es = (\<lambda>(k, s).
     k = Suc (length venueIDs + length es) \<and> quiet_server E \<and> fresh_ids E d \<and> admin \<in> set (users d) \<and>
     admin_token E admin token \<and> length venueIDs \<le> 15 \<and> venueIDs = venue_texts E (length venueIDs) \<and>
     (es = [] \<or> length venueIDs = 15) \<and> list_all (seedable (venue_texts E 15)) es \<and>
     esDB s = seeded_db E admin d (length venueIDs) es)"

lemma venue_texts_Suc:
  "venue_texts E (Suc n) = venue_texts E n @ [uuid_String (evLib (apEvents (E 0))) (venue_id E (Suc n))]"
  by (simp add: venue_texts_def)

lemma seeded_start: "seeded_db E admin d 0 [] = d"
  by (simp add: seeded_db_def)

interpretation seeding: seed_server "api_http rest E" "api_fresh E admin d" "api_holds E admin d"
  for rest E admin d
proof (unfold_locales, goal_cases)
  case (1 s)
  then have s: "s = (0, snd s)" "esDB (snd s) = d" "quiet_server E" "seed_admin E admin d" "fresh_ids E d"
    by (auto simp: api_fresh_def)
  from login_answered [of E admin "snd s" rest] s show ?case
    by (fastforce simp: api_holds_def seeded_start venue_texts_def seed_admin_def)
next
  case (2 token venueIDs s)
  let ?n = "length venueIDs"
  from 2 have n: "?n < 15" and s: "s = (Suc ?n, snd s)" "esDB (snd s) = seeded_db E admin d ?n []"
    and h: "quiet_server E" "admin_token E admin token" "fresh_ids E d" "admin \<in> set (users d)"
      "venueIDs = venue_texts E ?n"
    by (auto simp: api_holds_def seed_venues_length)
  obtain resp s' where r: "api_http rest E (venue_request token (seed_venues ! ?n)) s = (Inr resp, (Suc (Suc ?n), s'))"
    "hpStatus resp = 201"
    "string_field ''id'' resp = Inr (uuid_String (evLib (apEvents (E 0))) (venue_id E (Suc ?n)))"
    "esDB s' = seeded_db E admin d (Suc ?n) []"
    using venue_created [OF h(1-3) n s(2), of rest] s(1) by metis
  moreover have "api_holds E admin d token
      (venueIDs @ [uuid_String (evLib (apEvents (E 0))) (venue_id E (Suc ?n))]) [] (Suc (Suc ?n), s')"
    using h n r(4) by (simp add: api_holds_def venue_texts_Suc)
  ultimately show ?case by blast
next
  case (3 token venueIDs es s e)
  then have n: "length venueIDs = 15" "length es < 100"
    and s: "s = (16 + length es, snd s)" "esDB (snd s) = seeded_db E admin d 15 es"
    and h: "quiet_server E" "admin_token E admin token" "fresh_ids E d" "admin \<in> set (users d)"
      "list_all (seedable (venue_texts E 15)) es" "venueIDs = venue_texts E 15"
    by (auto simp: api_holds_def seed_venues_length)
  then obtain resp s' where r: "api_http rest E (event_request token e) s = (Inr resp, (Suc (16 + length es), s'))"
    "hpStatus resp = 201" "esDB s' = seeded_db E admin d 15 (es @ [e])"
    using event_created [OF h(1-4) n(2) h(5) _ s(2), of e rest] 3(4) by metis
  moreover have "api_holds E admin d token venueIDs (es @ [e]) (Suc (16 + length es), s')"
    using h n r(3) 3(4) by (simp add: api_holds_def)
  ultimately show ?case by blast
qed

text \<open>
  C15. Seeding a catalogue through the API works from the request to the rows: on an
  undisturbed server with the script's administrator account, the script logs in, passes
  authentication and the binding rules with each of its 115 further requests, whatever numbers
  it draws, and reports 15 venues and 100 events. The database then holds exactly what it held
  before, the venues of the table, the planned events, created by the administrator with all
  seats available, and for each event its numbered seats.
\<close>

theorem seeding_completes:
  assumes "quiet_server E" "seed_admin E admin (esDB s)" "fresh_ids E (esDB s)" "draws_ok draw"
  shows "\<exists>lines s'. seed_main (api_http rest E) now draw (0, s) = (SeedComplete 15 100, lines, (116, s')) \<and>
    esDB s' = seeded_db E admin (esDB s) 15
      (map (plan_event draw (start_day now) (venue_texts E 15)) [0..<100])"
proof -
  have "api_fresh E admin (esDB s) (0, s)" using assms(1-3) by (simp add: api_fresh_def)
  from seeding.seeds [OF this assms(4), of rest now] show ?thesis
    by (fastforce simp: api_holds_def seed_venues_length)
qed

definition demo_admin :: User where
  "demo_admin = \<lparr>uID = 1, uEmail = ''admin@ticketmaster.com'', uPasswordHash = ''$Admin@123'',
     uFullName = ''A B'', uRole = RoleAdmin, uCreatedAt = 0, uUpdatedAt = 0\<rparr>"

definition demo_api :: "nat \<Rightarrow> api_env" where
  "demo_api k = \<lparr>apAuth = demo_aenv 5,
     apEvents = (quiet_eenv 5)\<lparr>evTx := (\<lambda>_. quiet_env 5 (of_nat (10000 * k)))\<rparr>,
     apNow = Hour, apText = (\<lambda>_. ''''), apIsEmail = (\<lambda>_. True), apInvalid = Foreign ''invalid'', apLimit = (\<lambda>_. None)\<rparr>"

definition demo_catalog :: estate where
  "demo_catalog = \<lparr>esDB = empty_db\<lparr>users := [demo_admin]\<rparr>, esCache = (\<lambda>_. None)\<rparr>"

lemma inj_of_nat_uuid: "inj_on (of_nat :: nat \<Rightarrow> uuid) {..<2 ^ 128}"
  by (rule inj_on_inverseI [of _ unat]) (simp add: unat_of_nat take_bit_nat_eq_self)

lemma demo_ids:
  "venue_id demo_api = (\<lambda>k. of_nat (10000 * k))" "event_id demo_api = (\<lambda>k. of_nat (10000 * k))"
  "(\<lambda>(k, i). seat_id demo_api k i) = (\<lambda>x. of_nat (case x of (k, i) \<Rightarrow> 10000 * k + i))"
  by (auto simp: fun_eq_iff venue_id_def event_id_def seat_id_def demo_api_def)

lemma inj_of_nat_comp:
  fixes f :: "'a \<Rightarrow> nat"
  assumes "inj_on f A" "f ` A \<subseteq> {..<2 ^ 128}"
  shows "inj_on (\<lambda>x. of_nat (f x) :: uuid) A"
  using comp_inj_on [OF assms(1) inj_on_subset [OF inj_of_nat_uuid assms(2)]] by (simp add: comp_def)

lemma demo_fresh_ids: "fresh_ids demo_api (esDB demo_catalog)"
proof -
  have "inj_on (\<lambda>k. of_nat (10000 * k) :: uuid) A" if "A \<subseteq> {..115}" for A
    using that by (intro inj_of_nat_comp) (auto simp: inj_on_def)
  then have a: "inj_on (\<lambda>k. of_nat (10000 * k) :: uuid) {1..15}"
    "inj_on (\<lambda>k. of_nat (10000 * k) :: uuid) {16..115}" by auto
  have b: "inj_on (\<lambda>x. of_nat (case x of (k, i) \<Rightarrow> 10000 * k + i) :: uuid) ({16..115} \<times> {1..1999})"
  proof (rule inj_of_nat_comp)
    show "inj_on (\<lambda>x. case x of (k, i) \<Rightarrow> 10000 * k + i) ({16..115} \<times> {1..1999::nat})"
    proof (rule inj_onI, clarify)
      fix k i k' i' :: nat
      assume i: "i \<in> {1..1999}" "i' \<in> {1..1999}" and eq: "10000 * k + i = 10000 * k' + i'"
      have "k = k'" using arg_cong [OF eq, of "\<lambda>x. x div 10000"] i by simp
      with eq show "k = k' \<and> i = i'" by simp
    qed
  qed auto
  have c: "\<forall>k\<in>{1..15}. of_nat (10000 * k) \<noteq> uuid_Nil"
  proof
    fix k :: nat assume "k \<in> {1..15}"
    then show "of_nat (10000 * k) \<noteq> uuid_Nil"
      using inj_onD [OF inj_of_nat_uuid, of "10000 * k" 0] by (auto simp: uuid_Nil_def)
  qed
  show ?thesis
    unfolding fresh_ids_def demo_ids using a b c by (simp add: demo_catalog_def empty_db_def)
qed

text \<open>An empty database but for the administrator, and always the first of each choice.\<close>

lemma seeding_completes_witness:
  "\<exists>lines s'. seed_main (api_http (\<lambda>_ _ s. ((404, ErrorBody ''''), s)) demo_api)
     \<lparr>cdYear = 2026, cdMonth = 1, cdDay = 31\<rparr> (\<lambda>_ _ _. 0) (0, demo_catalog) =
       (SeedComplete 15 100, lines, (116, s')) \<and>
     length (venues (esDB s')) = 15 \<and> length (events (esDB s')) = 100"
proof -
  have e: "ExpiryDuration (aJWT (demo_aenv 5)) = 24 * Hour"
    by (simp add: ExpiryDuration_def wrap64_id int64_def duration_defs)
  have n: "jwt_NumericDate demo_crypto (5 + 24 * Hour) = 24 * Hour"
    by (simp add: demo_crypto_def duration_defs)
  have u: "quiet_server demo_api"
    using e n by (simp add: quiet_server_def demo_api_def demo_crypto_ok demo_lib_ok demo_signs Let_def
        quiet_calls_def alone_def quiet_eenv_def duration_defs)
  have a: "seed_admin demo_api demo_admin (esDB demo_catalog)"
    by (simp add: seed_admin_def demo_api_def demo_catalog_def demo_admin_def accounts_ok_def
        CheckPasswordHash_def demo_crypto_def)
  show ?thesis
    using seeding_completes [OF u a demo_fresh_ids, of "\<lambda>_ _ _. 0"]
    by (fastforce simp: draws_ok_def seeded_db_def seed_venues_length demo_catalog_def empty_db_def)
qed

end
