(* ===== verification/Account_Api.thy ===== *)
theory Account_Api
  imports Api_Theorems
begin

text \<open>
  The account and administration routes of internal/routes/routes.go as a server: requests with
  their handlers (internal/handlers/auth_handler.go), the guards of their routes, and the tokens
  handed out so far. What it keeps: no sequence of requests makes an administrator.
\<close>

section \<open>Requests and their runs\<close>

text \<open>A request as its handler gets it: the decoded body, or the parameter of the path.\<close>

datatype account_request =
    ReqRegister "RegisterRequest res"
  | ReqLogin "LoginRequest res"
  | ReqGetMe
  | ReqListUsers "db option"
  | ReqPromoteToAdmin string
  | ReqDemoteToUser string

fun account_endpoint :: "account_request \<Rightarrow> endpoint" where
  "account_endpoint (ReqRegister _) = EpRegister"
| "account_endpoint (ReqLogin _) = EpLogin"
| "account_endpoint ReqGetMe = EpGetMe"
| "account_endpoint (ReqListUsers _) = EpListUsers"
| "account_endpoint (ReqPromoteToAdmin _) = EpPromoteToAdmin"
| "account_endpoint (ReqDemoteToUser _) = EpDemoteToUser"

fun account_handler :: "lib \<Rightarrow> aenv \<Rightarrow> account_request \<Rightarrow> db handler" where
  "account_handler L env (ReqRegister req) = post_Register env req"
| "account_handler L env (ReqLogin req) = post_Login env req"
| "account_handler L env ReqGetMe = get_GetMe env"
| "account_handler L env (ReqListUsers ReadDB) = get_ListUsers env ReadDB"
| "account_handler L env (ReqPromoteToAdmin param) = post_PromoteToAdmin L env param"
| "account_handler L env (ReqDemoteToUser param) = post_DemoteToUser L env param"

text \<open>The middleware of an endpoint, from the table of routes.\<close>

definition guards_of :: "endpoint \<Rightarrow> guard list" where
  "guards_of e = (case find (\<lambda>(_, _, _, e'). e' = e) api_routes of
       Some (_, _, gs, _) \<Rightarrow> gs | None \<Rightarrow> [])"

text \<open>
  One request: the environment of its service call, the clock \<open>RequireAuth\<close> reads, its
  \<open>Authorization\<close> header and whether the rate limiter of these routes, \<open>SimpleRateLimit\<close>,
  refuses it.
\<close>

record account_call =
  acEnv :: aenv
  acNow :: time
  acHeader :: string
  acLimited :: bool
  acRequest :: account_request

definition serve_account :: "lib \<Rightarrow> account_call \<Rightarrow> db \<Rightarrow> reply \<times> db" where
  "serve_account L c = serve (aCrypto (acEnv c)) (jwtSecret (aJWT (acEnv c))) (acNow c) (acHeader c)
     (\<lambda>_. if acLimited c then Some (429, ErrorBody ''rate limit exceeded'') else None) (guards_of (account_endpoint (acRequest c))) (account_handler L (acEnv c) (acRequest c))"

text \<open>The tokens in the answers, each with the time it is valid from.\<close>

fun token_of :: "aenv \<Rightarrow> body \<Rightarrow> (string \<times> time) list" where
  "token_of env (AuthBody r) = [(arToken r, aNow env 2)]"
| "token_of env _ = []"

record account_run =
  asDB :: db
  asTokens :: "(string \<times> time) list"

definition account_exec :: "lib \<Rightarrow> account_call \<Rightarrow> account_run \<Rightarrow> account_run" where
  "account_exec L c s = (case serve_account L c (asDB s) of
     (r, d) \<Rightarrow> \<lparr>asDB = d, asTokens = asTokens s @ token_of (acEnv c) (snd r)\<rparr>)"

text \<open>
  What is asked of a run. All requests reach servers with one secret. Clients cannot forge
  tokens: one that passes validation was handed out before. And nobody makes an administrator
  past the API: the transactions that others commit in between can be any but those.
\<close>

fun unforged :: "lib \<Rightarrow> crypto \<Rightarrow> string \<Rightarrow> account_call list \<Rightarrow> account_run \<Rightarrow> bool" where
  "unforged L C secret [] s \<longleftrightarrow> True"
| "unforged L C secret (c # cs) s \<longleftrightarrow>
     aCrypto (acEnv c) = C \<and> jwtSecret (aJWT (acEnv c)) = secret \<and>
     (\<forall>k. \<forall>op\<in>set (aOthers (acEnv c) k). \<not> grants op RoleAdmin) \<and>
     (\<forall>token\<in>set (Split (acHeader c) (CHR '' '')). is_ok (ValidateToken C (acNow c) token secret) \<longrightarrow>
        (\<exists>t\<le>acNow c. (token, t) \<in> set (asTokens s))) \<and>
     unforged L C secret cs (account_exec L c s)"

section \<open>What a request can do without an administrator\<close>

lemma guards_of_admin:
  "guards_of EpListUsers = [UseRequireAuth, UseSimpleRateLimit, UseRequireAdmin]"
  "guards_of EpPromoteToAdmin = [UseRequireAuth, UseSimpleRateLimit, UseRequireAdmin]"
  "guards_of EpDemoteToUser = [UseRequireAuth, UseSimpleRateLimit, UseRequireAdmin]"
  by code_simp+

text \<open>A token that is good for no more than a user's rights.\<close>

definition users_token :: "crypto \<Rightarrow> string \<Rightarrow> string \<times> time \<Rightarrow> bool" where
  "users_token C secret = (\<lambda>(tok, t). \<forall>now claims. t \<le> now \<longrightarrow>
     ValidateToken C now tok secret = Inr claims \<longrightarrow> cRole claims = ''user'')"

definition powerless :: "crypto \<Rightarrow> string \<Rightarrow> account_run \<Rightarrow> bool" where
  "powerless C secret s \<longleftrightarrow> no_admin (asDB s) \<and> (\<forall>x\<in>set (asTokens s). users_token C secret x)"

lemma users_token_response:
  assumes "crypto_ok (aCrypto env)" "token_response env (arUser r) = Inr r" "uRole (arUser r) = RoleUser"
  shows "users_token (aCrypto env) (jwtSecret (aJWT env)) (arToken r, aNow env 2)"
  unfolding users_token_def
proof (clarify)
  fix now claims assume "aNow env 2 \<le> now"
    and v: "ValidateToken (aCrypto env) now (arToken r) (jwtSecret (aJWT env)) = Inr claims"
  from token_parses [OF assms(1,2) this(1)] v assms(3) show "cRole claims = ''user''"
    by (metis sum.distinct(1) sum.inject(2) role_string.simps(1))
qed

lemma Register_no_admin:
  assumes "no_admin d" "\<forall>k. \<forall>op\<in>set (aOthers env k). \<not> grants op RoleAdmin"
  shows "no_admin (snd (Register env req d))"
proof -
  let ?d = "run exec_tx (aOthers env 1) (run exec_tx (aOthers env 0) d)"
  have n: "no_admin (run exec_tx (aOthers env 0) d)" "no_admin ?d" using no_admin_run assms by blast+
  have c: "no_admin (snd (user_Create t ?d u))" if "uRole u = RoleUser" for t u
    using user_step_roles [OF user_ops_step(1) [where G = "\<lambda>r. r = RoleUser" and env = t and d = ?d, OF that]] n(2)
    by (auto simp: no_admin_def)
  show ?thesis
    using n(1) c by (auto simp: Register_def abind_def arepo_def aread_def aret_def split: sum.splits prod.splits)
      (metis User.select_convs(5) snd_conv)+
qed

lemma Login_no_admin:
  assumes "no_admin d" "\<forall>k. \<forall>op\<in>set (aOthers env k). \<not> grants op RoleAdmin"
  shows "no_admin (snd (Login env req d))" "no_admin (snd (GetUserByID env u d))"
  using no_admin_run [OF assms(1)] assms(2)
  by (auto simp: Login_def GetUserByID_def abind_def arepo_def aread_def aret_def split: sum.splits)


text \<open>Requests to administrative routes are refused, whatever they carry.\<close>

lemma refused_request:
  assumes "powerless C secret s" "unforged L C secret (c # cs) s" "account_endpoint (acRequest c) \<in> admin_endpoints"
  shows "\<exists>r. serve_account L c d = (r, d) \<and>
    (r = (429, ErrorBody ''rate limit exceeded'') \<or> (\<exists>msg. r = (401, ErrorBody msg) \<or> r = (403, ErrorBody msg)))"
proof -
  have g: "guards_of (account_endpoint (acRequest c)) = [UseRequireAuth, UseSimpleRateLimit, UseRequireAdmin]"
    using assms(3) by (cases "acRequest c") (auto simp: admin_endpoints_def guards_of_admin)
  have C: "aCrypto (acEnv c) = C" "jwtSecret (aJWT (acEnv c)) = secret" using assms(2) by simp_all
  have role: "ctxUserRole c' = Some ''user''"
    if a: "RequireAuth C secret (acNow c) (acHeader c) anonymous = Inr c'" for c'
    using a
  proof (rule RequireAuth_Inr)
    fix token claims
    assume t: "token \<in> set (Split (acHeader c) (CHR '' ''))"
      and v: "ValidateToken C (acNow c) token secret = Inr claims" and r: "ctxUserRole c' = Some (cRole claims)"
    from v have "is_ok (ValidateToken C (acNow c) token secret)" by simp
    with t assms(2) obtain u where "u \<le> acNow c" "(token, u) \<in> set (asTokens s)" by auto
    with assms(1) v r show "ctxUserRole c' = Some ''user''"
      unfolding powerless_def users_token_def by fastforce
  qed
  show ?thesis
  proof (cases "RequireAuth C secret (acNow c) (acHeader c) anonymous")
    case (Inl a)
    with RequireAuth_Inl show ?thesis by (cases a) (fastforce simp: serve_account_def serve_def g C)
  next
    case (Inr c')
    with role [OF Inr] show ?thesis
      by (cases "acLimited c") (simp_all add: serve_account_def serve_def g C RequireAdmin_def)
  qed
qed

lemma refusals:
  assumes "authorize C secret now header (\<lambda>_. if l then Some (429, ErrorBody msg0) else None) gs c = Inl r"
  shows "\<exists>st msg. r = (st, ErrorBody msg)"
  using assms
proof (induction gs arbitrary: c)
  case (Cons g gs)
  then show ?case
    by (cases g; cases "RequireAuth C secret now header c"; cases "RequireAdmin c")
      (auto split: option.splits if_splits)
qed simp

lemma on_auth_snd: "snd (on_auth m f d) = snd (m d)"
  by (simp add: on_auth_def split: prod.splits)

text \<open>The other handlers: registration, login and the own profile.\<close>

lemma handler_powerless:
  assumes "no_admin d" "\<forall>k. \<forall>op\<in>set (aOthers env k). \<not> grants op RoleAdmin" "crypto_ok (aCrypto env)"
    and "account_endpoint rq \<notin> admin_endpoints" "account_handler L env rq ctx d = (r, d')"
  shows "no_admin d' \<and> (\<forall>x\<in>set (token_of env (snd r)). users_token (aCrypto env) (jwtSecret (aJWT env)) x)"
proof -
  have tok: "users_token (aCrypto env) (jwtSecret (aJWT env)) (arToken resp, aNow env 2)"
    if "Login env req d = (Inr resp, e) \<or> Register env req' d = (Inr resp, e)" for req req' resp e
    using users_token_response [OF assms(3) response_token [OF that]] no_first_admin [OF assms(1,2) that] by blast
  show ?thesis
  proof (cases rq)
    case (ReqRegister b)
    show ?thesis
    proof (cases b)
      case (Inr req)
      obtain x d1 where "Register env req d = (x, d1)" by fastforce
      with ReqRegister Inr assms(5) tok [where req' = req and e = d1] Register_no_admin [OF assms(1,2), of req] show ?thesis
        by (cases x) (auto simp: post_Register_def with_body_def on_auth_def split: if_splits)
    qed (use ReqRegister assms(1,5) in \<open>auto simp: post_Register_def with_body_def answer_def\<close>)
  next
    case (ReqLogin b)
    show ?thesis
    proof (cases b)
      case (Inr req)
      obtain x d1 where "Login env req d = (x, d1)" by fastforce
      with ReqLogin Inr assms(5) tok [where req = req and e = d1] Login_no_admin(1) [OF assms(1,2), of req] show ?thesis
        by (cases x) (auto simp: post_Login_def with_body_def on_auth_def split: if_splits)
    qed (use ReqLogin assms(1,5) in \<open>auto simp: post_Login_def with_body_def answer_def\<close>)
  next
    case ReqGetMe
    with assms(5) Login_no_admin(2) [OF assms(1,2)] assms(1) show ?thesis
      by (auto simp: get_GetMe_def with_user_def on_auth_def answer_def split: sum.splits prod.splits if_splits)
        (metis snd_conv)+
  qed (use assms(4) in \<open>auto simp: admin_endpoints_def\<close>)
qed

lemma step_powerless:
  assumes "crypto_ok C" "powerless C secret s" "unforged L C secret (c # cs) s"
  shows "powerless C secret (account_exec L c s)"
proof (cases "account_endpoint (acRequest c) \<in> admin_endpoints")
  case True
  from refused_request [OF assms(2,3) True] obtain r where
    "serve_account L c (asDB s) = (r, asDB s)" "token_of (acEnv c) (snd r) = []" by fastforce
  with assms(2) show ?thesis by (simp add: account_exec_def powerless_def)
next
  case False
  have c: "aCrypto (acEnv c) = C" "jwtSecret (aJWT (acEnv c)) = secret"
    "\<forall>k. \<forall>op\<in>set (aOthers (acEnv c) k). \<not> grants op RoleAdmin" using assms(3) by simp_all
  obtain r d where r: "serve_account L c (asDB s) = (r, d)" by fastforce
  have "no_admin d \<and> (\<forall>x\<in>set (token_of (acEnv c) (snd r)). users_token C secret x)"
  proof (cases "\<exists>ctx. account_handler L (acEnv c) (acRequest c) ctx (asDB s) = (r, d)")
    case True
    then obtain ctx where "account_handler L (acEnv c) (acRequest c) ctx (asDB s) = (r, d)" by blast
    from handler_powerless [OF _ c(3) _ False this] assms(1,2) c(1,2) show ?thesis by (simp add: powerless_def)
  next
    case no: False
    from r no obtain x where "authorize C secret (acNow c) (acHeader c)
        (\<lambda>_. if acLimited c then Some (429, ErrorBody ''rate limit exceeded'') else None)
        (guards_of (account_endpoint (acRequest c))) anonymous = Inl r" "d = asDB s"
      by (auto simp: serve_account_def serve_def c split: sum.splits)
    moreover from this(1) have "\<exists>st msg. r = (st, ErrorBody msg)" by (rule refusals)
    ultimately show ?thesis using assms(2) by (auto simp: powerless_def)
  qed
  with assms(2) show ?thesis by (auto simp: account_exec_def r powerless_def)
qed

lemma run_powerless:
  assumes "crypto_ok C"
  shows "powerless C secret s \<Longrightarrow> unforged L C secret cs s \<Longrightarrow> powerless C secret (run (account_exec L) cs s)"
proof (induction cs arbitrary: s)
  case (Cons c cs)
  with step_powerless [OF assms Cons.prems] show ?case by simp
qed simp

lemma unforged_append:
  "unforged L C secret (cs @ cs') s \<longleftrightarrow>
     unforged L C secret cs s \<and> unforged L C secret cs' (run (account_exec L) cs s)"
  by (induction cs arbitrary: s) auto

text \<open>
  C6. Nobody becomes an administrator through the API alone. From a database without one, and
  as long as tokens cannot be forged and the role is not granted past the API, any sequence of
  requests to the account and administration routes, with any bodies, headers and failures and
  with any other transactions in between, leaves the database without an administrator; every
  token it has handed out carries the rights of a user; and each request to list, promote or
  demote users is answered 401, 403 or 429 and changes nothing.
\<close>

theorem privileges_do_not_grow:
  assumes "crypto_ok C" "no_admin d" "unforged L C secret calls \<lparr>asDB = d, asTokens = []\<rparr>"
  shows "no_admin (asDB (run (account_exec L) calls \<lparr>asDB = d, asTokens = []\<rparr>)) \<and>
    (\<forall>(tok, t) \<in> set (asTokens (run (account_exec L) calls \<lparr>asDB = d, asTokens = []\<rparr>)).
       \<forall>now\<ge>t. \<forall>claims. ValidateToken C now tok secret = Inr claims \<longrightarrow> cRole claims = ''user'') \<and>
    (\<forall>before c later. calls = before @ c # later \<and>
         account_endpoint (acRequest c) \<in> {EpListUsers, EpPromoteToAdmin, EpDemoteToUser} \<longrightarrow>
       (\<exists>r. serve_account L c (asDB (run (account_exec L) before \<lparr>asDB = d, asTokens = []\<rparr>)) =
              (r, asDB (run (account_exec L) before \<lparr>asDB = d, asTokens = []\<rparr>)) \<and>
          fst r \<in> {401, 403, 429}))"
proof -
  let ?s = "\<lparr>asDB = d, asTokens = []\<rparr> :: account_run"
  have s: "powerless C secret ?s" using assms(2) by (simp add: powerless_def)
  have "\<exists>r. serve_account L c (asDB (run (account_exec L) before ?s)) = (r, asDB (run (account_exec L) before ?s)) \<and>
      fst r \<in> {401, 403, 429}"
    if calls: "calls = before @ c # later"
      and e: "account_endpoint (acRequest c) \<in> {EpListUsers, EpPromoteToAdmin, EpDemoteToUser}" for before c later
  proof -
    from assms(3) have u: "unforged L C secret before ?s"
        "unforged L C secret (c # later) (run (account_exec L) before ?s)"
      unfolding calls unforged_append by blast+
    from e have "account_endpoint (acRequest c) \<in> admin_endpoints" by (auto simp: admin_endpoints_def)
    from refused_request [OF run_powerless [OF assms(1) s u(1)] u(2) this] show ?thesis by fastforce
  qed
  with run_powerless [OF assms(1) s assms(3)] show ?thesis
    unfolding powerless_def users_token_def by fastforce
qed

text \<open>Somebody registers, and asks with the new token to be promoted.\<close>

definition demo_calls_of :: "string \<Rightarrow> account_call list" where
  "demo_calls_of tok =
     [\<lparr>acEnv = demo_aenv 5, acNow = 5, acHeader = '''', acLimited = False, acRequest = ReqRegister (Inr demo_register)\<rparr>,
      \<lparr>acEnv = demo_aenv Hour, acNow = Hour, acHeader = ''Bearer '' @ tok, acLimited = False,
        acRequest = ReqPromoteToAdmin ''1''\<rparr>]"

lemma privileges_do_not_grow_witness:
  "\<exists>tok. asDB (run (account_exec demo_lib) (demo_calls_of tok) \<lparr>asDB = empty_db, asTokens = []\<rparr>) =
       empty_db\<lparr>users := [registered_user]\<rparr> \<and>
     no_admin (empty_db\<lparr>users := [registered_user]\<rparr>) \<and>
     (tok, 5) \<in> set (asTokens (run (account_exec demo_lib) (demo_calls_of tok) \<lparr>asDB = empty_db, asTokens = []\<rparr>))"
proof -
  obtain tok where tok: "token_response (demo_aenv 5) registered_user = Inr \<lparr>arUser = registered_user, arToken = tok\<rparr>"
    using token_response_signs [OF demo_signs] by blast
  have c: "crypto_ok (aCrypto (demo_aenv 5))" by (simp add: demo_crypto_ok)
  have b: "CHR '' '' \<notin> set tok"
    using token_parses [OF c tok, of 5] by auto
  let ?s = "\<lparr>asDB = empty_db, asTokens = []\<rparr> :: account_run"
  let ?s1 = "\<lparr>asDB = empty_db\<lparr>users := [registered_user]\<rparr>, asTokens = [(tok, 5)]\<rparr> :: account_run"
  have g: "guards_of EpRegister = []" by code_simp
  have one: "account_exec demo_lib (demo_calls_of tok ! 0) ?s = ?s1"
    by (simp add: account_exec_def demo_calls_of_def serve_account_def serve_def g post_Register_def
        with_body_def on_auth_def demo_Register tok)
  have sp: "Split (''Bearer '' @ tok) (CHR '' '') = [''Bearer'', tok]"
    using Split_append [of "CHR '' ''" "''Bearer''" tok] by (simp add: Split_none b)
  have bad: "\<not> is_ok (ValidateToken demo_crypto t x secret)" if "length (Split x (CHR '','')) \<noteq> 9" for t x secret
    using that by (simp add: ValidateToken_def demo_crypto_def Let_def)
  have u: "unforged demo_lib demo_crypto ''s'' (demo_calls_of tok) ?s"
    using one by (simp add: demo_calls_of_def bad sp del: Split.simps append.simps) (simp add: bad duration_defs)
  have "no_admin empty_db" by (simp add: no_admin_def empty_db_def)
  from privileges_do_not_grow [OF demo_crypto_ok this u, THEN conjunct2, THEN conjunct2, THEN spec, THEN spec, THEN spec,
      of "[demo_calls_of tok ! 0]" "demo_calls_of tok ! 1" "[]"]
  obtain r where "serve_account demo_lib (demo_calls_of tok ! 1) (asDB ?s1) = (r, asDB ?s1)"
    by (auto simp: demo_calls_of_def one [unfolded demo_calls_of_def, simplified])
  then have "asDB (run (account_exec demo_lib) (demo_calls_of tok) ?s) = asDB ?s1 \<and>
      (tok, 5) \<in> set (asTokens (run (account_exec demo_lib) (demo_calls_of tok) ?s))"
    using one by (simp add: demo_calls_of_def) (simp add: account_exec_def)
  then show ?thesis by (auto simp: no_admin_def registered_user_def)
qed

end
