(* ===== verification/Spec2Isabelle.thy ===== *)
theory Spec2Isabelle
  imports Booking_Theorems Rate_Limiter Idempotency Event_Theorems Monitoring Event_Stream_Theorems Hub
    Api_Theorems Startup Schema_Theorems Payment_Theorems Cleanup_Theorems Endpoints Delivery Wiring
    Status_Order Seed_Api Account_Api
begin

text \<open>
  A verification development for the event ticketing server: users reserve seats of events,
  pay for them with Stripe and lose them when the reservation runs out. PostgreSQL holds the
  truth, Redis holds deadlines, caches, locks and counters, Kafka carries the commands of the
  asynchronous paths and the domain events, and a WebSocket hub tells listeners about seats.

  How the parts interact. \<open>main\<close> (cmd/server/main.go) connects, migrates and starts the
  workers; \<open>SetupRoutes\<close> puts middleware and handlers on routes. A handler calls a service, or
  enqueues a command and answers with a job id. A service is a sequence of repository calls,
  each one transaction; between two of them other requests and workers commit theirs. After a
  reservation the service adds its deadline to the expiry queue, marks the user's seat reads
  for the primary database, drops the event from the cache and publishes an event. The release
  workers poll the expiry queue and expire what is due, the cleanup loop expires what the queue
  has missed, the job workers carry out queued commands, and the event consumer drops cache
  entries and hands seat updates to the hub.

  Which theory models what:

  \<^item> Prelude: UUIDs, times in nanoseconds, Go errors, error sequencing, and the locales
    \<open>invariant_system\<close> and \<open>bounded_system\<close> (runs keep an invariant; runs stay in a relation
    every operation stays in), interpreted on the transactions, the accounts and the expiry
    queue, with \<open>transition_system\<close> and \<open>rooted_system\<close>, the same for step relations, interpreted
    on the hub. Go_Strings: the parts of strings, strconv and fmt the
    program uses. Sql_Table: the SQL statements on lists of rows and the locale \<open>db_table\<close>,
    interpreted on each table. Redis_Kv: keys with expiry times, and the locale of an expiring
    cache, interpreted on Redis' keys.
  \<^item> Config: internal/config (all settings, their defaults and the Kafka security checks).
  \<^item> Models, Booking_Repo, Catalog_Repo, Transactions: internal/models, the tables of
    internal/database/migrations.sql and every function of internal/repository. A record per
    Go struct, a \<open>db\<close> with a list of rows per table; a repository function takes the
    environment of one call (\<open>tenv\<close>: its clock readings, the new ids, which driver call fails,
    whether a failing commit has landed) and the database, and returns its result or error and
    the new database. \<open>txop\<close> is a transaction of the running program and \<open>exec_tx\<close> executes it; a history is any list
    of them. Booking_Inv, Booking_Laws, Booking_Specs and Booking_Theorems: the
    invariant that ties bookings, seats and counters, its preservation by each operation, each
    operation on every branch, the abstract life cycle of a booking and the simulation by it.
    Schema_Theorems: keys, references and column ranges of all tables. Status_Order: the
    statuses as a linear order along which bookings move. Demo: the history the witnesses run.
  \<^item> Expiry_Queue: internal/queue/expiry_queue.go and expiry_partition.go, with the Lua script
    as written. Command_Queue and Queue_Theorems: internal/queue/queue.go (jobs, statuses,
    counters, retries, dead letters, the consumer loop); \<open>job_retry\<close> is the interface both kinds
    of job provide. Job_Consumers: the generations of a consumer group with the handlers of
    booking_worker.go.
  \<^item> Payment, Payment_Theorems, Booking_Service, Service_Calls, Service_Theorems:
    internal/services/payment_service.go and booking_service.go. \<open>senv\<close> is the environment of
    one service call, including the transactions others commit before each of its repository
    calls and the order in which the goroutines of a bulk reservation take their turns.
    \<open>exec_call\<close> executes any call. The locale \<open>service_relation\<close> carries a relation on worlds
    through every call of the service; it is interpreted twice, on \<open>the database changes by
    transactions only\<close> and on \<open>only known types of events are published\<close>.
  \<^item> Event_Service, Event_Theorems, Seat_Routing: event_service.go, venue_service.go and
    internal/database/seat_read_routing.go.
  \<^item> Auth, Auth_Theorems: auth_service.go, auth_middleware.go, pkg/jwt and
    internal/utils/password.go. Rate_Limiter and Idempotency: the middlewares of those names;
    each call of Redis the idempotency middleware makes is a step of its own, between which
    other requests run.
  \<^item> Workers, Worker_Theorems, Cleanup_Theorems: batch_release_worker.go, cleanup_worker.go, booking_worker.go.
    Monitoring: queue_monitor.go and internal/telemetry.
  \<^item> Event_Stream, Event_Stream_Theorems: kafka_event_publisher.go, booking_event_consumer.go
    and internal/kafka. Hub: internal/websocket/hub.go as a step relation. Delivery: the
    consumer and the hub of one server as one step relation.
  \<^item> Api, Api_Theorems: internal/handlers (answers, binding rules) and the route table of
    internal/routes/routes.go. Startup: cmd/server/main.go, internal/database/database.go and
    migrate.go, internal/redis/redis.go, the construction of the queue, request_id.go. Wiring:
    the construction of the booking services, Kafka's readers and writers, the end of \<open>main\<close>.
    Endpoints: the upgrade, metrics and Swagger handlers, all routes, access_log.go and
    cmd/migrate/main.go.
  \<^item> Seed: scripts/seed_data.go, a client of the API, with what it asks of its server as the
    locale \<open>seed_server\<close>. Seed_Api: the routes it uses as an HTTP server, from the request to
    the rows, and the locale's interpretation on it. Account_Api: the account and administration
    routes as a server, with the tokens it has handed out.

  What the groups of lemmas show. Database: no seat is sold twice, seats and counters agree
  with bookings after every history, bookings move along their life cycle only, a failed
  operation changes nothing. Services: calls are histories of such transactions, so all of
  this holds of the running program; success means what it says, owners only, payments that
  fail are undone, bulk reservations are all or nothing. Queues and workers: deadlines are not
  lost, claims are exclusive for four minutes (until the member is added again), due reservations are released, failing jobs end in the dead
  letters once, no job is passed over but by an idle generation. Middleware: who reaches a
  handler, that nobody becomes an administrator without one, how many requests a window admits,
  one handler at a time per idempotency key and cached answers after a success. Events and hub: what was published reaches the cache and the
  clients, in order, without a panic, and no client that stays connected misses an update
  unless the hub's queue was full. Start-up: which parts run, what a failed migration leaves. The
  seeding script, run against the API, leaves the catalogue it reports.
  Several lemmas show the other side, a history in which the code does not do what it should:
  \<open>purchase_race\<close>, \<open>undercharge\<close>, \<open>idle_generation_skips_a_message\<close>, \<open>depth_counter_drifts\<close>,
  \<open>poll_starved\<close>, \<open>extended_deadline_dropped\<close>, \<open>admission_lockout\<close>, \<open>register_race\<close>,
  \<open>demoted_admin_passes\<close>, \<open>stale_fill\<close>, \<open>seat_listing_never_primary\<close>, \<open>free_event_refused\<close>,
  \<open>unexpected_500\<close>, \<open>job_status_for_everybody\<close>, \<open>pending_alerts_silent\<close>,
  \<open>unacked_message_skipped\<close>, \<open>unregistered_first\<close>, \<open>migration_lock_leaks\<close>, \<open>unread_partition\<close>,
  \<open>refused_upgrade_is_not_400\<close>, \<open>no_first_admin\<close>, \<open>city_dropped\<close>, \<open>handler_runs_twice\<close>,
  \<open>idle_generation\<close>, \<open>readded_member\<close>.

  Bounds. No definition uses fuel. Loops over collections are structural; the chunking of a
  bulk reservation and the binary logarithm terminate by a measure; workers, consumers and
  the hub run until they are cancelled and are modelled by the list of their rounds or a step
  relation. Integers are mathematical where the code's cannot leave their range (offsets,
  lengths, Unix times) and wrap where they can (\<open>wrap64\<close>, the hash words, telemetry counters).

  Parameters stand for code that is not in the repository: the UUID library (\<open>lib\<close>, with
  \<open>lib_ok\<close>: parsing undoes printing), \<open>url.Parse\<close>, Stripe (\<open>stripe_api\<close>), bcrypt and
  golang-jwt (\<open>crypto\<close>, with \<open>crypto_ok\<close>), golang.org/x/time/rate, the validator's e-mail
  check, the parser of client messages. Each hypothesis on one is shown to be satisfiable by an instance.

  Modelling decisions. A transaction is one step, because every transaction that reads before
  it writes locks the row it decides on; the row locks taken with NOWAIT may be busy, as the
  environment says. Redis commands, scripts and pipelines are atomic. Amounts are kept in
  cents, except in the conversion of a \<open>float64\<close> amount for Stripe, which is computed as
  IEEE double precision. Times have Go's resolution; PostgreSQL's rounding to microseconds and
  time zones are left out. The length limits of \<open>VARCHAR\<close> columns and the range of
  \<open>DECIMAL(10,2)\<close> are left to the environment: a statement that breaks one is a statement that fails. JSON is the identity on values the program itself has marshalled.
  \<open>SetPaymentIntentID\<close> updates and reads back in one step. The goroutines of a bulk reservation interleave by reservations, not by
  statements of one reservation; a delivery of the hub is one step,
  because only the hub's loop changes the set of clients. Kafka's partitions are handled one at a time, and a commit
  takes effect at once. \<open>chunkSeats\<close> is called with a positive size only.

  Not modelled: the sockets, HTTP parsing and routing of gin, log lines other than the access
  log's, the text of the Swagger page and the generated API description (docs). They are I/O or
  text without decisions of their own.
\<close>

end
